(* ===== verification/Prelude.thy ===== *)
theory Prelude
  imports Main "HOL-Library.Multiset" "HOL-Library.List_Lexorder" "HOL-Library.Char_ord"
begin

text \<open>
  Shared vocabulary of the model of \<^verbatim>\<open>src/server.js\<close>: the JavaScript values a
  request body can carry after \<^verbatim>\<open>express.json()\<close> and object destructuring,
  JavaScript truthiness (the \<^verbatim>\<open>!x\<close> guards of the handlers), the conversion of a
  value to a string, the shape of an Express response, and the list lemmas the
  component theories share.  JavaScript numbers are modelled by \<open>int\<close>: the
  handlers only test them for truthiness, store them, or pass them to
  \<^verbatim>\<open>new Date(..)\<close>, and a JSON body of this service carries integer milliseconds
  and minutes; fractional numbers are outside the model.
\<close>

named_theorems handler_defs "unfolding equations of the route handlers"
named_theorems cast_simps "evaluation rules of the Mongoose casts"

type_synonym time = int \<comment> \<open>a JavaScript time value: milliseconds since the epoch\<close>

section \<open>JavaScript values\<close>

text \<open>
  \<open>JUndef\<close> is \<^verbatim>\<open>undefined\<close>: what destructuring \<^verbatim>\<open>const { title } = req.body\<close>
  yields for a key the body does not have.  An object is its list of members in
  source order; \<^verbatim>\<open>JSON.parse\<close> keeps the last of duplicated keys.
\<close>

datatype jsval =
    JUndef
  | JNull
  | JBool bool
  | JNum int
  | JStr string
  | JArr "jsval list"
  | JObj "(string \<times> jsval) list"

text \<open>JavaScript's \<^verbatim>\<open>ToBoolean\<close>: the handlers' \<^verbatim>\<open>if (!title || ...)\<close>.\<close>

fun truthy :: "jsval \<Rightarrow> bool" where
  "truthy JUndef = False"
| "truthy JNull = False"
| "truthy (JBool b) = b"
| "truthy (JNum n) = (n \<noteq> 0)"
| "truthy (JStr s) = (s \<noteq> [])"
| "truthy (JArr _) = True"
| "truthy (JObj _) = True"

text \<open>
  Property access \<^verbatim>\<open>v.k\<close> on a value that destructuring accepts (anything but
  \<^verbatim>\<open>null\<close> and \<^verbatim>\<open>undefined\<close>, on which it throws a \<^verbatim>\<open>TypeError\<close>): an
  own member of an object, the last one when the key is repeated; \<^verbatim>\<open>undefined\<close>
  on every other value.
\<close>

definition object_coercible :: "jsval \<Rightarrow> bool" where
  "object_coercible v \<longleftrightarrow> v \<noteq> JUndef \<and> v \<noteq> JNull"

fun get_prop :: "jsval \<Rightarrow> string \<Rightarrow> jsval" where
  "get_prop (JObj kvs) k = (case map_of (rev kvs) k of Some v \<Rightarrow> v | None \<Rightarrow> JUndef)"
| "get_prop _ k = JUndef"

section \<open>Number to string\<close>

fun nat_str :: "nat \<Rightarrow> string" where
  "nat_str n = (if n < 10 then [char_of (48 + n)] else nat_str (n div 10) @ [char_of (48 + n mod 10)])"

declare nat_str.simps [simp del]

definition int_str :: "int \<Rightarrow> string" where
  "int_str i = (if i < 0 then CHR ''-'' # nat_str (nat (- i)) else nat_str (nat i))"

text \<open>
  JavaScript's \<^verbatim>\<open>ToString\<close>, used where a value is coerced to a string: an array
  joins its elements with commas, \<^verbatim>\<open>null\<close> and \<^verbatim>\<open>undefined\<close> elements giving
  the empty string; a plain object gives \<^verbatim>\<open>"[object Object]"\<close>.
\<close>

fun join_comma :: "string list \<Rightarrow> string" where
  "join_comma [] = []"
| "join_comma [s] = s"
| "join_comma (s # ss) = s @ CHR '','' # join_comma ss"

fun js_to_string :: "jsval \<Rightarrow> string"
  and js_elem_string :: "jsval \<Rightarrow> string" where
  "js_to_string JUndef = ''undefined''"
| "js_to_string JNull = ''null''"
| "js_to_string (JBool b) = (if b then ''true'' else ''false'')"
| "js_to_string (JNum n) = int_str n"
| "js_to_string (JStr s) = s"
| "js_to_string (JArr vs) = join_comma (map js_elem_string vs)"
| "js_to_string (JObj _) = ''[object Object]''"
| "js_elem_string JUndef = []"
| "js_elem_string JNull = []"
| "js_elem_string v = js_to_string v"

section \<open>Dates\<close>

text \<open>
  What the runtime supplies to a request: the clock read by \<^verbatim>\<open>new Date()\<close>
  and \<^verbatim>\<open>Date.now\<close>, and the engine's \<^verbatim>\<open>Date.parse\<close>, whose result on
  strings outside the ISO format is implementation-defined (\<open>None\<close> is an
  Invalid Date).
\<close>

record env =
  now :: time
  date_parse :: "string \<Rightarrow> time option"

text \<open>\<^verbatim>\<open>TimeClip\<close>: a time value beyond 8.64e15 ms either side of the epoch is NaN.\<close>

definition time_clip :: "int \<Rightarrow> time option" where
  "time_clip t = (if \<bar>t\<bar> \<le> 8640000000000000 then Some t else None)"

text \<open>
  \<^verbatim>\<open>new Date(v)\<close> with one argument: \<^verbatim>\<open>ToPrimitive(v)\<close>; a string is parsed,
  anything else goes through \<^verbatim>\<open>ToNumber\<close> and \<^verbatim>\<open>TimeClip\<close>.
\<close>

fun js_new_date :: "(string \<Rightarrow> time option) \<Rightarrow> jsval \<Rightarrow> time option" where
  "js_new_date parse JUndef = None"
| "js_new_date parse JNull = time_clip 0"
| "js_new_date parse (JBool b) = time_clip (if b then 1 else 0)"
| "js_new_date parse (JNum n) = time_clip n"
| "js_new_date parse (JStr s) = parse s"
| "js_new_date parse (JArr vs) = parse (js_to_string (JArr vs))"
| "js_new_date parse (JObj kvs) = parse (js_to_string (JObj kvs))"

section \<open>Errors\<close>

text \<open>Sequencing of steps that may fail: the first \<open>Inl\<close> aborts, as a throw does.\<close>

definition sbind :: "'e + 'a \<Rightarrow> ('a \<Rightarrow> 'e + 'b) \<Rightarrow> 'e + 'b" where
  "sbind m f = (case m of Inl e \<Rightarrow> Inl e | Inr x \<Rightarrow> f x)"

section \<open>Responses\<close>

text \<open>
  Every handler ends in \<^verbatim>\<open>res.status(c).json(x)\<close> (status 200 when no status is
  set): either a document or a list of documents, or an object
  \<^verbatim>\<open>{ message: m }\<close>.
\<close>

datatype 'a response = Json nat 'a | Message nat string

primrec status :: "'a response \<Rightarrow> nat" where
  "status (Json c _) = c"
| "status (Message c _) = c"

section \<open>Examples\<close>

text \<open>A request environment for the examples: a fixed clock and a \<^verbatim>\<open>Date.parse\<close> that accepts nothing.\<close>

abbreviation ex_env :: env where
  "ex_env \<equiv> \<lparr>now = 1700000000000, date_parse = (\<lambda>_. None)\<rparr>"

section \<open>Shared lemmas\<close>

lemma sbind_Inr [simp]: "sbind (Inr x) f = f x"
  by (simp add: sbind_def)

lemma sbind_Inl [simp]: "sbind (Inl e) f = Inl e"
  by (simp add: sbind_def)

lemma sbind_eq_Inr: "sbind m f = Inr y \<longleftrightarrow> (\<exists>x. m = Inr x \<and> f x = Inr y)"
  by (cases m) (auto simp: sbind_def)

lemma truthy_not_null [simp]: "truthy v \<Longrightarrow> object_coercible v"
  by (cases v) (auto simp: object_coercible_def)

lemma nat_str_nonempty [simp]: "nat_str n \<noteq> []"
  by (subst nat_str.simps) simp

lemma int_str_nonempty [simp]: "int_str i \<noteq> []"
  by (simp add: int_str_def)

lemma distinct_map_remove1: "distinct (map f xs) \<Longrightarrow> distinct (map f (remove1 x xs))"
  by (induction xs) (auto dest: notin_set_remove1 simp: image_iff)

lemma distinct_map_notin_image:
  assumes "distinct (map f xs)" "set ys \<subseteq> set xs" "x \<in> set xs" "x \<notin> set ys"
  shows "f x \<notin> f ` set ys"
proof
  assume "f x \<in> f ` set ys"
  then obtain y where y: "y \<in> set ys" "f x = f y" by (rule imageE)
  from assms(1) have "inj_on f (set xs)" by (simp add: distinct_map)
  with y assms(2,3) have "x = y" by (auto dest: inj_onD)
  with y assms(4) show False by simp
qed

lemma filter_empty_iff_not_ex: "filter P xs = [] \<longleftrightarrow> (\<forall>x \<in> set xs. \<not> P x)"
  by (simp add: filter_empty_conv)

end
