(* ===== verification/Mongo.thy ===== *)
theory Mongo
  imports Prelude
begin

text \<open>
  The persistence gateway as \<^verbatim>\<open>src/server.js\<close> uses it through Mongoose: the
  casts that \<^verbatim>\<open>new Blog({...})\<close>, \<^verbatim>\<open>new GalleryImage({...})\<close> and
  \<^verbatim>\<open>Blog.findOne({ slug })\<close> apply to body values (Mongoose's \<^verbatim>\<open>castString\<close>,
  \<^verbatim>\<open>castNumber\<close>, \<^verbatim>\<open>castBoolean\<close> and the query cast of a \<^verbatim>\<open>String\<close>
  path), the cast of a route parameter to an ObjectId (\<^verbatim>\<open>findById\<close>), and the
  collection operations \<^verbatim>\<open>find\<close>, \<^verbatim>\<open>findOne\<close>, \<^verbatim>\<open>findOneAndDelete\<close>,
  \<^verbatim>\<open>sort\<close> and \<^verbatim>\<open>save\<close> under a unique index.  A collection is the list of
  its documents in natural (insertion) order.
\<close>

datatype db_error = CastError | DuplicateKey | ValidationError

type_synonym oid = nat \<comment> \<open>an ObjectId, read as the 96-bit number of its 24 hex digits\<close>

section \<open>Casts of body values\<close>

text \<open>
  \<^verbatim>\<open>castString\<close>: \<^verbatim>\<open>null\<close> and \<^verbatim>\<open>undefined\<close> stay unset (\<open>None\<close>); an
  object with a non-empty string \<^verbatim>\<open>_id\<close> gives that id; a primitive other than a
  string is converted with its \<^verbatim>\<open>toString\<close>; arrays and plain objects are a
  \<^verbatim>\<open>CastError\<close>.
\<close>

fun cast_string :: "jsval \<Rightarrow> db_error + string option" where
  "cast_string JUndef = Inr None"
| "cast_string JNull = Inr None"
| "cast_string (JStr s) = Inr (Some s)"
| "cast_string (JNum n) = Inr (Some (int_str n))"
| "cast_string (JBool b) = Inr (Some (if b then ''true'' else ''false''))"
| "cast_string (JArr _) = Inl CastError"
| "cast_string (JObj kvs) =
     (case get_prop (JObj kvs) ''_id'' of
        JStr s \<Rightarrow> if s \<noteq> [] then Inr (Some s) else Inl CastError
      | _ \<Rightarrow> Inl CastError)"

text \<open>
  \<^verbatim>\<open>Number(s)\<close> on a string, for the decimal integer literals this model covers
  (an optional sign and at least one digit).
\<close>

fun digits_val :: "nat \<Rightarrow> string \<Rightarrow> nat option" where
  "digits_val acc [] = Some acc"
| "digits_val acc (c # cs) =
     (if CHR ''0'' \<le> c \<and> c \<le> CHR ''9''
      then digits_val (10 * acc + (of_char c - 48)) cs else None)"

definition js_number_of_string :: "string \<Rightarrow> int option" where
  "js_number_of_string s =
     (case s of
        [] \<Rightarrow> Some 0
      | c # cs \<Rightarrow>
          if c = CHR ''-'' then (if cs = [] then None else map_option (\<lambda>n. - int n) (digits_val 0 cs))
          else if c = CHR ''+'' then (if cs = [] then None else map_option int (digits_val 0 cs))
          else map_option int (digits_val 0 s))"

text \<open>
  \<^verbatim>\<open>castNumber\<close>: the empty string becomes \<^verbatim>\<open>null\<close>, strings and booleans go
  through \<^verbatim>\<open>Number(..)\<close>, arrays and objects are a \<^verbatim>\<open>CastError\<close>.
\<close>

fun cast_number :: "jsval \<Rightarrow> db_error + int option" where
  "cast_number JUndef = Inr None"
| "cast_number JNull = Inr None"
| "cast_number (JNum n) = Inr (Some n)"
| "cast_number (JBool b) = Inr (Some (if b then 1 else 0))"
| "cast_number (JStr s) =
     (if s = [] then Inr None
      else case js_number_of_string s of Some n \<Rightarrow> Inr (Some n) | None \<Rightarrow> Inl CastError)"
| "cast_number (JArr _) = Inl CastError"
| "cast_number (JObj _) = Inl CastError"

text \<open>
  A \<^verbatim>\<open>{ type: String, required: true }\<close> path: the cast, then the
  \<^verbatim>\<open>required\<close> validator, which refuses an unset value and the empty string.
\<close>

definition cast_required :: "jsval \<Rightarrow> db_error + string" where
  "cast_required v =
     (case cast_string v of
        Inl e \<Rightarrow> Inl e
      | Inr None \<Rightarrow> Inl ValidationError
      | Inr (Some s) \<Rightarrow> if s = [] then Inl ValidationError else Inr s)"

text \<open>\<^verbatim>\<open>{ type: String, default: d }\<close>: the default replaces \<^verbatim>\<open>undefined\<close> only.\<close>

definition cast_default :: "string \<Rightarrow> jsval \<Rightarrow> db_error + string option" where
  "cast_default d v = (if v = JUndef then Inr (Some d) else cast_string v)"

text \<open>\<^verbatim>\<open>castBoolean\<close>, the cast of the operand of \<^verbatim>\<open>$exists\<close>.\<close>

fun cast_boolean :: "jsval \<Rightarrow> db_error + bool" where
  "cast_boolean (JBool b) = Inr b"
| "cast_boolean (JNum n) =
     (if n = 1 then Inr True else if n = 0 then Inr False else Inl CastError)"
| "cast_boolean (JStr s) =
     (if s \<in> {''true'', ''1'', ''yes''} then Inr True
      else if s \<in> {''false'', ''0'', ''no''} then Inr False else Inl CastError)"
| "cast_boolean _ = Inl CastError"

section \<open>Queries on a string path\<close>

text \<open>
  A filter value for a \<^verbatim>\<open>String\<close> path after Mongoose's query cast.  An array
  value is rewritten to \<^verbatim>\<open>$in\<close>; an object whose keys start with \<^verbatim>\<open>$\<close> is a
  conjunction of operators; anything else is an equality.  \<open>None\<close> stands for
  \<^verbatim>\<open>null\<close>.
\<close>

datatype sop =
    OpEq "string option" | OpNe "string option"
  | OpGt "string option" | OpGte "string option" | OpLt "string option" | OpLte "string option"
  | OpIn "string option list" | OpNin "string option list" | OpExists bool

datatype squery = SEq "string option" | SIn "string option list" | SOps "sop list"

text \<open>
  MongoDB's matching of a present string field \<open>x\<close>: \<^verbatim>\<open>null\<close> equals only a
  missing or null field, comparisons are within the string type, in binary order.
\<close>

fun sop_match :: "sop \<Rightarrow> string \<Rightarrow> bool" where
  "sop_match (OpEq v) x = (v = Some x)"
| "sop_match (OpNe v) x = (v \<noteq> Some x)"
| "sop_match (OpGt v) x = (case v of Some s \<Rightarrow> s < x | None \<Rightarrow> False)"
| "sop_match (OpGte v) x = (case v of Some s \<Rightarrow> s \<le> x | None \<Rightarrow> False)"
| "sop_match (OpLt v) x = (case v of Some s \<Rightarrow> x < s | None \<Rightarrow> False)"
| "sop_match (OpLte v) x = (case v of Some s \<Rightarrow> x \<le> s | None \<Rightarrow> False)"
| "sop_match (OpIn vs) x = (Some x \<in> set vs)"
| "sop_match (OpNin vs) x = (Some x \<notin> set vs)"
| "sop_match (OpExists b) x = b"

fun squery_match :: "squery \<Rightarrow> string \<Rightarrow> bool" where
  "squery_match (SEq v) x = (v = Some x)"
| "squery_match (SIn vs) x = (Some x \<in> set vs)"
| "squery_match (SOps ops) x = list_all (\<lambda>op. sop_match op x) ops"

text \<open>Casting a list of operands, the first error aborting the cast.\<close>

fun cast_all :: "(jsval \<Rightarrow> db_error + 'a) \<Rightarrow> jsval list \<Rightarrow> db_error + 'a list" where
  "cast_all f [] = Inr []"
| "cast_all f (v # vs) =
     (case f v of Inl e \<Rightarrow> Inl e
      | Inr x \<Rightarrow> (case cast_all f vs of Inl e \<Rightarrow> Inl e | Inr xs \<Rightarrow> Inr (x # xs)))"

definition cast_array_operand :: "jsval \<Rightarrow> db_error + string option list" where
  "cast_array_operand v = cast_all cast_string (case v of JArr vs \<Rightarrow> vs | _ \<Rightarrow> [v])"

text \<open>
  One \<^verbatim>\<open>$\<close>-operator of the object: the operators this model covers, each with
  the operand cast of its Mongoose handler; a key without a handler is refused
  with \<^verbatim>\<open>Can't use $op with String\<close>, which the handler reports as a
  failure.  The remaining operators Mongoose accepts on a string path
  (\<^verbatim>\<open>$regex\<close>, \<^verbatim>\<open>$options\<close>, \<^verbatim>\<open>$not\<close>, \<^verbatim>\<open>$all\<close>,
  \<^verbatim>\<open>$type\<close>, ...) are outside the model, which refuses them too.
\<close>

definition cast_sop :: "string \<Rightarrow> jsval \<Rightarrow> db_error + sop" where
  "cast_sop k v =
     (if k = ''$in'' then map_sum id OpIn (cast_array_operand v)
      else if k = ''$nin'' then map_sum id OpNin (cast_array_operand v)
      else if k = ''$exists'' then map_sum id OpExists (cast_boolean v)
      else if k = ''$eq'' then map_sum id OpEq (cast_string v)
      else if k = ''$ne'' then map_sum id OpNe (cast_string v)
      else if k = ''$gt'' then map_sum id OpGt (cast_string v)
      else if k = ''$gte'' then map_sum id OpGte (cast_string v)
      else if k = ''$lt'' then map_sum id OpLt (cast_string v)
      else if k = ''$lte'' then map_sum id OpLte (cast_string v)
      else Inl CastError)"

definition has_dollar_keys :: "(string \<times> jsval) list \<Rightarrow> bool" where
  "has_dollar_keys kvs \<longleftrightarrow> (\<exists>k \<in> set (map fst kvs). take 1 k = ''$'')"

fun cast_squery :: "jsval \<Rightarrow> db_error + squery" where
  "cast_squery (JArr vs) = map_sum id SIn (cast_all cast_string vs)"
| "cast_squery (JObj kvs) =
     (if has_dollar_keys kvs
      then map_sum id SOps
             (cast_all (\<lambda>k. case k of JStr k' \<Rightarrow> cast_sop k' (get_prop (JObj kvs) k') | _ \<Rightarrow> Inl CastError)
                (map JStr (remdups (map fst kvs))))
      else map_sum id SEq (cast_string (JObj kvs)))"
| "cast_squery v = map_sum id SEq (cast_string v)"

section \<open>Collection operations\<close>

text \<open>
  \<^verbatim>\<open>findOne(filter)\<close> and \<^verbatim>\<open>findById(id)\<close>: the first match in natural order.
  \<^verbatim>\<open>findOneAndDelete(filter)\<close>, \<^verbatim>\<open>findByIdAndDelete(id)\<close>: that document,
  removed.
\<close>

definition find_one :: "('d \<Rightarrow> bool) \<Rightarrow> 'd list \<Rightarrow> 'd option" where
  "find_one p ds = find p ds"

fun find_one_and_delete :: "('d \<Rightarrow> bool) \<Rightarrow> 'd list \<Rightarrow> 'd option \<times> 'd list" where
  "find_one_and_delete p [] = (None, [])"
| "find_one_and_delete p (d # ds) =
     (if p d then (Some d, ds)
      else let (r, ds') = find_one_and_delete p ds in (r, d # ds'))"

text \<open>
  \<^verbatim>\<open>save()\<close> of a new document into a collection with unique indexes: the
  insert is refused with \<^verbatim>\<open>E11000\<close> when an indexed key of the document is
  already taken (\<open>clash d' d\<close>).
\<close>

definition insert_unique :: "('d \<Rightarrow> 'd \<Rightarrow> bool) \<Rightarrow> 'd \<Rightarrow> 'd list \<Rightarrow> db_error + 'd list" where
  "insert_unique clash d ds = (if list_ex (\<lambda>d'. clash d' d) ds then Inl DuplicateKey else Inr (ds @ [d]))"

text \<open>
  \<^verbatim>\<open>find().sort({ key: -1 })\<close>: descending by the key.  MongoDB does not fix the
  order of equal keys; the model keeps natural order among them, and the
  specification \<open>sorted_desc_by\<close> below admits any order of equal keys.
\<close>

definition sort_desc :: "('d \<Rightarrow> int) \<Rightarrow> 'd list \<Rightarrow> 'd list" where
  "sort_desc key ds = sort_key (\<lambda>d. - key d) ds"

definition sorted_desc_by :: "('d \<Rightarrow> int) \<Rightarrow> 'd list \<Rightarrow> bool" where
  "sorted_desc_by key ds \<longleftrightarrow> sorted_wrt (\<lambda>a b. key b \<le> key a) ds"

section \<open>ObjectId strings\<close>

text \<open>
  A route parameter is cast to an ObjectId when it is 24 hexadecimal digits
  (either case); any other string is a \<^verbatim>\<open>CastError\<close>.  \<open>oid_hex\<close> is
  \<^verbatim>\<open>ObjectId.toHexString()\<close>.
\<close>

definition hex_digit :: "char \<Rightarrow> nat option" where
  "hex_digit c =
     (let n = of_char c :: nat in
      if 48 \<le> n \<and> n \<le> 57 then Some (n - 48)
      else if 97 \<le> n \<and> n \<le> 102 then Some (n - 87)
      else if 65 \<le> n \<and> n \<le> 70 then Some (n - 55)
      else None)"

definition hex_char :: "nat \<Rightarrow> char" where
  "hex_char d = char_of (if d < 10 then 48 + d else 87 + d)"

fun hex_acc :: "nat \<Rightarrow> string \<Rightarrow> nat option" where
  "hex_acc acc [] = Some acc"
| "hex_acc acc (c # cs) = (case hex_digit c of None \<Rightarrow> None | Some d \<Rightarrow> hex_acc (16 * acc + d) cs)"

definition cast_oid :: "string \<Rightarrow> oid option" where
  "cast_oid s = (if length s = 24 then hex_acc 0 s else None)"

fun hex_digits :: "nat \<Rightarrow> nat \<Rightarrow> string" where
  "hex_digits 0 n = []"
| "hex_digits (Suc k) n = hex_digits k (n div 16) @ [hex_char (n mod 16)]"

definition oid_hex :: "oid \<Rightarrow> string" where
  "oid_hex n = hex_digits 24 n"

subsection \<open>Outcome of a database call\<close>

text \<open>
  An awaited Mongoose call resolves, or rejects into the handler's
  \<^verbatim>\<open>catch\<close>: the connection is down, or the call was buffered until
  \<^verbatim>\<open>bufferTimeoutMS\<close> while the connection was being made (theory
  \<open>Startup\<close>).  A rejected call has not reached the collection.
\<close>

datatype db_outcome = DbOk | DbRejects

section \<open>Lemmas\<close>

subsection \<open>Casts\<close>

text \<open>
  A value that passes a handler's truthiness guard and casts to a string casts
  to a non-empty one: the \<^verbatim>\<open>required\<close> validators of the schemas cannot fail
  on it.
\<close>

lemma cast_string_truthy:
  "truthy v \<Longrightarrow> cast_string v \<noteq> Inr None \<and> cast_string v \<noteq> Inr (Some [])"
proof (cases v)
  case (JObj kvs)
  then show ?thesis
    by (cases "get_prop (JObj kvs) ''_id''") (auto simp del: get_prop.simps)
qed auto

lemma cast_string_Inl: "cast_string v = Inl e \<Longrightarrow> e = CastError"
  by (cases v) (auto split: jsval.splits if_splits)

lemma cast_required_Inr: "cast_required v = Inr s \<Longrightarrow> cast_string v = Inr (Some s) \<and> s \<noteq> []"
  by (auto simp: cast_required_def split: sum.splits option.splits if_splits)

text \<open>
  After the guard of line 172 the \<^verbatim>\<open>required\<close> validators cannot fail: a
  truthy value that casts at all casts to a non-empty string.
\<close>

lemma cast_required_truthy: "truthy v \<Longrightarrow> cast_required v = Inl e \<Longrightarrow> e = CastError"
  using cast_string_truthy[of v]
  by (auto simp: cast_required_def dest: cast_string_Inl split: sum.splits option.splits if_splits)

lemma cast_all_Inr: "cast_all f vs = Inr xs \<Longrightarrow> v \<in> set vs \<Longrightarrow> \<exists>x. f v = Inr x"
  by (induction vs arbitrary: xs) (auto split: sum.splits)

lemma get_prop_key: "get_prop (JObj kvs) k \<noteq> JUndef \<Longrightarrow> k \<in> set (map fst kvs)"
  by (force split: option.splits dest!: map_of_SomeD)

text \<open>
  The filter that \<^verbatim>\<open>findOne({ slug })\<close> builds from a body value and the string
  that \<^verbatim>\<open>save()\<close> stores for it agree: when both casts succeed, the filter
  matches exactly the stored string.  (An array casts to \<^verbatim>\<open>$in\<close> but fails
  to save; an operator object fails to save unless it has an \<^verbatim>\<open>_id\<close>, which
  the query cast refuses.)
\<close>

lemma cast_squery_operators:
  assumes "has_dollar_keys kvs" and "cast_squery (JObj kvs) = Inr q"
  shows "cast_string (JObj kvs) = Inl CastError"
proof (rule ccontr)
  assume "cast_string (JObj kvs) \<noteq> Inl CastError"
  then obtain r where "cast_string (JObj kvs) = Inr r"
    by (metis cast_string_Inl sum.exhaust)
  then obtain s' where "get_prop (JObj kvs) ''_id'' = JStr s'"
    by (auto simp del: get_prop.simps split: jsval.splits if_splits)
  then have "''_id'' \<in> set (map fst kvs)"
    using get_prop_key by fastforce
  then have mem: "JStr ''_id'' \<in> set (map JStr (remdups (map fst kvs)))"
    by simp
  let ?g = "\<lambda>k. case k of JStr k' \<Rightarrow> cast_sop k' (get_prop (JObj kvs) k') | _ \<Rightarrow> Inl CastError"
  from assms have "map_sum id SOps (cast_all ?g (map JStr (remdups (map fst kvs)))) = Inr q"
    by (simp only: cast_squery.simps if_True)
  then obtain ops where "cast_all ?g (map JStr (remdups (map fst kvs))) = Inr ops"
    by (cases "cast_all ?g (map JStr (remdups (map fst kvs)))") auto
  from cast_all_Inr[OF this mem] have "\<exists>x. cast_sop ''_id'' (get_prop (JObj kvs) ''_id'') = Inr x"
    by simp
  then show False by (simp add: cast_sop_def)
qed

lemma cast_squery_agrees:
  assumes q: "cast_squery v = Inr q" and s: "cast_string v = Inr (Some s)"
  shows "squery_match q x \<longleftrightarrow> x = s"
proof (cases v)
  case (JObj kvs)
  show ?thesis
  proof (cases "has_dollar_keys kvs")
    case True
    with q s JObj show ?thesis using cast_squery_operators by simp
  next
    case False
    with q s JObj show ?thesis by auto
  qed
qed (use q s in auto)

lemma cast_squery_string [simp]: "cast_squery (JStr s) = Inr (SEq (Some s))"
  by simp

lemma squery_match_eq [simp]: "squery_match (SEq (Some s)) x \<longleftrightarrow> x = s"
  by auto

subsection \<open>Collections\<close>

lemma find_one_Some: "find_one p ds = Some d \<Longrightarrow> d \<in> set ds \<and> p d"
  by (auto simp: find_one_def find_Some_iff)

lemma find_one_None: "find_one p ds = None \<longleftrightarrow> (\<forall>d \<in> set ds. \<not> p d)"
  by (auto simp: find_one_def find_None_iff)

lemma find_one_and_delete_eq:
  "find_one_and_delete p ds =
     (case find p ds of None \<Rightarrow> (None, ds) | Some d \<Rightarrow> (Some d, remove1 d ds))"
  by (induction ds) (auto split: option.splits dest: find_Some_iff[THEN iffD1])

lemma snd_find_one_and_delete:
  "snd (find_one_and_delete p ds) = (case find p ds of None \<Rightarrow> ds | Some d \<Rightarrow> remove1 d ds)"
  by (simp add: find_one_and_delete_eq split: option.splits)

text \<open>Under a unique key, the first match of the key is the only one.\<close>

lemma find_one_unique_key:
  assumes "distinct (map f ds)"
  shows "find_one (\<lambda>d. f d = k) ds = Some d \<longleftrightarrow> d \<in> set ds \<and> f d = k"
proof
  assume "find_one (\<lambda>d. f d = k) ds = Some d"
  then show "d \<in> set ds \<and> f d = k" by (rule find_one_Some)
next
  assume d: "d \<in> set ds \<and> f d = k"
  then obtain d' where d': "find_one (\<lambda>d. f d = k) ds = Some d'"
    using find_one_None[of "\<lambda>d. f d = k" ds] by (cases "find_one (\<lambda>d. f d = k) ds") auto
  then have "d' \<in> set ds \<and> f d' = k" by (rule find_one_Some)
  with d assms have "d' = d" by (auto dest: inj_onD[OF distinct_map[THEN iffD1, THEN conjunct2]])
  with d' show "find_one (\<lambda>d. f d = k) ds = Some d" by simp
qed

lemma remove1_unique_key:
  "distinct (map f ds) \<Longrightarrow> d \<in> set ds \<Longrightarrow> remove1 d ds = filter (\<lambda>d'. f d' \<noteq> f d) ds"
proof (induction ds)
  case (Cons x ds)
  show ?case
  proof (cases "x = d")
    case True
    with Cons.prems have "\<forall>y \<in> set ds. f y \<noteq> f d" by (auto simp: image_iff)
    with True show ?thesis by (simp add: filter_id_conv)
  next
    case False
    with Cons show ?thesis by auto
  qed
qed simp

lemma insert_unique_Inr:
  "insert_unique clash d ds = Inr ds' \<longleftrightarrow> ds' = ds @ [d] \<and> (\<forall>d' \<in> set ds. \<not> clash d' d)"
  by (auto simp: insert_unique_def list_ex_iff)

lemma insert_unique_Inl:
  "insert_unique clash d ds = Inl e \<longleftrightarrow> e = DuplicateKey \<and> (\<exists>d' \<in> set ds. clash d' d)"
  by (auto simp: insert_unique_def list_ex_iff)

subsection \<open>Sorting\<close>

lemma sort_desc_sorted_mset:
  "sorted_desc_by key (sort_desc key ds) \<and> mset (sort_desc key ds) = mset ds"
proof -
  have "sorted (map (\<lambda>d. - key d) (sort_key (\<lambda>d. - key d) ds))"
    by (rule sorted_sort_key)
  then show ?thesis
    by (simp add: sort_desc_def sorted_desc_by_def sorted_map)
qed

lemma set_sort_desc [simp]: "set (sort_desc key ds) = set ds"
  by (simp add: sort_desc_def)

lemma sort_desc_stable:
  "filter (\<lambda>d. key d = k) (sort_desc key ds) = filter (\<lambda>d. key d = k) ds"
proof -
  have "filter (\<lambda>d. - key d = - k) (sort_key (\<lambda>d. - key d) ds) = filter (\<lambda>d. - key d = - k) ds"
    by (rule sort_key_stable)
  then show ?thesis by (simp add: sort_desc_def)
qed

subsection \<open>ObjectId strings\<close>

lemma hex_digit_hex_char: "d < 16 \<Longrightarrow> hex_digit (hex_char d) = Some d"
  by (auto simp: hex_digit_def hex_char_def Let_def)

lemma hex_acc_append:
  "hex_acc a (xs @ ys) = (case hex_acc a xs of None \<Rightarrow> None | Some b \<Rightarrow> hex_acc b ys)"
  by (induction xs arbitrary: a) (auto split: option.splits)

lemma hex_acc_hex_digits: "hex_acc a (hex_digits k n) = Some (a * 16 ^ k + n mod 16 ^ k)"
proof (induction k arbitrary: a n)
  case 0
  then show ?case by simp
next
  case (Suc k)
  have "n mod 16 ^ Suc k = 16 * (n div 16 mod 16 ^ k) + n mod 16"
    by (simp add: mod_mult2_eq)
  then show ?case
    by (simp add: hex_acc_append Suc.IH hex_digit_hex_char algebra_simps)
qed

lemma length_hex_digits [simp]: "length (hex_digits k n) = k"
  by (induction k arbitrary: n) auto

subsection \<open>ObjectId strings\<close>

text \<open>
  The id a reply prints (its 24 lowercase hexadecimal digits) casts back to
  the same ObjectId: a client can delete a record by the id it was answered
  with.
\<close>

theorem cast_oid_oid_hex:
  assumes "n < 16 ^ 24"
  shows "cast_oid (oid_hex n) = Some n"
  using assms by (simp add: cast_oid_def oid_hex_def hex_acc_hex_digits del: power_numeral)

end
