(* ===== verification/Blog.thy ===== *)
theory Blog
  imports Mongo
begin

text \<open>
  The Blog Manager of \<^verbatim>\<open>src/server.js\<close>: the \<^verbatim>\<open>blogSchema\<close> document (lines
  33--53) and the five blog routes (lines 121--219).  The collection is the list
  of stored posts in natural order; a handler takes it (and, for creation, the
  request's environment and the fresh ObjectId of \<^verbatim>\<open>new Blog(..)\<close>) and returns
  the response with the collection afterwards.
\<close>

section \<open>The schema\<close>

text \<open>
  A stored post.  \<open>None\<close> in an optional field is an unset or \<^verbatim>\<open>null\<close> value;
  \<^verbatim>\<open>tags\<close> is an array of strings whose elements may be \<^verbatim>\<open>null\<close>;
  \<^verbatim>\<open>createdAt\<close> and \<^verbatim>\<open>updatedAt\<close> come from \<^verbatim>\<open>{ timestamps: true }\<close>.
\<close>

record blog =
  blog_id :: oid
  title :: string
  excerpt :: string
  featuredImage :: "string option"
  publishDate :: time
  slug :: string
  category :: string
  author :: "string option"
  readTime :: "int option"
  tags :: "string option list option"
  content :: string
  createdAt :: time
  updatedAt :: time

text \<open>The destructured body of \<^verbatim>\<open>POST /api/blogs\<close> (lines 159--170).\<close>

record blog_body =
  in_title :: jsval
  in_excerpt :: jsval
  in_featuredImage :: jsval
  in_category :: jsval
  in_content :: jsval
  in_slug :: jsval
  in_author :: jsval
  in_readTime :: jsval
  in_tags :: jsval
  in_publishDate :: jsval

definition blog_body_of :: "jsval \<Rightarrow> blog_body" where
  "blog_body_of v =
     \<lparr>in_title = get_prop v ''title'', in_excerpt = get_prop v ''excerpt'',
      in_featuredImage = get_prop v ''featuredImage'', in_category = get_prop v ''category'',
      in_content = get_prop v ''content'', in_slug = get_prop v ''slug'',
      in_author = get_prop v ''author'', in_readTime = get_prop v ''readTime'',
      in_tags = get_prop v ''tags'', in_publishDate = get_prop v ''publishDate''\<rparr>"

subsection \<open>Casting a path of the schema\<close>

text \<open>
  \<^verbatim>\<open>[String]\<close>: an unset array defaults to \<^verbatim>\<open>[]\<close>, \<^verbatim>\<open>null\<close> stays
  \<^verbatim>\<open>null\<close>, an array casts each element, any other value is wrapped in a
  one-element array first.
\<close>

definition cast_string_array :: "jsval \<Rightarrow> db_error + string option list option" where
  "cast_string_array v =
     (case v of
        JUndef \<Rightarrow> Inr (Some [])
      | JNull \<Rightarrow> Inr None
      | JArr vs \<Rightarrow> map_sum id Some (cast_all cast_string vs)
      | _ \<Rightarrow> map_sum id (\<lambda>x. Some [x]) (cast_string v))"

text \<open>
  \<^verbatim>\<open>new Blog({...})\<close> followed by the validation of \<^verbatim>\<open>save()\<close>: every path
  of the schema in its order, the \<^verbatim>\<open>Date\<close> path refusing an Invalid Date
  (\<open>None\<close>), and the timestamps set to the request's time.
\<close>

definition new_blog :: "oid \<Rightarrow> time \<Rightarrow> time option \<Rightarrow> blog_body \<Rightarrow> db_error + blog" where
  "new_blog i t pd bb =
     sbind (cast_required (in_title bb)) (\<lambda>ti.
     sbind (cast_required (in_excerpt bb)) (\<lambda>ex.
     sbind (cast_string (in_featuredImage bb)) (\<lambda>fi.
     sbind (case pd of None \<Rightarrow> Inl CastError | Some d \<Rightarrow> Inr d) (\<lambda>pdv.
     sbind (cast_required (in_slug bb)) (\<lambda>sl.
     sbind (cast_required (in_category bb)) (\<lambda>ca.
     sbind (cast_default ''Admin'' (in_author bb)) (\<lambda>au.
     sbind (cast_number (in_readTime bb)) (\<lambda>rt.
     sbind (cast_string_array (in_tags bb)) (\<lambda>tg.
     sbind (cast_required (in_content bb)) (\<lambda>co.
     Inr \<lparr>blog_id = i, title = ti, excerpt = ex, featuredImage = fi, publishDate = pdv,
          slug = sl, category = ca, author = au, readTime = rt, tags = tg, content = co,
          createdAt = t, updatedAt = t\<rparr>))))))))))"

text \<open>The unique indexes of the collection: \<^verbatim>\<open>_id\<close> and \<^verbatim>\<open>slug\<close> (line 45).\<close>

definition blog_clash :: "blog \<Rightarrow> blog \<Rightarrow> bool" where
  "blog_clash b' b \<longleftrightarrow> blog_id b' = blog_id b \<or> slug b' = slug b"

section \<open>The routes\<close>

text \<open>\<^verbatim>\<open>GET /api/blogs\<close> (lines 122--129).\<close>

definition get_blogs :: "blog list \<Rightarrow> blog list response" where
  "get_blogs bs = Json 200 (sort_desc publishDate bs)"

text \<open>\<^verbatim>\<open>GET /api/blogs/:slug\<close> (lines 132--142); the parameter is a string.\<close>

definition get_blog :: "string \<Rightarrow> blog list \<Rightarrow> blog response" where
  "get_blog p bs =
     (case find_one (\<lambda>b. slug b = p) bs of
        None \<Rightarrow> Message 404 ''Blog not found''
      | Some b \<Rightarrow> Json 200 b)"

text \<open>
  \<^verbatim>\<open>GET /api/admin/blogs\<close> (lines 145--154): the projection
  \<^verbatim>\<open>{ title: 1, slug: 1 }\<close>, which keeps \<^verbatim>\<open>_id\<close>, newest first by
  \<^verbatim>\<open>createdAt\<close>.
\<close>

record blog_summary =
  sum_id :: oid
  sum_title :: string
  sum_slug :: string

definition summary_of :: "blog \<Rightarrow> blog_summary" where
  "summary_of b = \<lparr>sum_id = blog_id b, sum_title = title b, sum_slug = slug b\<rparr>"

definition admin_blogs :: "blog list \<Rightarrow> blog_summary list response" where
  "admin_blogs bs = Json 200 (map summary_of (sort_desc createdAt bs))"

text \<open>
  \<^verbatim>\<open>POST /api/blogs\<close> (lines 157--202).  Destructuring a \<^verbatim>\<open>null\<close> or
  missing body throws, and the \<^verbatim>\<open>catch\<close> answers 500; the guard on the five
  required fields answers 400; \<^verbatim>\<open>Blog.findOne({ slug })\<close> casts the body's
  slug as a filter (a failing cast rejects: 500) and a match answers 409;
  \<^verbatim>\<open>publishDate\<close> is \<^verbatim>\<open>new Date(publishDate)\<close> when truthy and the current
  time otherwise; a failing cast or validation, or a unique-index violation, in
  \<^verbatim>\<open>save()\<close> rejects: 500.
\<close>

text \<open>The guard of line 172.\<close>

definition blog_guard :: "blog_body \<Rightarrow> bool" where
  "blog_guard bb \<longleftrightarrow>
     truthy (in_title bb) \<and> truthy (in_excerpt bb) \<and> truthy (in_category bb)
     \<and> truthy (in_content bb) \<and> truthy (in_slug bb)"

text \<open>\<^verbatim>\<open>publishDate ? new Date(publishDate) : new Date()\<close> (lines 191--193).\<close>

definition publish_date :: "env \<Rightarrow> blog_body \<Rightarrow> time option" where
  "publish_date en bb =
     (if truthy (in_publishDate bb) then js_new_date (date_parse en) (in_publishDate bb)
      else Some (now en))"

definition create_blog :: "env \<Rightarrow> oid \<Rightarrow> jsval \<Rightarrow> blog list \<Rightarrow> blog response \<times> blog list" where
  "create_blog en i body bs =
     (if \<not> object_coercible body then (Message 500 ''Failed to create blog'', bs)
      else
        let bb = blog_body_of body in
        if \<not> blog_guard bb then (Message 400 ''Missing required fields'', bs)
        else
          case cast_squery (in_slug bb) of
            Inl _ \<Rightarrow> (Message 500 ''Failed to create blog'', bs)
          | Inr q \<Rightarrow>
              (case find_one (\<lambda>b. squery_match q (slug b)) bs of
                 Some _ \<Rightarrow> (Message 409 ''Slug already exists'', bs)
               | None \<Rightarrow>
                   case new_blog i (now en) (publish_date en bb) bb of
                        Inl _ \<Rightarrow> (Message 500 ''Failed to create blog'', bs)
                      | Inr b \<Rightarrow>
                          (case insert_unique blog_clash b bs of
                             Inl _ \<Rightarrow> (Message 500 ''Failed to create blog'', bs)
                           | Inr bs' \<Rightarrow> (Json 201 b, bs'))))"

text \<open>\<^verbatim>\<open>DELETE /api/blogs/slug/:slug\<close> (lines 205--219).\<close>

definition delete_blog :: "string \<Rightarrow> blog list \<Rightarrow> blog response \<times> blog list" where
  "delete_blog p bs =
     (case find_one_and_delete (\<lambda>b. slug b = p) bs of
        (None, bs') \<Rightarrow> (Message 404 ''Blog not found'', bs')
      | (Some _, bs') \<Rightarrow> (Message 200 ''Blog deleted successfully'', bs'))"

section \<open>The invariant of the collection\<close>

text \<open>
  The schema's \<^verbatim>\<open>required\<close> strings are non-empty, slugs and ids are unique
  (the two indexes), and every id is below the next ObjectId to be issued.
\<close>

definition blog_valid :: "blog \<Rightarrow> bool" where
  "blog_valid b \<longleftrightarrow> title b \<noteq> [] \<and> excerpt b \<noteq> [] \<and> slug b \<noteq> [] \<and> category b \<noteq> [] \<and> content b \<noteq> []"

definition blogs_inv :: "oid \<Rightarrow> blog list \<Rightarrow> bool" where
  "blogs_inv nxt bs \<longleftrightarrow>
     distinct (map slug bs) \<and> distinct (map blog_id bs) \<and>
     (\<forall>b \<in> set bs. blog_valid b \<and> blog_id b < nxt)"

section \<open>Examples\<close>

text \<open>The request of the specification's example, and the post it stores.\<close>

abbreviation ex_body :: jsval where
  "ex_body \<equiv> JObj [(''title'', JStr ''A''), (''excerpt'', JStr ''B''), (''category'', JStr ''C''),
                   (''content'', JStr ''D''), (''slug'', JStr ''a-post'')]"

abbreviation ex_post :: blog where
  "ex_post \<equiv> \<lparr>blog_id = 0, title = ''A'', excerpt = ''B'', featuredImage = None,
     publishDate = 1700000000000, slug = ''a-post'', category = ''C'', author = Some ''Admin'',
     readTime = None, tags = Some [], content = ''D'', createdAt = 1700000000000,
     updatedAt = 1700000000000\<rparr>"

section \<open>Lemmas\<close>

lemma blog_body_of_sel [simp]:
  "in_title (blog_body_of v) = get_prop v ''title''"
  "in_excerpt (blog_body_of v) = get_prop v ''excerpt''"
  "in_featuredImage (blog_body_of v) = get_prop v ''featuredImage''"
  "in_category (blog_body_of v) = get_prop v ''category''"
  "in_content (blog_body_of v) = get_prop v ''content''"
  "in_slug (blog_body_of v) = get_prop v ''slug''"
  "in_author (blog_body_of v) = get_prop v ''author''"
  "in_readTime (blog_body_of v) = get_prop v ''readTime''"
  "in_tags (blog_body_of v) = get_prop v ''tags''"
  "in_publishDate (blog_body_of v) = get_prop v ''publishDate''"
  by (simp_all add: blog_body_of_def)

lemmas blog_eval_simps = create_blog_def new_blog_def cast_required_def cast_default_def
  cast_string_array_def publish_date_def blog_guard_def object_coercible_def insert_unique_def
  find_one_def blog_clash_def Let_def

declare get_blogs_def [handler_defs] get_blog_def [handler_defs] admin_blogs_def [handler_defs]
  create_blog_def [handler_defs] delete_blog_def [handler_defs]

subsection \<open>The casts of a post\<close>

lemma new_blog_Inr:
  assumes "new_blog i t pd bb = Inr b"
  shows "blog_id b = i \<and> createdAt b = t \<and> updatedAt b = t \<and> pd = Some (publishDate b) \<and>
         cast_required (in_slug bb) = Inr (slug b) \<and> blog_valid b"
  using assms
  by (auto simp: new_blog_def sbind_eq_Inr blog_valid_def cast_required_def
           split: option.splits sum.splits if_splits)

subsection \<open>The branches of the handlers\<close>

lemma create_blog_Message:
  "create_blog en i body bs = (Message c m, bs') \<Longrightarrow> bs' = bs \<and> c \<in> {400, 409, 500}"
  by (auto simp: create_blog_def Let_def split: if_splits sum.splits option.splits)

lemma create_blog_Json:
  assumes "create_blog en i body bs = (Json c b, bs')"
  shows "c = 201 \<and> bs' = bs @ [b] \<and> (\<forall>b' \<in> set bs. \<not> blog_clash b' b) \<and>
         object_coercible body \<and> blog_guard (blog_body_of body) \<and>
         (\<exists>q. cast_squery (in_slug (blog_body_of body)) = Inr q) \<and>
         new_blog i (now en) (publish_date en (blog_body_of body)) (blog_body_of body) = Inr b"
  using assms
  by (auto simp: create_blog_def Let_def insert_unique_Inr split: if_splits sum.splits option.splits)

lemma blogs_inv_mono: "blogs_inv n bs \<Longrightarrow> n \<le> m \<Longrightarrow> blogs_inv m bs"
  by (fastforce simp: blogs_inv_def)

text \<open>
  The success branch: when the body casts and validates and no stored slug
  matches the filter built from it, the post is stored.  The unique index on
  \<^verbatim>\<open>slug\<close> never refuses it here, since the filter and the stored slug agree
  (\<open>cast_squery_agrees\<close>).
\<close>

lemma create_blog_stores:
  assumes inv: "blogs_inv i bs" and oc: "object_coercible body" and g: "blog_guard (blog_body_of body)"
    and q: "cast_squery (get_prop body ''slug'') = Inr q"
    and none: "\<forall>b \<in> set bs. \<not> squery_match q (slug b)"
    and nb: "new_blog i (now en) (publish_date en (blog_body_of body)) (blog_body_of body) = Inr b"
  shows "create_blog en i body bs = (Json 201 b, bs @ [b])"
proof -
  from nb have id: "blog_id b = i" and sl: "cast_required (get_prop body ''slug'') = Inr (slug b)"
    using new_blog_Inr by fastforce+
  from sl have "cast_string (get_prop body ''slug'') = Inr (Some (slug b))"
    by (simp add: cast_required_Inr)
  with q have m: "\<And>x. squery_match q x \<longleftrightarrow> x = slug b"
    by (rule cast_squery_agrees)
  from inv id none m have "\<forall>b' \<in> set bs. \<not> blog_clash b' b"
    by (auto simp: blogs_inv_def blog_clash_def)
  then have ins: "insert_unique blog_clash b bs = Inr (bs @ [b])"
    by (simp add: insert_unique_Inr)
  from none have "find_one (\<lambda>b. squery_match q (slug b)) bs = None"
    by (simp add: find_one_None)
  with oc g q nb ins show ?thesis
    by (simp add: create_blog_def Let_def)
qed

lemmas delete_blog_simps = delete_blog_def find_one_and_delete_eq

lemma create_blog_inv:
  assumes inv: "blogs_inv i bs" and cr: "create_blog en i body bs = (r, bs')"
  shows "blogs_inv (Suc i) bs'"
proof (cases r)
  case (Message c m)
  with cr have "bs' = bs" using create_blog_Message by blast
  with inv show ?thesis by (auto intro: blogs_inv_mono)
next
  case (Json c b)
  with cr have bs': "bs' = bs @ [b]" and nc: "\<forall>b' \<in> set bs. \<not> blog_clash b' b"
    and nb: "new_blog i (now en) (publish_date en (blog_body_of body)) (blog_body_of body) = Inr b"
    using create_blog_Json by blast+
  from nb have "blog_id b = i" and "blog_valid b" using new_blog_Inr by blast+
  with inv nc bs' show ?thesis by (auto simp: blogs_inv_def blog_clash_def)
qed

lemma delete_blog_inv:
  assumes "blogs_inv n bs"
  shows "blogs_inv n (snd (delete_blog p bs))"
proof (cases "find (\<lambda>b. slug b = p) bs")
  case None
  with assms show ?thesis by (simp add: delete_blog_simps)
next
  case (Some b)
  have "set (remove1 b bs) \<subseteq> set bs" by (rule set_remove1_subset)
  with assms Some show ?thesis
    by (auto simp: delete_blog_simps blogs_inv_def distinct_map_remove1)
qed

section \<open>Properties of the Blog Manager\<close>

text \<open>
  C2: Creating a post whose slug string is already taken answers 409 and leaves
  the collection unchanged.
\<close>

theorem create_blog_conflict:
  assumes "object_coercible body" and "blog_guard (blog_body_of body)"
    and "get_prop body ''slug'' = JStr s" and "s \<in> slug ` set bs"
  shows "create_blog en i body bs = (Message 409 ''Slug already exists'', bs)"
proof -
  from assms(4) have "find_one (\<lambda>b. squery_match (SEq (Some s)) (slug b)) bs \<noteq> None"
    by (auto simp: find_one_None)
  with assms(1-3) show ?thesis
    by (auto simp: create_blog_def Let_def simp del: squery_match.simps split: option.splits)
qed

theorem create_blog_conflict_witness:
  "create_blog ex_env 1 ex_body [ex_post] = (Message 409 ''Slug already exists'', [ex_post])"
  by (rule create_blog_conflict[where s = "''a-post''"])
     (simp_all add: object_coercible_def blog_guard_def)

text \<open>
  C3: Creating a post with any of title, excerpt, category, content or slug
  missing or falsy answers 400 and persists nothing.
\<close>

theorem create_blog_missing_field:
  assumes "object_coercible body" and "k \<in> {''title'', ''excerpt'', ''category'', ''content'', ''slug''}"
    and "\<not> truthy (get_prop body k)"
  shows "create_blog en i body bs = (Message 400 ''Missing required fields'', bs)"
  using assms by (auto simp: create_blog_def blog_guard_def)

theorem create_blog_missing_field_witness:
  "create_blog ex_env 0 (JObj [(''title'', JStr ''A'')]) [] = (Message 400 ''Missing required fields'', [])"
  by (rule create_blog_missing_field[where k = "''slug''"]) (simp_all add: object_coercible_def)

text \<open>
  C16: Listing posts returns every stored post exactly once, ordered by
  publishDate descending (any order among equal dates satisfies the
  specification; the model keeps natural order).
\<close>

theorem get_blogs_sorted:
  "\<exists>ys. get_blogs bs = Json 200 ys \<and> sorted_desc_by publishDate ys \<and> mset ys = mset bs"
  using sort_desc_sorted_mset by (simp add: get_blogs_def)

text \<open>
  C12: Every answer of the creation handler either is an error (400, 409 or 500)
  with the collection unchanged, or is 201 with exactly the returned post
  appended.
\<close>

theorem create_blog_effect:
  assumes "create_blog en i body bs = (r, bs')"
  shows "(\<exists>c m. r = Message c m \<and> c \<in> {400, 409, 500} \<and> bs' = bs) \<or> (\<exists>b. r = Json 201 b \<and> bs' = bs @ [b])"
proof (cases r)
  case (Message c m)
  with assms show ?thesis using create_blog_Message by blast
next
  case (Json c b)
  with assms show ?thesis using create_blog_Json by blast
qed

theorem create_blog_effect_witness:
  "create_blog ex_env 0 ex_body [] = (Json 201 ex_post, [ex_post])
   \<and> ((\<exists>c m. Json 201 ex_post = (Message c m :: blog response) \<and> c \<in> {400, 409, 500} \<and> [ex_post] = [])
      \<or> (\<exists>b. Json 201 ex_post = Json 201 b \<and> [ex_post] = [] @ [b]))"
proof -
  have c: "create_blog ex_env 0 ex_body [] = (Json 201 ex_post, [ex_post])"
    by (simp add: blog_eval_simps)
  show ?thesis using c create_blog_effect[OF c] by simp
qed

text \<open>
  C13: The specification's example: a body with only the five required strings
  and a fresh slug is stored and answered 201, with author "Admin", publishDate
  and createdAt the current time, an empty tags array and the fresh ObjectId.
\<close>

theorem create_blog_defaults:
  assumes inv: "blogs_inv i bs" and ne: "t \<noteq> []" "e \<noteq> []" "c \<noteq> []" "d \<noteq> []" "s \<noteq> []"
    and fresh: "s \<notin> slug ` set bs"
  shows "\<exists>b. create_blog en i (JObj [(''title'', JStr t), (''excerpt'', JStr e), (''category'', JStr c),
                                      (''content'', JStr d), (''slug'', JStr s)]) bs = (Json 201 b, bs @ [b])
             \<and> author b = Some ''Admin'' \<and> publishDate b = now en \<and> tags b = Some []
             \<and> blog_id b = i \<and> slug b = s \<and> createdAt b = now en"
proof -
  let ?body = "JObj [(''title'', JStr t), (''excerpt'', JStr e), (''category'', JStr c),
                     (''content'', JStr d), (''slug'', JStr s)]"
  let ?b = "\<lparr>blog_id = i, title = t, excerpt = e, featuredImage = None, publishDate = now en,
             slug = s, category = c, author = Some ''Admin'', readTime = None, tags = Some [],
             content = d, createdAt = now en, updatedAt = now en\<rparr>"
  have nb: "new_blog i (now en) (publish_date en (blog_body_of ?body)) (blog_body_of ?body) = Inr ?b"
    using ne by (simp add: new_blog_def publish_date_def cast_required_def cast_default_def
                           cast_string_array_def)
  have "create_blog en i ?body bs = (Json 201 ?b, bs @ [?b])"
    by (rule create_blog_stores[OF inv _ _ _ _ nb])
       (use ne fresh in \<open>auto simp: object_coercible_def blog_guard_def\<close>)
  then show ?thesis by auto
qed

theorem create_blog_defaults_witness:
  "\<exists>b. create_blog ex_env 0 ex_body [] = (Json 201 b, [b]) \<and> author b = Some ''Admin''
      \<and> publishDate b = 1700000000000 \<and> tags b = Some [] \<and> blog_id b = 0 \<and> slug b = ''a-post''
      \<and> createdAt b = 1700000000000"
  using create_blog_defaults[of 0 "[]" "''A''" "''B''" "''C''" "''D''" "''a-post''" ex_env]
  by (simp add: blogs_inv_def)

text \<open>
  C14: Under the invariant, fetching by slug answers 200 with exactly the post
  of that slug, and 404 exactly when no post has it.
\<close>

theorem get_blog_spec:
  assumes "blogs_inv n bs"
  shows "(get_blog p bs = Json 200 b \<longleftrightarrow> b \<in> set bs \<and> slug b = p) \<and>
         (get_blog p bs = Message 404 ''Blog not found'' \<longleftrightarrow> p \<notin> slug ` set bs)"
proof -
  from assms have d: "distinct (map slug bs)" by (simp add: blogs_inv_def)
  have "get_blog p bs = Json 200 b \<longleftrightarrow> find_one (\<lambda>b. slug b = p) bs = Some b"
    by (auto simp: get_blog_def split: option.splits)
  moreover have "get_blog p bs = Message 404 ''Blog not found'' \<longleftrightarrow> find_one (\<lambda>b. slug b = p) bs = None"
    by (auto simp: get_blog_def split: option.splits)
  ultimately show ?thesis
    using find_one_unique_key[OF d, of p b] find_one_None[of "\<lambda>b. slug b = p" bs] by auto
qed

theorem get_blog_spec_witness:
  "(get_blog ''a-post'' [ex_post] = Json 200 ex_post \<longleftrightarrow> ex_post \<in> set [ex_post] \<and> slug ex_post = ''a-post'') \<and>
   (get_blog ''a-post'' [ex_post] = Message 404 ''Blog not found'' \<longleftrightarrow> ''a-post'' \<notin> slug ` set [ex_post])"
  by (rule get_blog_spec[where n = 1]) (simp add: blogs_inv_def blog_valid_def)

text \<open>
  C15: Under the invariant, deleting by slug removes exactly the post with that
  slug and answers 200, or answers 404 and changes nothing when there is none.
\<close>

theorem delete_blog_spec:
  assumes "blogs_inv n bs"
  shows "delete_blog p bs =
           (if p \<in> slug ` set bs
            then (Message 200 ''Blog deleted successfully'', filter (\<lambda>b. slug b \<noteq> p) bs)
            else (Message 404 ''Blog not found'', bs))"
proof (cases "find (\<lambda>b. slug b = p) bs")
  case None
  then have "p \<notin> slug ` set bs" by (auto simp: find_None_iff)
  with None show ?thesis by (simp add: delete_blog_simps)
next
  case (Some b)
  then have "b \<in> set bs" and "slug b = p" by (auto simp: find_Some_iff)
  moreover from assms have "distinct (map slug bs)" by (simp add: blogs_inv_def)
  ultimately have "remove1 b bs = filter (\<lambda>b'. slug b' \<noteq> p) bs"
    using remove1_unique_key by metis
  with Some \<open>b \<in> set bs\<close> \<open>slug b = p\<close> show ?thesis
    by (auto simp: delete_blog_simps)
qed

theorem delete_blog_spec_witness:
  "delete_blog ''a-post'' [ex_post] = (Message 200 ''Blog deleted successfully'', [])"
  using delete_blog_spec[of 1 "[ex_post]" "''a-post''"] by (simp add: blogs_inv_def blog_valid_def)

text \<open>
  Creating the same body twice in a row: whatever the second request's
  time and ObjectId, it answers 409 and leaves the collection as the first
  request left it.
\<close>

theorem create_blog_twice:
  assumes "create_blog en i body bs = (Json 201 b, bs')"
  shows "create_blog en' j body bs' = (Message 409 ''Slug already exists'', bs')"
proof -
  from assms have bs': "bs' = bs @ [b]" and oc: "object_coercible body"
    and g: "blog_guard (blog_body_of body)"
    and nb: "new_blog i (now en) (publish_date en (blog_body_of body)) (blog_body_of body) = Inr b"
    using create_blog_Json by blast+
  from assms obtain q where q: "cast_squery (get_prop body ''slug'') = Inr q"
    using create_blog_Json by fastforce
  from nb have "cast_string (get_prop body ''slug'') = Inr (Some (slug b))"
    using new_blog_Inr cast_required_Inr by fastforce
  with q have "squery_match q (slug b)" using cast_squery_agrees by blast
  with bs' have "find_one (\<lambda>b. squery_match q (slug b)) bs' \<noteq> None"
    by (auto simp: find_one_None)
  with oc g q show ?thesis
    by (auto simp: create_blog_def Let_def split: option.splits)
qed

theorem create_blog_twice_witness:
  "create_blog ex_env 0 ex_body [] = (Json 201 ex_post, [ex_post]) \<and>
   create_blog ex_env 1 ex_body [ex_post] = (Message 409 ''Slug already exists'', [ex_post])"
proof -
  have c: "create_blog ex_env 0 ex_body [] = (Json 201 ex_post, [ex_post])"
    by (simp add: blog_eval_simps)
  show ?thesis using c create_blog_twice[OF c, of ex_env 1] by simp
qed

text \<open>
  C22: The body's slug reaches \<^verbatim>\<open>Blog.findOne({ slug })\<close> unsanitised: a slug
  \<^verbatim>\<open>{"$ne": ""}\<close> answers 409 on any non-empty collection, although no post has
  that slug, and the caller learns that the collection is not empty.
\<close>

theorem create_blog_ne_injection:
  assumes inv: "blogs_inv n bs" and ne: "bs \<noteq> []" and oc: "object_coercible body"
    and g: "blog_guard (blog_body_of body)" and sl: "get_prop body ''slug'' = JObj [(''$ne'', JStr '''')]"
  shows "create_blog en i body bs = (Message 409 ''Slug already exists'', bs)"
proof -
  from ne obtain b where "b \<in> set bs" by (cases bs) auto
  with inv have "slug b \<noteq> []" by (auto simp: blogs_inv_def blog_valid_def)
  have q: "cast_squery (get_prop body ''slug'') = Inr (SOps [OpNe (Some [])])"
    by (simp add: sl has_dollar_keys_def cast_sop_def)
  from \<open>b \<in> set bs\<close> \<open>slug b \<noteq> []\<close>
  have "find_one (\<lambda>b. squery_match (SOps [OpNe (Some [])]) (slug b)) bs \<noteq> None"
    by (auto simp: find_one_None intro!: bexI[of _ b])
  with oc g q show ?thesis
    by (auto simp: create_blog_def Let_def simp del: squery_match.simps split: option.splits)
qed

theorem create_blog_ne_injection_witness:
  "create_blog ex_env 1 (JObj [(''title'', JStr ''A''), (''excerpt'', JStr ''B''), (''category'', JStr ''C''),
                   (''content'', JStr ''D''), (''slug'', JObj [(''$ne'', JStr '''')])]) [ex_post]
   = (Message 409 ''Slug already exists'', [ex_post])"
  by (rule create_blog_ne_injection[where n = 1])
     (simp_all add: blogs_inv_def blog_valid_def object_coercible_def blog_guard_def)

text \<open>
  A slug that is an array or an operator object is never stored: the
  filter built from it may match (409) but the document cannot be saved (500),
  and the collection is unchanged either way.
\<close>

theorem create_blog_query_slug_not_stored:
  assumes "get_prop body ''slug'' = JArr vs \<or> (\<exists>kvs. get_prop body ''slug'' = JObj kvs \<and> has_dollar_keys kvs)"
  shows "snd (create_blog en i body bs) = bs"
proof (rule ccontr)
  assume ch: "snd (create_blog en i body bs) \<noteq> bs"
  obtain r bs' where cr: "create_blog en i body bs = (r, bs')" by fastforce
  with ch create_blog_Message obtain c b where "r = Json c b"
    by (cases r) fastforce+
  with cr obtain q where q: "cast_squery (get_prop body ''slug'') = Inr q"
    and nb: "new_blog i (now en) (publish_date en (blog_body_of body)) (blog_body_of body) = Inr b"
    using create_blog_Json by fastforce
  from nb have "cast_string (get_prop body ''slug'') = Inr (Some (slug b))"
    using new_blog_Inr cast_required_Inr by fastforce
  with q assms show False
    using cast_squery_operators by auto
qed

text \<open>
  C23: A truthy publishDate that is an Invalid Date (here a number beyond
  TimeClip's range) makes \<^verbatim>\<open>save()\<close> fail: the request answers 500 and nothing
  is stored.
\<close>

theorem create_blog_invalid_date:
  assumes oc: "object_coercible body" and g: "blog_guard (blog_body_of body)"
    and sl: "get_prop body ''slug'' = JStr s" and fresh: "s \<notin> slug ` set bs"
    and pd: "truthy (get_prop body ''publishDate'')"
    and nd: "js_new_date (date_parse en) (get_prop body ''publishDate'') = None"
  shows "create_blog en i body bs = (Message 500 ''Failed to create blog'', bs)"
proof -
  have "publish_date en (blog_body_of body) = None"
    using pd nd by (simp add: publish_date_def)
  then have nb: "\<forall>b. new_blog i (now en) (publish_date en (blog_body_of body)) (blog_body_of body) \<noteq> Inr b"
    using new_blog_Inr by fastforce
  from fresh have "find_one (\<lambda>b. squery_match (SEq (Some s)) (slug b)) bs = None"
    by (auto simp: find_one_None)
  with oc g sl nb show ?thesis
    by (cases "new_blog i (now en) (publish_date en (blog_body_of body)) (blog_body_of body)")
       (auto simp: create_blog_def Let_def simp del: squery_match.simps)
qed

theorem create_blog_invalid_date_witness:
  "create_blog ex_env 0 (JObj [(''title'', JStr ''A''), (''excerpt'', JStr ''B''), (''category'', JStr ''C''),
                   (''content'', JStr ''D''), (''slug'', JStr ''a-post''), (''publishDate'', JNum 10000000000000000)]) []
   = (Message 500 ''Failed to create blog'', [])"
  by (rule create_blog_invalid_date[where s = "''a-post''"])
     (simp_all add: object_coercible_def blog_guard_def time_clip_def)

text \<open>
  C17: The admin list is every stored post exactly once, projected to its id,
  title and slug, newest first by createdAt.
\<close>

theorem admin_blogs_sorted:
  "\<exists>ys. admin_blogs bs = Json 200 (map summary_of ys) \<and> sorted_desc_by createdAt ys \<and> mset ys = mset bs"
proof -
  have "sorted_desc_by createdAt (sort_desc createdAt bs) \<and> mset (sort_desc createdAt bs) = mset bs"
    by (rule sort_desc_sorted_mset)
  then show ?thesis by (auto simp: admin_blogs_def)
qed

end
