(* ===== verification/Media.thy ===== *)
theory Media
  imports Prelude
begin

text \<open>
  The Media Host Gateway: the hosted assets at Cloudinary, named by their
  \<^verbatim>\<open>publicId\<close>, and the one call the server makes on them,
  \<^verbatim>\<open>cloudinary.uploader.destroy(publicId)\<close> (line 109).  Assets are created by
  the frontend's direct upload, outside this server.  The outcome of a call is
  not under the server's control and is a parameter of the model: the call
  resolves (with \<^verbatim>\<open>result: "ok"\<close>, or \<^verbatim>\<open>"not found"\<close> for an asset that is not
  there: the SDK does not reject then), it rejects with the asset untouched
  (network or credential failure), or it rejects after the host has deleted the
  asset (a timeout whose request went through).
\<close>

type_synonym assets = "string set"

datatype media_outcome = DestroyResolves | DestroyRejects | DestroyLost

text \<open>The call: whether it resolved, and the assets afterwards.\<close>

fun destroy :: "media_outcome \<Rightarrow> string \<Rightarrow> assets \<Rightarrow> bool \<times> assets" where
  "destroy DestroyResolves p a = (True, a - {p})"
| "destroy DestroyRejects p a = (False, a)"
| "destroy DestroyLost p a = (False, a - {p})"

section \<open>Lemmas\<close>

lemma destroy_subset: "destroy mo p a = (ok, a') \<Longrightarrow> a' \<subseteq> a"
  by (cases mo) auto

lemma destroy_removes: "destroy mo p a = (True, a') \<Longrightarrow> a' = a - {p}"
  by (cases mo) auto

lemma destroy_rejects: "destroy DestroyRejects p a = (ok, a') \<longleftrightarrow> \<not> ok \<and> a' = a"
  by auto

end
