(* ===== verification/Gallery.thy ===== *)
theory Gallery
  imports Mongo Media
begin

text \<open>
  The Gallery Manager of \<^verbatim>\<open>src/server.js\<close>: the \<^verbatim>\<open>gallerySchema\<close> document
  (lines 55--62) and the three gallery routes (lines 73--119).  A handler takes
  the collection of image records in natural order (and, for the deletion, the
  assets of the media host and the outcome of the media-host call) and returns
  the response with the state afterwards.
\<close>

section \<open>The schema\<close>

record image =
  img_id :: oid
  src :: string
  publicId :: string
  alt :: "string option"
  img_createdAt :: time

text \<open>
  \<^verbatim>\<open>new GalleryImage({ src, publicId, alt })\<close> and the validation of
  \<^verbatim>\<open>save()\<close>: two required strings, \<^verbatim>\<open>alt\<close> defaulting to
  \<^verbatim>\<open>"Event Image"\<close> when undefined, \<^verbatim>\<open>createdAt\<close> defaulting to
  \<^verbatim>\<open>Date.now\<close>.
\<close>

definition new_image :: "oid \<Rightarrow> time \<Rightarrow> jsval \<Rightarrow> jsval \<Rightarrow> jsval \<Rightarrow> db_error + image" where
  "new_image i t s p a =
     sbind (cast_required s) (\<lambda>sv.
     sbind (cast_required p) (\<lambda>pv.
     sbind (cast_default ''Event Image'' a) (\<lambda>av.
     Inr \<lparr>img_id = i, src = sv, publicId = pv, alt = av, img_createdAt = t\<rparr>)))"

text \<open>The only unique index of the collection is \<^verbatim>\<open>_id\<close>.\<close>

definition image_clash :: "image \<Rightarrow> image \<Rightarrow> bool" where
  "image_clash m' m \<longleftrightarrow> img_id m' = img_id m"

section \<open>The routes\<close>

text \<open>\<^verbatim>\<open>GET /api/gallery\<close> (lines 74--82): newest first by \<^verbatim>\<open>createdAt\<close>.\<close>

definition get_gallery :: "image list \<Rightarrow> image list response" where
  "get_gallery ims = Json 200 (sort_desc img_createdAt ims)"

text \<open>
  \<^verbatim>\<open>POST /api/gallery\<close> (lines 85--100): destructuring, the guard
  \<^verbatim>\<open>!src || !publicId\<close> (400), then \<^verbatim>\<open>save()\<close> (201, or 500 when it
  rejects).
\<close>

definition post_image :: "env \<Rightarrow> oid \<Rightarrow> jsval \<Rightarrow> image list \<Rightarrow> image response \<times> image list" where
  "post_image en i body ims =
     (if \<not> object_coercible body then (Message 500 ''Failed to save image'', ims)
      else
        let s = get_prop body ''src''; p = get_prop body ''publicId''; a = get_prop body ''alt'' in
        if \<not> truthy s \<or> \<not> truthy p then (Message 400 ''Missing image data'', ims)
        else
          case new_image i (now en) s p a of
            Inl _ \<Rightarrow> (Message 500 ''Failed to save image'', ims)
          | Inr m \<Rightarrow>
              (case insert_unique image_clash m ims of
                 Inl _ \<Rightarrow> (Message 500 ''Failed to save image'', ims)
               | Inr ims' \<Rightarrow> (Json 201 m, ims')))"

text \<open>
  \<^verbatim>\<open>DELETE /api/gallery/:id\<close> (lines 103--119).  \<^verbatim>\<open>findById\<close> casts the
  parameter to an ObjectId and rejects (500) when it is not one; no record
  answers 404; otherwise step A, the media-host call, runs first and a
  rejection answers 500 with the record kept; step B,
  \<^verbatim>\<open>findByIdAndDelete\<close>, then removes the record.
\<close>

definition delete_image ::
  "media_outcome \<Rightarrow> string \<Rightarrow> image list \<Rightarrow> assets \<Rightarrow> image response \<times> image list \<times> assets" where
  "delete_image mo p ims a =
     (case cast_oid p of
        None \<Rightarrow> (Message 500 ''Delete failed'', ims, a)
      | Some k \<Rightarrow>
          (case find_one (\<lambda>m. img_id m = k) ims of
             None \<Rightarrow> (Message 404 ''Image not found'', ims, a)
           | Some m \<Rightarrow>
               (case destroy mo (publicId m) a of
                  (False, a') \<Rightarrow> (Message 500 ''Delete failed'', ims, a')
                | (True, a') \<Rightarrow>
                    (Message 200 ''Image deleted successfully'',
                     snd (find_one_and_delete (\<lambda>m. img_id m = k) ims), a'))))"

section \<open>Invariants\<close>

text \<open>
  The schema's constraints: unique ids below the next ObjectId and non-empty
  required strings.  The consistency the specification asks for: every record
  names an asset the media host holds.
\<close>

definition images_inv :: "oid \<Rightarrow> image list \<Rightarrow> bool" where
  "images_inv nxt ims \<longleftrightarrow>
     distinct (map img_id ims) \<and> (\<forall>m \<in> set ims. img_id m < nxt \<and> src m \<noteq> [] \<and> publicId m \<noteq> [])"

definition consistent :: "image list \<Rightarrow> assets \<Rightarrow> bool" where
  "consistent ims a \<longleftrightarrow> (\<forall>m \<in> set ims. publicId m \<in> a)"

section \<open>Examples\<close>

abbreviation ex_img :: image where
  "ex_img \<equiv> \<lparr>img_id = 0, src = ''https://x/y.jpg'', publicId = ''events/y'', alt = Some ''Event Image'',
              img_createdAt = 1700000000000\<rparr>"

abbreviation ex_img_key :: string where
  "ex_img_key \<equiv> ''000000000000000000000000''"

section \<open>Lemmas\<close>

lemma new_image_Inr:
  assumes "new_image i t s p a = Inr m"
  shows "img_id m = i \<and> img_createdAt m = t \<and> src m \<noteq> [] \<and> publicId m \<noteq> [] \<and>
         cast_string p = Inr (Some (publicId m))"
  using assms by (auto simp: new_image_def sbind_eq_Inr dest!: cast_required_Inr)

lemma post_image_Message: "post_image en i body ims = (Message c msg, ims') \<Longrightarrow> ims' = ims"
  by (auto simp: post_image_def Let_def split: if_splits sum.splits)

lemma post_image_Json:
  assumes "post_image en i body ims = (Json c m, ims')"
  shows "c = 201 \<and> ims' = ims @ [m] \<and> (\<forall>m' \<in> set ims. \<not> image_clash m' m) \<and>
         new_image i (now en) (get_prop body ''src'') (get_prop body ''publicId'') (get_prop body ''alt'') = Inr m"
  using assms by (auto simp: post_image_def Let_def insert_unique_Inr split: if_splits sum.splits)

lemmas delete_image_simps = delete_image_def find_one_def snd_find_one_and_delete

lemma find_img_id:
  "images_inv n ims \<Longrightarrow> m \<in> set ims \<Longrightarrow> find (\<lambda>x. img_id x = img_id m) ims = Some m"
  using find_one_unique_key[of img_id ims "img_id m" m] by (simp add: images_inv_def find_one_def)

lemma images_inv_mono: "images_inv n ims \<Longrightarrow> n \<le> k \<Longrightarrow> images_inv k ims"
  by (fastforce simp: images_inv_def)

lemma cast_ex_img_key: "cast_oid ex_img_key = Some 0"
  by (simp add: cast_oid_def hex_digit_def)

lemma images_inv_ex_img: "images_inv 1 [ex_img]"
  by (simp add: images_inv_def)

lemma post_image_inv:
  assumes inv: "images_inv i ims" and po: "post_image en i body ims = (r, ims')"
  shows "images_inv (Suc i) ims'"
proof (cases r)
  case (Message c msg)
  with po have "ims' = ims" using post_image_Message by blast
  with inv show ?thesis by (auto intro: images_inv_mono)
next
  case (Json c m)
  with po have "ims' = ims @ [m]" and "\<forall>m' \<in> set ims. \<not> image_clash m' m"
    and "new_image i (now en) (get_prop body ''src'') (get_prop body ''publicId'') (get_prop body ''alt'') = Inr m"
    using post_image_Json by blast+
  with inv show ?thesis
    by (auto simp: images_inv_def image_clash_def dest!: new_image_Inr)
qed

lemma delete_image_inv:
  assumes inv: "images_inv n ims" and del: "delete_image mo p ims a = (r, ims', a')"
  shows "images_inv n ims'"
proof -
  have "ims' = ims \<or> (\<exists>m. ims' = remove1 m ims)"
    using del by (auto simp: delete_image_simps split: option.splits bool.splits prod.splits)
  then show ?thesis
  proof
    assume "ims' = ims"
    with inv show ?thesis by simp
  next
    assume "\<exists>m. ims' = remove1 m ims"
    then obtain m where "ims' = remove1 m ims" by blast
    moreover have "set (remove1 m ims) \<subseteq> set ims" by (rule set_remove1_subset)
    ultimately show ?thesis using inv by (auto simp: images_inv_def distinct_map_remove1)
  qed
qed

section \<open>Properties of the Gallery Manager\<close>

text \<open>
  C7: Deleting an image by a well-formed id that no record has answers 404 and changes neither the collection nor the media host.
\<close>

theorem delete_image_not_found:
  assumes "cast_oid p = Some k" and "k \<notin> img_id ` set ims"
  shows "delete_image mo p ims a = (Message 404 ''Image not found'', ims, a)"
proof -
  from assms(2) have "find (\<lambda>m. img_id m = k) ims = None" by (auto simp: find_None_iff)
  with assms(1) show ?thesis by (simp add: delete_image_simps)
qed

theorem delete_image_not_found_witness:
  "delete_image DestroyResolves ex_img_key [] {''events/y''} = (Message 404 ''Image not found'', [], {''events/y''})"
  by (rule delete_image_not_found[where k = 0]) (simp_all add: cast_ex_img_key)

text \<open>
  C5: When the media-host call rejects with the asset untouched, deletion answers 500 and the record and the asset are both still there: no partial deletion.
\<close>

theorem delete_image_rejected:
  assumes "images_inv n ims" and "cast_oid p = Some (img_id m)" and "m \<in> set ims"
  shows "delete_image DestroyRejects p ims a = (Message 500 ''Delete failed'', ims, a)"
  using assms by (simp add: delete_image_simps find_img_id)

theorem delete_image_rejected_witness:
  "delete_image DestroyRejects ex_img_key [ex_img] {''events/y''} = (Message 500 ''Delete failed'', [ex_img], {''events/y''})"
  by (rule delete_image_rejected[where n = 1 and m = ex_img]) (simp_all add: cast_ex_img_key images_inv_def)

text \<open>
  C6: When the media-host call resolves, deletion by the id of a record removes exactly that record and its asset, and answers 200.
\<close>

theorem delete_image_success:
  assumes "images_inv n ims" and "cast_oid p = Some (img_id m)" and "m \<in> set ims"
  shows "delete_image DestroyResolves p ims a =
           (Message 200 ''Image deleted successfully'', filter (\<lambda>x. img_id x \<noteq> img_id m) ims, a - {publicId m})"
proof -
  from assms(1) have "distinct (map img_id ims)" by (simp add: images_inv_def)
  from this assms(3) have "remove1 m ims = filter (\<lambda>x. img_id x \<noteq> img_id m) ims"
    by (rule remove1_unique_key)
  with assms show ?thesis by (simp add: delete_image_simps find_img_id)
qed

theorem delete_image_success_witness:
  "delete_image DestroyResolves ex_img_key [ex_img] {''events/y''} = (Message 200 ''Image deleted successfully'', [], {})"
  using delete_image_success[of 1 "[ex_img]" ex_img_key ex_img "{''events/y''}"]
  by (simp add: cast_ex_img_key images_inv_def)

text \<open>
  C4: A record leaves the collection only in a request whose media-host call resolved, and its asset is gone afterwards: step A (destroy) precedes step B (delete).
\<close>

theorem delete_image_asset_first:
  assumes del: "delete_image mo p ims a = (r, ims', a')" and m: "m \<in> set ims" "m \<notin> set ims'"
  shows "mo = DestroyResolves \<and> r = Message 200 ''Image deleted successfully'' \<and> publicId m \<notin> a'"
proof (cases "cast_oid p")
  case None
  with del m show ?thesis by (simp add: delete_image_simps)
next
  case (Some k)
  note k = this
  show ?thesis
  proof (cases "find (\<lambda>x. img_id x = k) ims")
    case None
    with k del m show ?thesis by (simp add: delete_image_simps)
  next
    case (Some m')
    note f = this
    obtain ok a'' where d: "destroy mo (publicId m') a = (ok, a'')" by fastforce
    show ?thesis
    proof (cases ok)
      case False
      with d f k del m show ?thesis by (simp add: delete_image_simps)
    next
      case True
      with d f k del have ims': "ims' = remove1 m' ims" and a': "a' = a''"
        and r: "r = Message 200 ''Image deleted successfully''"
        by (simp_all add: delete_image_simps)
      from m ims' have "m = m'" by (metis in_set_remove1)
      with d True a' have "publicId m \<notin> a'" by (auto dest: destroy_removes)
      moreover from d True have "mo = DestroyResolves" by (cases mo) auto
      ultimately show ?thesis using r by simp
    qed
  qed
qed

theorem delete_image_asset_first_witness:
  "delete_image DestroyResolves ex_img_key [ex_img] {''events/y''} = (Message 200 ''Image deleted successfully'', [], {})
   \<and> ex_img \<in> set [ex_img] \<and> ex_img \<notin> set []
   \<and> DestroyResolves = DestroyResolves \<and> Message 200 ''Image deleted successfully'' = (Message 200 ''Image deleted successfully'' :: image response)
   \<and> publicId ex_img \<notin> ({} :: assets)"
proof -
  have d: "delete_image DestroyResolves ex_img_key [ex_img] {''events/y''} = (Message 200 ''Image deleted successfully'', [], {})"
    by (simp add: delete_image_simps cast_ex_img_key)
  show ?thesis using d delete_image_asset_first[OF d, of ex_img] by simp
qed

text \<open>
  C19: Registering an image without a truthy src or publicId answers 400 and creates no record (the specification example: a body with src only).
\<close>

theorem post_image_missing:
  assumes "object_coercible body"
    and "\<not> truthy (get_prop body ''src'') \<or> \<not> truthy (get_prop body ''publicId'')"
  shows "post_image en i body ims = (Message 400 ''Missing image data'', ims)"
  using assms by (auto simp: post_image_def)

theorem post_image_missing_witness:
  "post_image ex_env 0 (JObj [(''src'', JStr ''https://x/y.jpg'')]) [] = (Message 400 ''Missing image data'', [])"
  by (rule post_image_missing) (simp_all add: object_coercible_def)

text \<open>
  Registering an image with non-empty src and publicId strings stores and returns a record with the fresh ObjectId, alt "Event Image" and createdAt the current time.
\<close>

theorem post_image_defaults:
  assumes inv: "images_inv i ims" and ne: "s \<noteq> []" "p \<noteq> []"
  shows "post_image en i (JObj [(''src'', JStr s), (''publicId'', JStr p)]) ims =
           (Json 201 \<lparr>img_id = i, src = s, publicId = p, alt = Some ''Event Image'', img_createdAt = now en\<rparr>,
            ims @ [\<lparr>img_id = i, src = s, publicId = p, alt = Some ''Event Image'', img_createdAt = now en\<rparr>])"
proof -
  from inv have "\<forall>m \<in> set ims. \<not> image_clash m \<lparr>img_id = i, src = s, publicId = p, alt = Some ''Event Image'', img_createdAt = now en\<rparr>"
    by (auto simp: images_inv_def image_clash_def)
  with ne show ?thesis
    by (simp add: post_image_def new_image_def cast_required_def cast_default_def object_coercible_def
                  insert_unique_def list_ex_iff)
qed

theorem post_image_defaults_witness:
  "post_image ex_env 0 (JObj [(''src'', JStr ''https://x/y.jpg''), (''publicId'', JStr ''events/y'')]) [] = (Json 201 ex_img, [ex_img])"
  using post_image_defaults[of 0 "[]" "''https://x/y.jpg''" "''events/y''" ex_env] by (simp add: images_inv_def)

text \<open>
  C24: Deleting with an id that is not an ObjectId string answers 500 (the CastError of findById), not 404 as the specification says for a nonexistent id.
\<close>

theorem delete_image_invalid_id:
  assumes "cast_oid p = None"
  shows "delete_image mo p ims a = (Message 500 ''Delete failed'', ims, a)"
  using assms by (simp add: delete_image_def)

theorem delete_image_invalid_id_witness:
  "delete_image DestroyResolves ''abc'' [ex_img] {''events/y''} = (Message 500 ''Delete failed'', [ex_img], {''events/y''})"
  by (rule delete_image_invalid_id) (simp add: cast_oid_def)

text \<open>
  C25: When the media-host call rejects after the host deleted the asset, the handler answers 500 and keeps the record, which now names a missing asset.
\<close>

theorem delete_image_lost:
  assumes "images_inv n ims" and "cast_oid p = Some (img_id m)" and "m \<in> set ims"
  shows "delete_image DestroyLost p ims a = (Message 500 ''Delete failed'', ims, a - {publicId m})
         \<and> \<not> consistent ims (a - {publicId m})"
  using assms by (auto simp: delete_image_simps find_img_id consistent_def)

theorem delete_image_lost_witness:
  "delete_image DestroyLost ex_img_key [ex_img] {''events/y''} = (Message 500 ''Delete failed'', [ex_img], {})
   \<and> \<not> consistent [ex_img] {}"
  using delete_image_lost[of 1 "[ex_img]" ex_img_key ex_img "{''events/y''}"]
  by (simp add: cast_ex_img_key images_inv_def)

text \<open>
  C26: The specification's invariant "every record corresponds to an existing
  asset" is not kept by the code: from any consistent collection,
  \<^verbatim>\<open>POST /api/gallery\<close> accepts a record naming the publicId of a stored one
  (nothing checks it), and deleting the new record by the id it was answered
  with destroys the asset the old record still names.
\<close>

theorem delete_image_shared_public_id:
  assumes inv: "images_inv i ims" and i: "i < 16 ^ 24" and m: "m \<in> set ims" and s: "s \<noteq> []"
    and cons: "consistent ims a"
  shows "\<exists>m'. publicId m' = publicId m
           \<and> post_image en i (JObj [(''src'', JStr s), (''publicId'', JStr (publicId m))]) ims = (Json 201 m', ims @ [m'])
           \<and> delete_image DestroyResolves (oid_hex i) (ims @ [m']) a
               = (Message 200 ''Image deleted successfully'', ims, a - {publicId m})
           \<and> \<not> consistent ims (a - {publicId m})"
proof -
  let ?m' = "\<lparr>img_id = i, src = s, publicId = publicId m, alt = Some ''Event Image'', img_createdAt = now en\<rparr>"
  from inv m have p: "publicId m \<noteq> []" by (simp add: images_inv_def)
  have po: "post_image en i (JObj [(''src'', JStr s), (''publicId'', JStr (publicId m))]) ims = (Json 201 ?m', ims @ [?m'])"
    using post_image_defaults[OF inv s p] .
  from inv have lt: "\<forall>x \<in> set ims. img_id x < i" by (simp add: images_inv_def)
  then have fa: "find (\<lambda>x. img_id x = i) (ims @ [?m']) = Some ?m'" by (induction ims) auto
  from lt have ni: "?m' \<notin> set ims" by auto
  have del: "delete_image DestroyResolves (oid_hex i) (ims @ [?m']) a
               = (Message 200 ''Image deleted successfully'', ims, a - {publicId m})"
    using cast_oid_oid_hex[OF i] fa ni by (simp add: delete_image_simps remove1_append)
  from m have "\<not> consistent ims (a - {publicId m})" by (auto simp: consistent_def)
  with po del show ?thesis by (intro exI[of _ ?m']) simp
qed

theorem delete_image_shared_public_id_witness:
  "images_inv 1 [ex_img] \<and> (1::nat) < 16 ^ 24 \<and> ex_img \<in> set [ex_img] \<and> ''https://x/z.jpg'' \<noteq> []
   \<and> consistent [ex_img] {''events/y''}
   \<and> (\<exists>m'. publicId m' = ''events/y''
        \<and> post_image ex_env 1 (JObj [(''src'', JStr ''https://x/z.jpg''), (''publicId'', JStr ''events/y'')]) [ex_img]
            = (Json 201 m', [ex_img, m'])
        \<and> delete_image DestroyResolves (oid_hex 1) [ex_img, m'] {''events/y''}
            = (Message 200 ''Image deleted successfully'', [ex_img], {})
        \<and> \<not> consistent [ex_img] {})"
proof -
  have h: "images_inv 1 [ex_img]" "(1::nat) < 16 ^ 24" "consistent [ex_img] {''events/y''}"
    by (simp_all add: images_inv_def consistent_def)
  from delete_image_shared_public_id[OF h(1) h(2), of ex_img "''https://x/z.jpg''" "{''events/y''}" ex_env] h
  show ?thesis by simp
qed

text \<open>
  With publicIds unique among the records, a deletion whose media-host call resolves or rejects cleanly keeps every record pointing at an existing asset.
\<close>

theorem delete_image_preserves_consistency:
  assumes "distinct (map publicId ims)" and "consistent ims a" and "mo \<noteq> DestroyLost"
    and "delete_image mo p ims a = (r, ims', a')"
  shows "consistent ims' a'"
proof (cases mo)
  case DestroyResolves
  show ?thesis
  proof (cases "\<exists>k m. cast_oid p = Some k \<and> find (\<lambda>x. img_id x = k) ims = Some m")
    case True
    then obtain k m where k: "cast_oid p = Some k" and f: "find (\<lambda>x. img_id x = k) ims = Some m" by blast
    from f have "m \<in> set ims" by (auto simp: find_Some_iff)
    from assms(1) this have "remove1 m ims = filter (\<lambda>x. publicId x \<noteq> publicId m) ims"
      by (rule remove1_unique_key)
    then have "\<forall>x \<in> set (remove1 m ims). publicId x \<noteq> publicId m" by simp
    with assms(2,4) DestroyResolves k f show ?thesis
      using set_remove1_subset[of m ims] by (auto simp: delete_image_simps consistent_def)
  next
    case False
    with assms(2,4) show ?thesis
      by (auto simp: delete_image_simps split: option.splits)
  qed
next
  case DestroyRejects
  with assms(2,4) show ?thesis
    by (auto simp: delete_image_simps split: option.splits)
next
  case DestroyLost
  with assms(3) show ?thesis by simp
qed

text \<open>
  Registering an image whose publicId the media host holds (the upload came first) keeps every record pointing at an existing asset.
\<close>

theorem post_image_preserves_consistency:
  assumes "consistent ims a" and "get_prop body ''publicId'' = JStr p" and "p \<in> a"
  shows "consistent (snd (post_image en i body ims)) a"
proof -
  obtain r ims' where po: "post_image en i body ims = (r, ims')" by fastforce
  show ?thesis
  proof (cases r)
    case (Message c msg)
    with po assms(1) show ?thesis using post_image_Message by fastforce
  next
    case (Json c m)
    with po have "ims' = ims @ [m]"
      and "new_image i (now en) (get_prop body ''src'') (get_prop body ''publicId'') (get_prop body ''alt'') = Inr m"
      using post_image_Json by blast+
    with po assms show ?thesis
      by (auto simp: consistent_def dest!: new_image_Inr)
  qed
qed

text \<open>
  C18: Listing images returns every record exactly once, newest first by createdAt.
\<close>

theorem get_gallery_sorted:
  "\<exists>ys. get_gallery ims = Json 200 ys \<and> sorted_desc_by img_createdAt ys \<and> mset ys = mset ims"
  using sort_desc_sorted_mset by (simp add: get_gallery_def)

end
