(* ===== verification/Router.thy ===== *)
theory Router
  imports Mongo
begin

text \<open>
  The Request Router and the cross-origin policy of \<^verbatim>\<open>src/server.js\<close>: the
  route table (lines 69--219 in registration order), Express 4's matching of a
  request path against it (\<^verbatim>\<open>path-to-regexp\<close> with the default options:
  case-insensitive, an optional trailing slash, a parameter being one non-empty
  segment that is then percent-decoded), and the \<^verbatim>\<open>cors\<close> middleware of lines
  15--20, which answers preflight requests and decides the
  \<^verbatim>\<open>Access-Control-Allow-Origin\<close> header.  Bodies reach the handlers already
  parsed by \<^verbatim>\<open>express.json()\<close>; a malformed JSON body is refused by the parser
  before routing and is not modelled.
\<close>

datatype http_method = GET | POST | PUT | DELETE | PATCH | HEAD | OPTIONS

record request =
  req_method :: http_method
  path :: string
  body :: jsval
  origin :: "string option"

section \<open>Route patterns\<close>

datatype seg = Lit string | Param

text \<open>The routes, with the decoded parameter of those that take one.\<close>

datatype route =
    Health | GalleryList | GalleryPost | GalleryDelete string
  | BlogList | BlogGet string | AdminList | BlogPost | BlogDelete string

text \<open>
  One entry of the table: the method of \<^verbatim>\<open>app.get\<close>, \<^verbatim>\<open>app.post\<close> or
  \<^verbatim>\<open>app.delete\<close>, the pattern, and how the captured parameters make the route.
\<close>

definition route_table :: "(http_method \<times> seg list \<times> (string list \<Rightarrow> route)) list" where
  "route_table =
     [(GET, [], \<lambda>_. Health),
      (GET, [Lit ''api'', Lit ''gallery''], \<lambda>_. GalleryList),
      (POST, [Lit ''api'', Lit ''gallery''], \<lambda>_. GalleryPost),
      (DELETE, [Lit ''api'', Lit ''gallery'', Param], \<lambda>ps. GalleryDelete (hd ps)),
      (GET, [Lit ''api'', Lit ''blogs''], \<lambda>_. BlogList),
      (GET, [Lit ''api'', Lit ''blogs'', Param], \<lambda>ps. BlogGet (hd ps)),
      (GET, [Lit ''api'', Lit ''admin'', Lit ''blogs''], \<lambda>_. AdminList),
      (POST, [Lit ''api'', Lit ''blogs''], \<lambda>_. BlogPost),
      (DELETE, [Lit ''api'', Lit ''blogs'', Lit ''slug'', Param], \<lambda>ps. BlogDelete (hd ps))]"

section \<open>Matching a path\<close>

text \<open>ASCII case folding, as the \<^verbatim>\<open>i\<close> flag of the route's regular expression does.\<close>

definition lower_char :: "char \<Rightarrow> char" where
  "lower_char c = (let n = of_char c :: nat in if 65 \<le> n \<and> n \<le> 90 then char_of (n + 32) else c)"

definition eq_ci :: "string \<Rightarrow> string \<Rightarrow> bool" where
  "eq_ci a b \<longleftrightarrow> map lower_char a = map lower_char b"

text \<open>
  \<^verbatim>\<open>req.path\<close>: the URL up to the query string, split at \<^verbatim>\<open>/\<close> after the
  leading one; one trailing empty segment (a trailing slash) is dropped.
\<close>

fun split_on :: "char \<Rightarrow> string \<Rightarrow> string list" where
  "split_on d [] = [[]]"
| "split_on d (c # cs) = (if c = d then [] # split_on d cs
                          else (case split_on d cs of s # ss \<Rightarrow> (c # s) # ss | [] \<Rightarrow> [[c]]))"

definition path_segments :: "string \<Rightarrow> string list option" where
  "path_segments u =
     (let p = takeWhile (\<lambda>c. c \<noteq> CHR ''?'') u in
      case p of
        CHR ''/'' # rest \<Rightarrow>
          (let ss = split_on CHR ''/'' rest in
           Some (if ss \<noteq> [] \<and> last ss = [] then butlast ss else ss))
      | _ \<Rightarrow> None)"

fun match_segs :: "seg list \<Rightarrow> string list \<Rightarrow> string list option" where
  "match_segs [] [] = Some []"
| "match_segs (Lit l # ps) (s # ss) = (if eq_ci l s then match_segs ps ss else None)"
| "match_segs (Param # ps) (s # ss) =
     (if s = [] then None else map_option (\<lambda>xs. s # xs) (match_segs ps ss))"
| "match_segs _ _ = None"

subsection \<open>Decoding a parameter\<close>

text \<open>
  \<^verbatim>\<open>decodeURIComponent\<close> on a captured segment: \<^verbatim>\<open>%XY\<close> is the byte
  \<^verbatim>\<open>0xXY\<close>; a \<^verbatim>\<open>%\<close> without two hex digits throws, and Express answers
  400.  (Its check that the decoded bytes are well-formed UTF-8 is not
  modelled.)
\<close>

fun pct_decode :: "string \<Rightarrow> string option" where
  "pct_decode [] = Some []"
| "pct_decode (c # cs) =
     (if c = CHR ''%'' then
        (case cs of
           h # l # rest \<Rightarrow>
             (case (hex_digit h, hex_digit l) of
                (Some a, Some b) \<Rightarrow> map_option (\<lambda>r. char_of (16 * a + b) # r) (pct_decode rest)
              | _ \<Rightarrow> None)
         | _ \<Rightarrow> None)
      else map_option (\<lambda>r. c # r) (pct_decode cs))"

subsection \<open>Dispatch\<close>

text \<open>
  The outcome of routing a request: a route with its parameters, a parameter
  that fails to decode (400), or no matching route (Express's 404
  \<^verbatim>\<open>Cannot GET /path\<close>).  An \<^verbatim>\<open>app.get\<close> route also serves \<^verbatim>\<open>HEAD\<close>.
\<close>

datatype routed = Route route | BadParam | NoRoute

definition method_ok :: "http_method \<Rightarrow> http_method \<Rightarrow> bool" where
  "method_ok rm m \<longleftrightarrow> rm = m \<or> (rm = GET \<and> m = HEAD)"

text \<open>
  Express 4's router loop (\<^verbatim>\<open>next()\<close> in \<^verbatim>\<open>router/index.js\<close>): each
  layer in registration order is matched against the path first, decoding its
  parameters; a parameter that fails to decode is held as the error, every
  later route layer is skipped, and the request ends in that 400, whatever the
  layer's method.  Only a layer whose path matches and whose parameters decode
  is then checked for the method.
\<close>

fun first_route ::
  "(http_method \<times> seg list \<times> (string list \<Rightarrow> route)) list \<Rightarrow> http_method \<Rightarrow> string list \<Rightarrow> routed" where
  "first_route [] m ss = NoRoute"
| "first_route ((rm, pat, mk) # rs) m ss =
     (case match_segs pat ss of
        None \<Rightarrow> first_route rs m ss
      | Some raw \<Rightarrow>
          (case those (map pct_decode raw) of
             None \<Rightarrow> BadParam
           | Some ps \<Rightarrow> if method_ok rm m then Route (mk ps) else first_route rs m ss))"

definition route_of :: "http_method \<Rightarrow> string \<Rightarrow> routed" where
  "route_of m u = (case path_segments u of None \<Rightarrow> NoRoute | Some ss \<Rightarrow> first_route route_table m ss)"

section \<open>The cross-origin policy\<close>

text \<open>The \<^verbatim>\<open>origin\<close> option of line 17, and \<^verbatim>\<open>methods\<close> of line 18.\<close>

definition allowed_origins :: "string list" where
  "allowed_origins = [''http://localhost:5173'', ''https://skybm.onrender.com'', ''https://skybm.in/'']"

definition allowed_methods :: "http_method list" where
  "allowed_methods = [GET, POST, PUT, DELETE]"

text \<open>
  The \<^verbatim>\<open>cors\<close> package's check for an array of origins: the request's
  \<^verbatim>\<open>Origin\<close> header is compared with each entry by \<^verbatim>\<open>===\<close>; a match is
  echoed in \<^verbatim>\<open>Access-Control-Allow-Origin\<close>, otherwise no such header is sent.
  The middleware never refuses a request: it always calls \<^verbatim>\<open>next()\<close>, except
  for a preflight \<^verbatim>\<open>OPTIONS\<close>, which it answers itself with 204.
\<close>

definition cors_allow_origin :: "string option \<Rightarrow> string option" where
  "cors_allow_origin org =
     (case org of Some s \<Rightarrow> if s \<in> set allowed_origins then Some s else None | None \<Rightarrow> None)"

text \<open>
  An \<^verbatim>\<open>Origin\<close> header as browsers send it (RFC 6454): a scheme,
  \<^verbatim>\<open>://\<close>, and a host with an optional port, never a path, so never a
  \<^verbatim>\<open>/\<close> after the scheme separator.
\<close>

fun origin_host :: "string \<Rightarrow> string option" where
  "origin_host (a # b # c # cs) = (if [a, b, c] = ''://'' then Some cs else origin_host (b # c # cs))"
| "origin_host _ = None"

definition serialized_origin :: "string \<Rightarrow> bool" where
  "serialized_origin s \<longleftrightarrow>
     (case origin_host s of None \<Rightarrow> False | Some h \<Rightarrow> h \<noteq> [] \<and> CHR ''/'' \<notin> set h)"

section \<open>Canonical request paths\<close>

text \<open>
  The method and URL by which a client reaches a route, with the parameter
  written as is; a parameter is plain when it is a non-empty segment that needs
  no percent-encoding.
\<close>

fun route_method :: "route \<Rightarrow> http_method" where
  "route_method GalleryPost = POST"
| "route_method BlogPost = POST"
| "route_method (GalleryDelete _) = DELETE"
| "route_method (BlogDelete _) = DELETE"
| "route_method _ = GET"

fun route_path :: "route \<Rightarrow> string" where
  "route_path Health = ''/''"
| "route_path GalleryList = ''/api/gallery''"
| "route_path GalleryPost = ''/api/gallery''"
| "route_path (GalleryDelete p) = ''/api/gallery/'' @ p"
| "route_path BlogList = ''/api/blogs''"
| "route_path (BlogGet p) = ''/api/blogs/'' @ p"
| "route_path AdminList = ''/api/admin/blogs''"
| "route_path BlogPost = ''/api/blogs''"
| "route_path (BlogDelete p) = ''/api/blogs/slug/'' @ p"

definition plain_segment :: "string \<Rightarrow> bool" where
  "plain_segment p \<longleftrightarrow> p \<noteq> [] \<and> CHR ''/'' \<notin> set p \<and> CHR ''?'' \<notin> set p \<and> CHR ''%'' \<notin> set p"

fun plain_params :: "route \<Rightarrow> bool" where
  "plain_params (GalleryDelete p) = plain_segment p"
| "plain_params (BlogGet p) = plain_segment p"
| "plain_params (BlogDelete p) = plain_segment p"
| "plain_params _ = True"

section \<open>Lemmas\<close>

lemma split_on_no_sep: "d \<notin> set s \<Longrightarrow> split_on d s = [s]"
  by (induction s) auto

lemma split_on_append_sep: "d \<notin> set s \<Longrightarrow> split_on d (s @ d # t) = s # split_on d t"
  by (induction s) auto

lemma pct_decode_plain: "CHR ''%'' \<notin> set s \<Longrightarrow> pct_decode s = Some s"
  by (induction s) auto

lemma takeWhile_plain: "CHR ''?'' \<notin> set s \<Longrightarrow> takeWhile (\<lambda>c. c \<noteq> CHR ''?'') s = s"
  by (induction s) auto

text \<open>The segments of a path with one plain parameter after literal segments.\<close>

lemma path_segments_param:
  assumes "plain_segment p" and "CHR ''/'' \<notin> set a" and "CHR ''?'' \<notin> set a"
  shows "path_segments (CHR ''/'' # a @ CHR ''/'' # p) = Some [a, p]"
  using assms
  by (simp add: path_segments_def plain_segment_def takeWhile_plain split_on_append_sep split_on_no_sep)

lemmas route_eval_simps = route_of_def route_table_def method_ok_def eq_ci_def lower_char_def
  path_segments_def

lemma first_route_Route:
  "first_route tbl m ss = Route r \<Longrightarrow> list_all (\<lambda>(rm, pat, mk). method_ok rm m \<longrightarrow> (\<forall>ps. P (mk ps))) tbl \<Longrightarrow> P r"
  by (induction tbl m ss rule: first_route.induct) (auto split: if_splits option.splits)

lemma route_of_read:
  assumes "route_of m u = Route r" and "m = GET \<or> m = HEAD"
  shows "r \<in> {Health, GalleryList, BlogList, AdminList} \<or> (\<exists>q. r = BlogGet q)"
proof -
  from assms(1) obtain ss where "first_route route_table m ss = Route r"
    by (auto simp: route_of_def split: option.splits)
  then show ?thesis
    by (rule first_route_Route[where P="\<lambda>r. r \<in> {Health, GalleryList, BlogList, AdminList} \<or> (\<exists>q. r = BlogGet q)"])
       (use assms(2) in \<open>auto simp: route_table_def method_ok_def\<close>)
qed

section \<open>Properties of the router\<close>

text \<open>
  C29: Routing is correct for the whole table: the canonical request of every
  route, with plain parameters, reaches exactly that route with its parameter
  intact; no earlier entry of the table captures it.
\<close>

theorem route_of_route_path:
  assumes "plain_params r"
  shows "route_of (route_method r) (route_path r) = Route r"
  using assms
  by (cases r) (simp_all add: route_eval_simps plain_segment_def takeWhile_plain split_on_no_sep
                              pct_decode_plain)

theorem route_of_route_path_witness:
  "route_of GET ''/api/blogs/a-post'' = Route (BlogGet ''a-post'')"
  using route_of_route_path[of "BlogGet ''a-post''"] by (simp add: plain_segment_def)

text \<open>
  C30: The third entry of the origin allow-list, \<^verbatim>\<open>"https://skybm.in/"\<close>, can
  never match: an \<^verbatim>\<open>Origin\<close> header has no path, so the only origins that get an
  \<^verbatim>\<open>Access-Control-Allow-Origin\<close> header are the first two entries, and the
  site \<^verbatim>\<open>https://skybm.in\<close> itself is refused.
\<close>

theorem cors_third_entry_unreachable:
  assumes "serialized_origin org" and "cors_allow_origin (Some org) = Some org"
  shows "org = ''http://localhost:5173'' \<or> org = ''https://skybm.onrender.com''"
proof -
  have "\<not> serialized_origin ''https://skybm.in/''" by (simp add: serialized_origin_def)
  with assms show ?thesis by (auto simp: cors_allow_origin_def allowed_origins_def split: if_splits)
qed

theorem cors_third_entry_unreachable_witness:
  "serialized_origin ''https://skybm.onrender.com''
   \<and> cors_allow_origin (Some ''https://skybm.onrender.com'') = Some ''https://skybm.onrender.com''
   \<and> (''https://skybm.onrender.com'' = ''http://localhost:5173'' \<or> ''https://skybm.onrender.com'' = ''https://skybm.onrender.com'')"
proof -
  have o: "serialized_origin ''https://skybm.onrender.com''" by (simp add: serialized_origin_def)
  have c: "cors_allow_origin (Some ''https://skybm.onrender.com'') = Some ''https://skybm.onrender.com''"
    by (simp add: cors_allow_origin_def allowed_origins_def)
  show ?thesis using o c cors_third_entry_unreachable[OF o c] by simp
qed

text \<open>
  C31: A route parameter with a \<^verbatim>\<open>%\<close> that does not start a valid escape is
  refused by Express with 400 before any handler runs, whatever the method:
  the router decodes the parameters of a layer whose path matches before it
  looks at the layer's method, so \<^verbatim>\<open>GET /api/gallery/%zz\<close> is 400 although
  only \<^verbatim>\<open>DELETE\<close> is registered there.
\<close>

theorem bad_param_400:
  assumes "pct_decode p = None" and "p \<noteq> []" and "CHR ''/'' \<notin> set p" and "CHR ''?'' \<notin> set p"
  shows "route_of m (''/api/blogs/'' @ p) = BadParam \<and> route_of m (''/api/gallery/'' @ p) = BadParam"
  using assms by (simp add: route_eval_simps takeWhile_plain split_on_no_sep)

theorem bad_param_400_witness:
  "pct_decode ''a%zz'' = None \<and> ''a%zz'' \<noteq> [] \<and> CHR ''/'' \<notin> set ''a%zz'' \<and> CHR ''?'' \<notin> set ''a%zz''
   \<and> route_of GET ''/api/blogs/a%zz'' = BadParam \<and> route_of GET ''/api/gallery/a%zz'' = BadParam"
proof -
  have h: "pct_decode ''a%zz'' = None" by (simp add: hex_digit_def)
  show ?thesis using h bad_param_400[OF h, of GET] by simp
qed

end
