(* ===== verification/Server.thy ===== *)
theory Server
  imports Blog Gallery Router
begin

text \<open>
  The Express application of \<^verbatim>\<open>src/server.js\<close> as one state machine: the
  state holds both collections, the media host's assets and the ObjectId
  supply; a request goes through the \<^verbatim>\<open>cors\<close> middleware, the router and one
  route handler (lines 15--219).  The uploads that the frontend makes directly to
  the media host are environment events of a run.  The process start (lines
  1--12, 24--30, 222--225) is the initial state.
\<close>

record server =
  blog_coll :: "blog list"
  image_coll :: "image list"
  host_assets :: assets
  next_oid :: oid

definition init_server :: server where
  "init_server = \<lparr>blog_coll = [], image_coll = [], host_assets = {}, next_oid = 0\<rparr>"

section \<open>Replies\<close>

datatype payload =
    PStatus string | PMessage string | PBlog blog | PBlogs "blog list"
  | PSummaries "blog_summary list" | PImage image | PImages "image list" | PText string | PEmpty

record reply =
  code :: nat
  payload :: payload
  allow_origin :: "string option"

fun lift_response :: "('a \<Rightarrow> payload) \<Rightarrow> 'a response \<Rightarrow> nat \<times> payload" where
  "lift_response f (Json c x) = (c, f x)"
| "lift_response f (Message c m) = (c, PMessage m)"

fun method_name :: "http_method \<Rightarrow> string" where
  "method_name GET = ''GET''"
| "method_name POST = ''POST''"
| "method_name PUT = ''PUT''"
| "method_name DELETE = ''DELETE''"
| "method_name PATCH = ''PATCH''"
| "method_name HEAD = ''HEAD''"
| "method_name OPTIONS = ''OPTIONS''"

section \<open>Dispatch\<close>

text \<open>
  The handler a route reaches, on the part of the state it uses.  Each
  \<^verbatim>\<open>POST\<close> draws the next ObjectId, which \<^verbatim>\<open>new Blog(..)\<close> or
  \<^verbatim>\<open>new GalleryImage(..)\<close> gives the document; the health check of lines
  69--71 answers \<^verbatim>\<open>{ status: "API is running" }\<close>.
\<close>

definition handle :: "env \<Rightarrow> media_outcome \<Rightarrow> route \<Rightarrow> jsval \<Rightarrow> server \<Rightarrow> (nat \<times> payload) \<times> server" where
  "handle en mo r b s =
     (case r of
        Health \<Rightarrow> ((200, PStatus ''API is running''), s)
      | GalleryList \<Rightarrow> (lift_response PImages (get_gallery (image_coll s)), s)
      | GalleryPost \<Rightarrow>
          (let (res, ims) = post_image en (next_oid s) b (image_coll s)
           in (lift_response PImage res, s\<lparr>image_coll := ims, next_oid := Suc (next_oid s)\<rparr>))
      | GalleryDelete p \<Rightarrow>
          (let (res, ims, a) = delete_image mo p (image_coll s) (host_assets s)
           in (lift_response PImage res, s\<lparr>image_coll := ims, host_assets := a\<rparr>))
      | BlogList \<Rightarrow> (lift_response PBlogs (get_blogs (blog_coll s)), s)
      | BlogGet p \<Rightarrow> (lift_response PBlog (get_blog p (blog_coll s)), s)
      | AdminList \<Rightarrow> (lift_response PSummaries (admin_blogs (blog_coll s)), s)
      | BlogPost \<Rightarrow>
          (let (res, bs) = create_blog en (next_oid s) b (blog_coll s)
           in (lift_response PBlog res, s\<lparr>blog_coll := bs, next_oid := Suc (next_oid s)\<rparr>))
      | BlogDelete p \<Rightarrow>
          (let (res, bs) = delete_blog p (blog_coll s)
           in (lift_response PBlog res, s\<lparr>blog_coll := bs\<rparr>)))"

text \<open>
  The same handlers when their first database call rejects (theory \<open>Mongo\<close>,
  \<open>db_outcome\<close>): what a handler answers before its first \<^verbatim>\<open>await\<close>
  stays (the health check, which makes no call, and the 400 guards of the two
  \<^verbatim>\<open>POST\<close>s), every other request ends in its \<^verbatim>\<open>catch\<close> with the route's
  message and 500, and nothing reaches the collections or the media host.
  \<open>catch_message\<close> is the message of each route's \<^verbatim>\<open>catch\<close> (the health
  check has none).
\<close>

fun catch_message :: "route \<Rightarrow> string" where
  "catch_message Health = []"
| "catch_message GalleryList = ''Failed to fetch images''"
| "catch_message GalleryPost = ''Failed to save image''"
| "catch_message (GalleryDelete _) = ''Delete failed''"
| "catch_message BlogList = ''Failed to fetch blogs''"
| "catch_message (BlogGet _) = ''Error fetching blog''"
| "catch_message AdminList = ''Failed to fetch blog list''"
| "catch_message BlogPost = ''Failed to create blog''"
| "catch_message (BlogDelete _) = ''Delete failed''"

definition handle_rejected :: "route \<Rightarrow> jsval \<Rightarrow> server \<Rightarrow> (nat \<times> payload) \<times> server" where
  "handle_rejected r b s =
     (case r of
        Health \<Rightarrow> ((200, PStatus ''API is running''), s)
      | GalleryPost \<Rightarrow>
          (if object_coercible b \<and> (\<not> truthy (get_prop b ''src'') \<or> \<not> truthy (get_prop b ''publicId''))
           then ((400, PMessage ''Missing image data''), s)
           else ((500, PMessage (catch_message r)), s))
      | BlogPost \<Rightarrow>
          (if object_coercible b \<and> \<not> blog_guard (blog_body_of b)
           then ((400, PMessage ''Missing required fields''), s)
           else ((500, PMessage (catch_message r)), s))
      | _ \<Rightarrow> ((500, PMessage (catch_message r)), s))"

fun handle_db :: "db_outcome \<Rightarrow> env \<Rightarrow> media_outcome \<Rightarrow> route \<Rightarrow> jsval \<Rightarrow> server \<Rightarrow> (nat \<times> payload) \<times> server" where
  "handle_db DbOk en mo r b s = handle en mo r b s"
| "handle_db DbRejects en mo r b s = handle_rejected r b s"

text \<open>
  One request, for any route handlers \<open>h\<close>: \<^verbatim>\<open>cors\<close> answers every
  \<^verbatim>\<open>OPTIONS\<close> request with 204 and sets the allow-origin header on every
  reply; then the router finds the route, or Express answers 404
  \<^verbatim>\<open>Cannot METHOD /path\<close> or 400 for an undecodable parameter.  The
  application serves a request with the handlers above, for the outcome its
  database call has.
\<close>

definition dispatch ::
  "(route \<Rightarrow> jsval \<Rightarrow> server \<Rightarrow> (nat \<times> payload) \<times> server) \<Rightarrow> server \<Rightarrow> request \<Rightarrow> reply \<times> server" where
  "dispatch h s rq =
     (let hdr = cors_allow_origin (origin rq) in
      if req_method rq = OPTIONS then (\<lparr>code = 204, payload = PEmpty, allow_origin = hdr\<rparr>, s)
      else
        case route_of (req_method rq) (path rq) of
          NoRoute \<Rightarrow>
            (\<lparr>code = 404,
              payload = PText (''Cannot '' @ method_name (req_method rq) @ '' '' @
                               takeWhile (\<lambda>c. c \<noteq> CHR ''?'') (path rq)),
              allow_origin = hdr\<rparr>, s)
        | BadParam \<Rightarrow> (\<lparr>code = 400, payload = PText ''Bad Request'', allow_origin = hdr\<rparr>, s)
        | Route r \<Rightarrow>
            (let ((c, p), s') = h r (body rq) s
             in (\<lparr>code = c, payload = p, allow_origin = hdr\<rparr>, s')))"

definition serve :: "db_outcome \<Rightarrow> env \<Rightarrow> media_outcome \<Rightarrow> server \<Rightarrow> request \<Rightarrow> reply \<times> server" where
  "serve dbo en mo s rq = dispatch (handle_db dbo en mo) s rq"

section \<open>Runs\<close>

text \<open>
  An event of a run: a request, served with the outcome of its database call,
  its environment and the outcome of any media-host call it makes, or an
  upload of an asset by the frontend.  Requests are served one after the
  other; their interleaving is the subject of theory \<open>Concurrency\<close>.
\<close>

datatype event = Request db_outcome env media_outcome request | Upload string

fun step :: "server \<Rightarrow> event \<Rightarrow> reply option \<times> server" where
  "step s (Request dbo en mo rq) = (let (r, s') = serve dbo en mo s rq in (Some r, s'))"
| "step s (Upload p) = (None, s\<lparr>host_assets := insert p (host_assets s)\<rparr>)"

fun run :: "server \<Rightarrow> event list \<Rightarrow> reply list \<times> server" where
  "run s [] = ([], s)"
| "run s (e # es) =
     (let (r, s') = step s e; (rs, s'') = run s' es
      in ((case r of None \<Rightarrow> rs | Some x \<Rightarrow> x # rs), s''))"

inductive reachable :: "server \<Rightarrow> bool" where
  init: "reachable init_server"
| step: "reachable s \<Longrightarrow> reachable (snd (step s e))"

definition server_inv :: "server \<Rightarrow> bool" where
  "server_inv s \<longleftrightarrow> blogs_inv (next_oid s) (blog_coll s) \<and> images_inv (next_oid s) (image_coll s)"

section \<open>Lemmas on dispatch and runs\<close>

lemma server_inv_init: "server_inv init_server"
  by (simp add: server_inv_def init_server_def blogs_inv_def images_inv_def)

lemma handle_inv:
  assumes "server_inv s"
  shows "server_inv (snd (handle en mo r b s))"
proof (cases r)
  case GalleryPost
  obtain res ims where po: "post_image en (next_oid s) b (image_coll s) = (res, ims)" by fastforce
  with assms have "images_inv (Suc (next_oid s)) ims" by (auto simp: server_inv_def intro: post_image_inv)
  with assms po GalleryPost show ?thesis
    by (auto simp: server_inv_def handle_def intro: blogs_inv_mono)
next
  case (GalleryDelete p)
  obtain res ims a where de: "delete_image mo p (image_coll s) (host_assets s) = (res, ims, a)"
    by (metis prod.exhaust)
  with assms have "images_inv (next_oid s) ims" by (auto simp: server_inv_def intro: delete_image_inv)
  with assms de GalleryDelete show ?thesis by (auto simp: server_inv_def handle_def)
next
  case BlogPost
  obtain res bs where cr: "create_blog en (next_oid s) b (blog_coll s) = (res, bs)" by fastforce
  with assms have "blogs_inv (Suc (next_oid s)) bs" by (auto simp: server_inv_def intro: create_blog_inv)
  with assms cr BlogPost show ?thesis
    by (auto simp: server_inv_def handle_def intro: images_inv_mono)
next
  case (BlogDelete p)
  obtain res bs where de: "delete_blog p (blog_coll s) = (res, bs)" by fastforce
  with assms have "blogs_inv (next_oid s) bs" using delete_blog_inv[of "next_oid s" "blog_coll s" p]
    by (auto simp: server_inv_def)
  with assms de BlogDelete show ?thesis by (auto simp: server_inv_def handle_def)
qed (use assms in \<open>simp_all add: handle_def\<close>)

lemma handle_rejected_state: "snd (handle_rejected r b s) = s"
  by (cases r) (simp_all add: handle_rejected_def)

lemma handle_db_inv: "server_inv s \<Longrightarrow> server_inv (snd (handle_db dbo en mo r b s))"
  by (cases dbo) (simp_all add: handle_inv handle_rejected_state)

lemma dispatch_cases:
  "snd (dispatch h s rq) = s \<or> (\<exists>r. route_of (req_method rq) (path rq) = Route r \<and> req_method rq \<noteq> OPTIONS
      \<and> snd (dispatch h s rq) = snd (h r (body rq) s))"
  by (auto simp: dispatch_def Let_def split: routed.splits prod.splits)

lemma serve_inv: "server_inv s \<Longrightarrow> server_inv (snd (serve dbo en mo s rq))"
  using dispatch_cases[of "handle_db dbo en mo" s rq] handle_db_inv unfolding serve_def by fastforce

lemma step_inv: "server_inv s \<Longrightarrow> server_inv (snd (step s e))"
proof (cases e)
  case (Request dbo en mo rq)
  assume "server_inv s"
  then show ?thesis using Request serve_inv[of s dbo en mo rq] by (simp add: split_def Let_def)
next
  case (Upload p)
  assume "server_inv s"
  with Upload show ?thesis by (simp add: server_inv_def)
qed

lemma lift_response_code: "fst (lift_response f res) = status res"
  by (cases res) simp_all

lemma handle_code_400:
  "fst (fst (handle en mo r b s)) = 400 \<Longrightarrow> r = GalleryPost \<or> r = BlogPost"
  by (cases r) (auto simp: handle_def split_def lift_response_code get_gallery_def get_blogs_def
      admin_blogs_def get_blog_def delete_blog_simps delete_image_def
      split: option.splits bool.splits prod.splits)

lemma post_image_400:
  "status (fst (post_image en i b ims)) = 400 \<longleftrightarrow>
     object_coercible b \<and> (\<not> truthy (get_prop b ''src'') \<or> \<not> truthy (get_prop b ''publicId''))"
  "status (fst (post_image en i b ims)) = 400 \<Longrightarrow> fst (post_image en i b ims) = Message 400 ''Missing image data''"
  by (auto simp: post_image_def Let_def split: if_splits sum.splits)

lemma create_blog_400:
  "status (fst (create_blog en i b bs)) = 400 \<longleftrightarrow> object_coercible b \<and> \<not> blog_guard (blog_body_of b)"
  "status (fst (create_blog en i b bs)) = 400 \<Longrightarrow> fst (create_blog en i b bs) = Message 400 ''Missing required fields''"
  by (auto simp: create_blog_def Let_def split: if_splits sum.splits option.splits)

lemma handle_rejected_reply:
  assumes "r \<noteq> Health"
  shows "fst (handle_rejected r b s) =
           (if fst (fst (handle en mo r b s)) = 400 then fst (handle en mo r b s)
            else (500, PMessage (catch_message r)))"
proof -
  consider "r = GalleryPost" | "r = BlogPost" | "\<not> (r = GalleryPost \<or> r = BlogPost)" by blast
  then show ?thesis
  proof cases
    case 1
    then show ?thesis using post_image_400[of en "next_oid s" b "image_coll s"]
      by (cases "status (fst (post_image en (next_oid s) b (image_coll s))) = 400")
         (simp_all add: handle_rejected_def handle_def split_def Let_def lift_response_code)
  next
    case 2
    then show ?thesis using create_blog_400[of en "next_oid s" b "blog_coll s"]
      by (cases "status (fst (create_blog en (next_oid s) b (blog_coll s))) = 400")
         (simp_all add: handle_rejected_def handle_def split_def Let_def lift_response_code)
  next
    case 3
    then have "fst (fst (handle en mo r b s)) \<noteq> 400" using handle_code_400 by blast
    with 3 assms show ?thesis by (cases r) (simp_all add: handle_rejected_def)
  qed
qed

section \<open>Properties of the server\<close>

text \<open>
  C1: In every state the server reaches from its start, by any sequence of
  requests and uploads, both collections hold well-formed documents with
  distinct keys, distinct unique fields and ObjectIds below the next one to be
  drawn.
\<close>

theorem reachable_server_inv: "reachable s \<Longrightarrow> server_inv s"
proof (induction rule: reachable.induct)
  case init
  show ?case by (rule server_inv_init)
next
  case (step s e)
  from step.IH show ?case by (rule step_inv)
qed

theorem reachable_server_inv_witness:
  "server_inv (snd (step (snd (step init_server (Upload ''events/a''))) (Upload ''events/b'')))"
  using reachable_server_inv[OF reachable.step[OF reachable.step[OF reachable.init]]] .

text \<open>
  C32: The \<^verbatim>\<open>cors\<close> middleware restricts nothing on the server: the state a
  request leaves behind, and the status and body of the reply, are the same
  whatever \<^verbatim>\<open>Origin\<close> the request carries; only the allow-origin header differs.
\<close>

theorem serve_origin_independent:
  "snd (serve dbo en mo s (rq\<lparr>origin := o1\<rparr>)) = snd (serve dbo en mo s (rq\<lparr>origin := o2\<rparr>))
   \<and> code (fst (serve dbo en mo s (rq\<lparr>origin := o1\<rparr>))) = code (fst (serve dbo en mo s (rq\<lparr>origin := o2\<rparr>)))
   \<and> payload (fst (serve dbo en mo s (rq\<lparr>origin := o1\<rparr>))) = payload (fst (serve dbo en mo s (rq\<lparr>origin := o2\<rparr>)))"
  by (simp add: serve_def dispatch_def Let_def split: routed.splits prod.splits)

text \<open>
  C33: \<^verbatim>\<open>GET\<close>, \<^verbatim>\<open>HEAD\<close> and \<^verbatim>\<open>OPTIONS\<close> requests never change the state,
  whatever the path and body, and neither does any request whose database call
  rejects, whatever its method.
\<close>

theorem serve_read_only:
  assumes "req_method rq = GET \<or> req_method rq = HEAD \<or> req_method rq = OPTIONS \<or> dbo = DbRejects"
  shows "snd (serve dbo en mo s rq) = s"
  using dispatch_cases[of "handle_db dbo en mo" s rq]
proof
  assume "snd (dispatch (handle_db dbo en mo) s rq) = s"
  then show ?thesis by (simp add: serve_def)
next
  assume "\<exists>r. route_of (req_method rq) (path rq) = Route r \<and> req_method rq \<noteq> OPTIONS
      \<and> snd (dispatch (handle_db dbo en mo) s rq) = snd (handle_db dbo en mo r (body rq) s)"
  then obtain r where r: "route_of (req_method rq) (path rq) = Route r" and ne: "req_method rq \<noteq> OPTIONS"
    and eq: "snd (serve dbo en mo s rq) = snd (handle_db dbo en mo r (body rq) s)"
    unfolding serve_def by blast
  show ?thesis
  proof (cases dbo)
    case DbRejects
    with eq show ?thesis by (simp add: handle_rejected_state)
  next
    case DbOk
    with assms ne have "req_method rq = GET \<or> req_method rq = HEAD" by simp
    with r have "r \<in> {Health, GalleryList, BlogList, AdminList} \<or> (\<exists>q. r = BlogGet q)"
      by (rule route_of_read)
    with eq DbOk show ?thesis by (auto simp: handle_def)
  qed
qed

theorem serve_read_only_witness:
  "req_method \<lparr>req_method = GET, path = ''/api/blogs'', body = JUndef, origin = None\<rparr> = GET
   \<and> snd (serve DbOk ex_env DestroyResolves init_server
           \<lparr>req_method = GET, path = ''/api/blogs'', body = JUndef, origin = None\<rparr>) = init_server
   \<and> snd (serve DbRejects ex_env DestroyResolves init_server
           \<lparr>req_method = POST, path = ''/api/blogs'', body = ex_body, origin = None\<rparr>) = init_server"
  using serve_read_only[of "\<lparr>req_method = GET, path = ''/api/blogs'', body = JUndef, origin = None\<rparr>"
      DbOk ex_env DestroyResolves init_server]
    serve_read_only[of "\<lparr>req_method = POST, path = ''/api/blogs'', body = ex_body, origin = None\<rparr>"
      DbRejects ex_env DestroyResolves init_server]
  by simp

text \<open>
  C20: When a request's database call rejects, the state is unchanged and the
  reply is what the database decides no more: the reply with a working database
  when that is the 400 of a guard that runs before the call, and otherwise the
  same reply with 500 and the message of the route's \<^verbatim>\<open>catch\<close>.
\<close>

theorem serve_rejected_reply:
  assumes r: "route_of (req_method rq) (path rq) = Route r" and ne: "req_method rq \<noteq> OPTIONS"
    and nh: "r \<noteq> Health"
  shows "snd (serve DbRejects en mo s rq) = s
         \<and> fst (serve DbRejects en mo s rq) =
             (if code (fst (serve DbOk en mo s rq)) = 400 then fst (serve DbOk en mo s rq)
              else (fst (serve DbOk en mo s rq))\<lparr>code := 500, payload := PMessage (catch_message r)\<rparr>)"
proof -
  have d: "serve dbo en mo s rq =
             (let ((c, p), s') = handle_db dbo en mo r (body rq) s
              in (\<lparr>code = c, payload = p, allow_origin = cors_allow_origin (origin rq)\<rparr>, s'))" for dbo
    using r ne by (simp add: serve_def dispatch_def Let_def)
  show ?thesis
    using handle_rejected_reply[OF nh, of "body rq" s en mo] handle_rejected_state[of r "body rq" s]
    unfolding d by (simp add: split_def Let_def)
qed

theorem serve_rejected_reply_witness:
  "route_of POST ''/api/blogs'' = Route BlogPost \<and> POST \<noteq> OPTIONS \<and> BlogPost \<noteq> Health
   \<and> code (fst (serve DbRejects ex_env DestroyResolves init_server
          \<lparr>req_method = POST, path = ''/api/blogs'', body = ex_body, origin = None\<rparr>)) = 500
   \<and> payload (fst (serve DbRejects ex_env DestroyResolves init_server
          \<lparr>req_method = POST, path = ''/api/blogs'', body = ex_body, origin = None\<rparr>))
       = PMessage ''Failed to create blog''
   \<and> snd (serve DbRejects ex_env DestroyResolves init_server
          \<lparr>req_method = POST, path = ''/api/blogs'', body = ex_body, origin = None\<rparr>) = init_server"
proof -
  have rt: "route_of POST ''/api/blogs'' = Route BlogPost" by code_simp
  have g: "blog_guard (blog_body_of ex_body)" by code_simp
  have ok: "code (fst (serve DbOk ex_env DestroyResolves init_server
              \<lparr>req_method = POST, path = ''/api/blogs'', body = ex_body, origin = None\<rparr>)) \<noteq> 400"
    using rt g create_blog_400(1)[of ex_env 0 ex_body "[]"]
    by (simp add: serve_def dispatch_def handle_def init_server_def split_def Let_def lift_response_code)
  from serve_rejected_reply[of "\<lparr>req_method = POST, path = ''/api/blogs'', body = ex_body, origin = None\<rparr>"
      BlogPost ex_env DestroyResolves init_server] rt ok
  show ?thesis by simp
qed

end
