(* ===== verification/Api.thy ===== *)
theory Api
  imports Server
begin

text \<open>
  The HTTP surface the specification promises (its table of routes): for each
  route the status and shape of a successful reply, and the statuses of its
  \<^verbatim>\<open>{ message }\<close> replies.  A reply is well typed when it has one of these
  shapes; the theorem below shows that every reply of \<open>serve\<close> is, whatever the database
  answers.
\<close>

fun success_payload :: "route \<Rightarrow> payload \<Rightarrow> bool" where
  "success_payload Health (PStatus _) = True"
| "success_payload GalleryList (PImages _) = True"
| "success_payload GalleryPost (PImage _) = True"
| "success_payload BlogList (PBlogs _) = True"
| "success_payload (BlogGet _) (PBlog _) = True"
| "success_payload AdminList (PSummaries _) = True"
| "success_payload BlogPost (PBlog _) = True"
| "success_payload _ _ = False"

fun success_code :: "route \<Rightarrow> nat" where
  "success_code GalleryPost = 201"
| "success_code BlogPost = 201"
| "success_code _ = 200"

fun message_codes :: "route \<Rightarrow> nat list" where
  "message_codes Health = []"
| "message_codes GalleryList = [500]"
| "message_codes GalleryPost = [400, 500]"
| "message_codes (GalleryDelete _) = [200, 404, 500]"
| "message_codes BlogList = [500]"
| "message_codes (BlogGet _) = [404, 500]"
| "message_codes AdminList = [500]"
| "message_codes BlogPost = [400, 409, 500]"
| "message_codes (BlogDelete _) = [200, 404, 500]"

definition reply_typed :: "route \<Rightarrow> nat \<Rightarrow> payload \<Rightarrow> bool" where
  "reply_typed r c p =
     (case p of
        PMessage _ \<Rightarrow> c \<in> set (message_codes r)
      | _ \<Rightarrow> c = success_code r \<and> success_payload r p)"

fun is_text :: "payload \<Rightarrow> bool" where
  "is_text (PText _) = True"
| "is_text _ = False"

definition api_typed :: "request \<Rightarrow> reply \<Rightarrow> bool" where
  "api_typed rq rp =
     (if req_method rq = OPTIONS then code rp = 204 \<and> payload rp = PEmpty
      else case route_of (req_method rq) (path rq) of
             NoRoute \<Rightarrow> code rp = 404 \<and> is_text (payload rp)
           | BadParam \<Rightarrow> code rp = 400 \<and> is_text (payload rp)
           | Route r \<Rightarrow> reply_typed r (code rp) (payload rp))"

section \<open>Lemmas\<close>

lemma lift_typed:
  assumes "\<And>c m. res = Message c m \<Longrightarrow> c \<in> set (message_codes r)"
    and "\<And>c x. res = Json c x \<Longrightarrow> c = success_code r \<and> success_payload r (f x)"
  shows "reply_typed r (fst (lift_response f res)) (snd (lift_response f res))"
  using assms by (cases res) (auto simp: reply_typed_def split: payload.split)

lemma post_image_codes:
  "fst (post_image en i bd ims) = Message c m \<Longrightarrow> c \<in> {400, 500}"
  "fst (post_image en i bd ims) = Json c x \<Longrightarrow> c = 201"
  by (auto simp: post_image_def Let_def split: if_splits sum.splits)

lemma create_blog_codes:
  "fst (create_blog en i bd bs) = Message c m \<Longrightarrow> c \<in> {400, 409, 500}"
  "fst (create_blog en i bd bs) = Json c x \<Longrightarrow> c = 201"
  by (auto simp: create_blog_def Let_def split: if_splits sum.splits option.splits)

lemma delete_image_codes:
  "fst (delete_image mo p ims a) = Message c m \<Longrightarrow> c \<in> {200, 404, 500}"
  "fst (delete_image mo p ims a) = Json c x \<Longrightarrow> False"
  by (auto simp: delete_image_def split: option.splits bool.splits prod.splits)

lemma delete_blog_codes:
  "fst (delete_blog p bs) = Message c m \<Longrightarrow> c \<in> {200, 404}"
  "fst (delete_blog p bs) = Json c x \<Longrightarrow> False"
  by (auto simp: delete_blog_simps split: option.splits)

lemma get_blog_codes:
  "get_blog p bs = Message c m \<Longrightarrow> c = 404"
  "get_blog p bs = Json c x \<Longrightarrow> c = 200"
  by (auto simp: get_blog_def split: option.splits)

lemma handle_typed: "reply_typed r (fst (fst (handle en mo r b s))) (snd (fst (handle en mo r b s)))"
proof (cases r)
  case GalleryPost
  then show ?thesis
    by (simp add: handle_def split_def Let_def) (rule lift_typed; auto dest: post_image_codes)
next
  case (GalleryDelete q)
  then show ?thesis
    by (simp add: handle_def split_def Let_def) (rule lift_typed; auto dest: delete_image_codes)
next
  case (BlogGet q)
  then show ?thesis
    by (simp add: handle_def) (rule lift_typed; auto dest: get_blog_codes)
next
  case BlogPost
  then show ?thesis
    by (simp add: handle_def split_def Let_def) (rule lift_typed; auto dest: create_blog_codes)
next
  case (BlogDelete q)
  then show ?thesis
    by (simp add: handle_def split_def Let_def) (rule lift_typed; auto dest: delete_blog_codes)
qed (simp_all add: handle_def reply_typed_def get_gallery_def get_blogs_def admin_blogs_def)

lemma handle_rejected_typed:
  "reply_typed r (fst (fst (handle_rejected r b s))) (snd (fst (handle_rejected r b s)))"
  by (cases r) (simp_all add: handle_rejected_def reply_typed_def)

lemma handle_db_typedD: "handle_db dbo en mo r b s = ((c, p), s') \<Longrightarrow> reply_typed r c p"
  using handle_typed[of r en mo b s] handle_rejected_typed[of r b s] by (cases dbo) simp_all

section \<open>The typed surface\<close>

text \<open>
  C8: Every reply the application sends has the status and shape the
  specification's table gives its route: the success status with a document
  or list of the route's type, or a \<^verbatim>\<open>{ message }\<close> with one of the route's
  error statuses; 204 for a preflight, 404 or 400 text from Express otherwise;
  also when the request's database call rejects.
\<close>

theorem serve_typed: "api_typed rq (fst (serve dbo en mo s rq))"
  by (auto simp: api_typed_def serve_def dispatch_def Let_def split: routed.split prod.split
      dest: handle_db_typedD)

end
