(* ===== verification/Concurrency.thy ===== *)
theory Concurrency
  imports Blog
begin

text \<open>
  The two \<^verbatim>\<open>await\<close>s of \<^verbatim>\<open>POST /api/blogs\<close> (lines 176 and 196 of
  \<^verbatim>\<open>src/server.js\<close>) split the handler in two stages: the check, up to
  \<^verbatim>\<open>Blog.findOne({ slug })\<close> and the building of the document, and the
  \<^verbatim>\<open>save()\<close>.  Node runs other requests between them.  A configuration holds
  the collection, the requests waiting in \<^verbatim>\<open>save()\<close> and the replies sent;
  a schedule is any list of arrivals and resumptions, so every interleaving of
  concurrent creations is one schedule.  Each request is tagged with the
  ObjectId it draws.
\<close>

datatype create_stage = Answered "blog response" | Saving blog

text \<open>Lines 158--194: everything before the \<^verbatim>\<open>save()\<close>, on the collection as the \<^verbatim>\<open>findOne\<close> sees it.\<close>

definition create_blog_check :: "env \<Rightarrow> oid \<Rightarrow> jsval \<Rightarrow> blog list \<Rightarrow> create_stage" where
  "create_blog_check en i body bs =
     (if \<not> object_coercible body then Answered (Message 500 ''Failed to create blog'')
      else
        let bb = blog_body_of body in
        if \<not> blog_guard bb then Answered (Message 400 ''Missing required fields'')
        else
          case cast_squery (in_slug bb) of
            Inl _ \<Rightarrow> Answered (Message 500 ''Failed to create blog'')
          | Inr q \<Rightarrow>
              (case find_one (\<lambda>b. squery_match q (slug b)) bs of
                 Some _ \<Rightarrow> Answered (Message 409 ''Slug already exists'')
               | None \<Rightarrow>
                   (case new_blog i (now en) (publish_date en bb) bb of
                      Inl _ \<Rightarrow> Answered (Message 500 ''Failed to create blog'')
                    | Inr b \<Rightarrow> Saving b)))"

text \<open>Lines 196--201: the \<^verbatim>\<open>save()\<close>, on the collection as it is when the write reaches it.\<close>

definition create_blog_save :: "blog \<Rightarrow> blog list \<Rightarrow> blog response \<times> blog list" where
  "create_blog_save b bs =
     (case insert_unique blog_clash b bs of
        Inl _ \<Rightarrow> (Message 500 ''Failed to create blog'', bs)
      | Inr bs' \<Rightarrow> (Json 201 b, bs'))"

record conf =
  store :: "blog list"
  next_tag :: oid
  pending :: "(oid \<times> blog) list"
  replies :: "(oid \<times> blog response) list"

definition init_conf :: conf where
  "init_conf = \<lparr>store = [], next_tag = 0, pending = [], replies = []\<rparr>"

datatype action = Arrive env jsval | Resume oid

fun act :: "action \<Rightarrow> conf \<Rightarrow> conf" where
  "act (Arrive en body) c =
     (let k = next_tag c; c' = c\<lparr>next_tag := Suc k\<rparr> in
      case create_blog_check en k body (store c) of
        Answered r \<Rightarrow> c'\<lparr>replies := replies c @ [(k, r)]\<rparr>
      | Saving b \<Rightarrow> c'\<lparr>pending := pending c @ [(k, b)]\<rparr>)"
| "act (Resume k) c =
     (case map_of (pending c) k of
        None \<Rightarrow> c
      | Some b \<Rightarrow>
          (let (r, bs') = create_blog_save b (store c)
           in c\<lparr>store := bs', pending := filter (\<lambda>(k', _). k' \<noteq> k) (pending c),
                replies := replies c @ [(k, r)]\<rparr>))"

definition conf_inv :: "conf \<Rightarrow> bool" where
  "conf_inv c \<longleftrightarrow> blogs_inv (next_tag c) (store c) \<and>
     (\<forall>(k, b) \<in> set (pending c). blog_valid b \<and> blog_id b < next_tag c)"

text \<open>
  The event loop resuming every request waiting in \<^verbatim>\<open>save()\<close>, oldest
  first; the tags of a configuration: each tag drawn so far belongs to exactly
  one reply or one waiting request.
\<close>

definition drain :: "conf \<Rightarrow> conf" where
  "drain c = fold act (map (\<lambda>(k, _). Resume k) (pending c)) c"

definition tags_inv :: "conf \<Rightarrow> bool" where
  "tags_inv c \<longleftrightarrow> distinct (map fst (replies c) @ map fst (pending c))
     \<and> set (map fst (replies c) @ map fst (pending c)) = {0..<next_tag c}"

section \<open>Lemmas\<close>

lemma create_blog_check_Saving:
  assumes "create_blog_check en i body bs = Saving b"
  shows "blog_id b = i \<and> blog_valid b \<and> (\<forall>b' \<in> set bs. slug b' \<noteq> slug b)"
proof -
  from assms obtain q where q: "cast_squery (get_prop body ''slug'') = Inr q"
    and none: "find_one (\<lambda>b. squery_match q (slug b)) bs = None"
    and nb: "new_blog i (now en) (publish_date en (blog_body_of body)) (blog_body_of body) = Inr b"
    by (auto simp: create_blog_check_def Let_def split: if_splits sum.splits option.splits)
  from nb have id: "blog_id b = i" and v: "blog_valid b"
    and sl: "cast_required (get_prop body ''slug'') = Inr (slug b)"
    using new_blog_Inr by fastforce+
  from sl have "cast_string (get_prop body ''slug'') = Inr (Some (slug b))"
    by (simp add: cast_required_Inr)
  with q have "\<And>x. squery_match q x \<longleftrightarrow> x = slug b" by (rule cast_squery_agrees)
  with none id v show ?thesis by (simp add: find_one_None)
qed

lemma create_blog_save_inv:
  assumes "blogs_inv n bs" and "blog_valid b" and "blog_id b < n"
  shows "blogs_inv n (snd (create_blog_save b bs))"
  using assms
  by (auto simp: create_blog_save_def insert_unique_def blogs_inv_def blog_clash_def list_ex_iff)

lemma act_inv: "conf_inv c \<Longrightarrow> conf_inv (act a c)"
proof (cases a)
  case (Arrive en body)
  assume inv: "conf_inv c"
  then have i: "blogs_inv (Suc (next_tag c)) (store c)" by (auto simp: conf_inv_def intro: blogs_inv_mono)
  show ?thesis
  proof (cases "create_blog_check en (next_tag c) body (store c)")
    case (Answered r)
    with inv i Arrive show ?thesis by (auto simp: conf_inv_def Let_def)
  next
    case (Saving b)
    then have "blog_id b = next_tag c" "blog_valid b" using create_blog_check_Saving by blast+
    with inv i Arrive Saving show ?thesis by (auto simp: conf_inv_def Let_def)
  qed
next
  case (Resume k)
  assume inv: "conf_inv c"
  show ?thesis
  proof (cases "map_of (pending c) k")
    case None
    with inv Resume show ?thesis by simp
  next
    case (Some b)
    then have "(k, b) \<in> set (pending c)" by (rule map_of_SomeD)
    with inv have "blogs_inv (next_tag c) (snd (create_blog_save b (store c)))"
      by (auto simp: conf_inv_def intro!: create_blog_save_inv)
    with inv Resume Some show ?thesis by (auto simp: conf_inv_def split_def Let_def)
  qed
qed

lemma fold_act_inv: "conf_inv c \<Longrightarrow> conf_inv (fold act as c)"
  by (induction as arbitrary: c) (simp_all add: act_inv)

lemma set_fst_filter: "fst ` set (filter (\<lambda>(k', _). k' \<noteq> k) ps) = fst ` set ps - {k}"
  by force

lemma distinct_fst_filter: "distinct (map fst ps) \<Longrightarrow> distinct (map fst (filter (\<lambda>(k', _). k' \<noteq> k) ps))"
  by (induction ps) (auto simp: set_fst_filter)

lemma act_tags_inv: "tags_inv c \<Longrightarrow> tags_inv (act a c)"
proof (cases a)
  case (Arrive en body)
  assume "tags_inv c"
  with Arrive show ?thesis
    by (auto simp: tags_inv_def Let_def split: create_stage.splits)
next
  case (Resume k)
  assume inv: "tags_inv c"
  show ?thesis
  proof (cases "map_of (pending c) k")
    case None
    with inv Resume show ?thesis by simp
  next
    case (Some b)
    then have k: "k \<in> fst ` set (pending c)" by (force dest: map_of_SomeD)
    with inv have "k \<notin> fst ` set (replies c)" by (auto simp: tags_inv_def)
    moreover from inv have "distinct (map fst (filter (\<lambda>(k', _). k' \<noteq> k) (pending c)))"
      by (simp add: tags_inv_def distinct_fst_filter)
    moreover have "fst ` set (filter (\<lambda>(k', _). k' \<noteq> k) (pending c)) = fst ` set (pending c) - {k}"
      by (rule set_fst_filter)
    ultimately show ?thesis using inv Resume Some k
      by (auto simp: tags_inv_def split_def Let_def)
  qed
qed

lemma fold_act_tags_inv: "tags_inv c \<Longrightarrow> tags_inv (fold act as c)"
  by (induction as arbitrary: c) (simp_all add: act_tags_inv)

lemma next_tag_resume: "next_tag (act (Resume k) c) = next_tag c"
  by (simp add: split_def Let_def split: option.split)

lemma resume_all:
  "pending c = ps \<Longrightarrow> distinct (map fst ps) \<Longrightarrow>
   pending (fold act (map (\<lambda>(k, _). Resume k) ps) c) = []
   \<and> next_tag (fold act (map (\<lambda>(k, _). Resume k) ps) c) = next_tag c"
proof (induction ps arbitrary: c)
  case (Cons p ps)
  obtain k b where p: "p = (k, b)" by fastforce
  with Cons.prems have "k \<notin> fst ` set ps" by simp
  then have "filter (\<lambda>(k', _). k' \<noteq> k) ps = ps" by (force simp: filter_id_conv)
  with Cons.prems p have "pending (act (Resume k) c) = ps"
    by (simp add: split_def Let_def)
  with Cons.IH[of "act (Resume k) c"] Cons.prems p next_tag_resume[of k c] show ?case
    by (simp del: act.simps)
qed simp

section \<open>Properties of concurrent creation\<close>

text \<open>
  C11: Under every interleaving of concurrent creations the unique index keeps
  the collection well formed: slugs and ids stay distinct and every stored post
  has its required fields.
\<close>

theorem interleaved_blogs_inv:
  "blogs_inv (next_tag (fold act as init_conf)) (store (fold act as init_conf))"
proof -
  have "conf_inv init_conf" by (simp add: conf_inv_def init_conf_def blogs_inv_def)
  then show ?thesis using fold_act_inv[of init_conf as] by (simp add: conf_inv_def)
qed

theorem interleaved_blogs_inv_witness:
  "blogs_inv (next_tag (fold act [Arrive ex_env ex_body, Arrive ex_env ex_body, Resume 0, Resume 1] init_conf))
     (store (fold act [Arrive ex_env ex_body, Arrive ex_env ex_body, Resume 0, Resume 1] init_conf))"
  by (rule interleaved_blogs_inv)

text \<open>
  C10: Two requests creating the same new slug, both checked before either is
  saved, are not answered 201 and 409: the first is stored and answered 201,
  the second is refused by the unique index and answered 500, where the
  specification promises Conflict.
\<close>

theorem create_race_500:
  assumes inv: "blogs_inv (next_tag c) (store c)" and np: "pending c = []"
    and c1: "create_blog_check en1 (next_tag c) b1 (store c) = Saving x1"
    and c2: "create_blog_check en2 (Suc (next_tag c)) b2 (store c) = Saving x2"
    and sl: "slug x2 = slug x1"
  shows "replies (fold act [Arrive en1 b1, Arrive en2 b2, Resume (next_tag c), Resume (Suc (next_tag c))] c)
           = replies c @ [(next_tag c, Json 201 x1), (Suc (next_tag c), Message 500 ''Failed to create blog'')]
         \<and> store (fold act [Arrive en1 b1, Arrive en2 b2, Resume (next_tag c), Resume (Suc (next_tag c))] c)
           = store c @ [x1]"
proof -
  from c1 have id1: "blog_id x1 = next_tag c" and fresh: "\<forall>b' \<in> set (store c). slug b' \<noteq> slug x1"
    using create_blog_check_Saving by blast+
  from inv id1 fresh have s1: "create_blog_save x1 (store c) = (Json 201 x1, store c @ [x1])"
    by (auto simp: create_blog_save_def insert_unique_def blogs_inv_def blog_clash_def list_ex_iff)
  from sl have s2: "create_blog_save x2 (store c @ [x1]) = (Message 500 ''Failed to create blog'', store c @ [x1])"
    by (simp add: create_blog_save_def insert_unique_def blog_clash_def)
  from np c1 c2 s1 s2 show ?thesis by (simp add: Let_def)
qed

theorem create_race_500_witness:
  "replies (fold act [Arrive ex_env ex_body, Arrive ex_env ex_body, Resume 0, Resume 1] init_conf)
     = [(0, Json 201 ex_post), (1, Message 500 ''Failed to create blog'')]"
proof -
  have c1: "create_blog_check ex_env 0 ex_body [] = Saving ex_post"
    by (simp add: create_blog_check_def blog_eval_simps)
  have c2: "create_blog_check ex_env 1 ex_body [] = Saving (ex_post\<lparr>blog_id := 1\<rparr>)"
    by (simp add: create_blog_check_def blog_eval_simps)
  show ?thesis
    using create_race_500[of init_conf ex_env ex_body ex_post ex_env ex_body "ex_post\<lparr>blog_id := 1\<rparr>"] c1 c2
    by (simp add: init_conf_def blogs_inv_def)
qed

text \<open>
  C28: Every creation request is answered exactly once: after any schedule,
  once the event loop has resumed every request waiting in \<^verbatim>\<open>save()\<close>,
  nothing is left waiting and the replies carry each drawn tag exactly once.
\<close>

theorem drain_answers_all:
  "pending (drain (fold act as init_conf)) = []
   \<and> distinct (map fst (replies (drain (fold act as init_conf))))
   \<and> set (map fst (replies (drain (fold act as init_conf)))) = {0..<next_tag (fold act as init_conf)}"
proof -
  let ?c = "fold act as init_conf"
  have "tags_inv init_conf" by (simp add: tags_inv_def init_conf_def)
  then have i: "tags_inv ?c" by (rule fold_act_tags_inv)
  then have "distinct (map fst (pending ?c))" by (simp add: tags_inv_def)
  then have r: "pending (drain ?c) = [] \<and> next_tag (drain ?c) = next_tag ?c"
    by (simp add: drain_def resume_all)
  from i have "tags_inv (drain ?c)" by (simp add: drain_def fold_act_tags_inv)
  with r show ?thesis by (simp add: tags_inv_def)
qed

end
