(* ===== verification/Gallery_Stages.thy ===== *)
theory Gallery_Stages
  imports Gallery
begin

text \<open>
  \<^verbatim>\<open>DELETE /api/gallery/:id\<close> (lines 103--119 of \<^verbatim>\<open>src/server.js\<close>) awaits
  three calls: \<^verbatim>\<open>GalleryImage.findById\<close>, \<^verbatim>\<open>cloudinary.uploader.destroy\<close>
  and \<^verbatim>\<open>GalleryImage.findByIdAndDelete\<close>.  Node serves other requests
  between them, and each database call may reject as well as the media call.
  Here the handler is cut at its awaits; a configuration holds the records,
  the hosted assets, the deletions waiting at an await and the replies sent,
  and a schedule interleaves deletions with registrations
  (\<^verbatim>\<open>POST /api/gallery\<close>, one await) and uploads by the frontend.
\<close>

text \<open>Lines 105--106: \<^verbatim>\<open>findById\<close> casts the id (a failing cast rejects) and reads the record.\<close>

definition delete_find :: "db_outcome \<Rightarrow> string \<Rightarrow> image list \<Rightarrow> image response + oid \<times> image" where
  "delete_find db p ims =
     (case cast_oid p of
        None \<Rightarrow> Inl (Message 500 ''Delete failed'')
      | Some k \<Rightarrow>
          (case db of
             DbRejects \<Rightarrow> Inl (Message 500 ''Delete failed'')
           | DbOk \<Rightarrow>
               (case find_one (\<lambda>m. img_id m = k) ims of
                  None \<Rightarrow> Inl (Message 404 ''Image not found'')
                | Some m \<Rightarrow> Inr (k, m))))"

text \<open>
  Lines 112--114: \<^verbatim>\<open>findByIdAndDelete\<close> and the reply.  The code does not look
  at its result: a record already gone is still answered 200.
\<close>

definition delete_record :: "db_outcome \<Rightarrow> oid \<Rightarrow> image list \<Rightarrow> image response \<times> image list" where
  "delete_record db k ims =
     (case db of
        DbRejects \<Rightarrow> (Message 500 ''Delete failed'', ims)
      | DbOk \<Rightarrow> (Message 200 ''Image deleted successfully'', snd (find_one_and_delete (\<lambda>m. img_id m = k) ims)))"

text \<open>A deletion waiting in \<^verbatim>\<open>destroy\<close> (line 109) with the record it read, or in \<^verbatim>\<open>findByIdAndDelete\<close> (line 112).\<close>

datatype del_stage = AtDestroy oid image | AtDelete oid

record gconf =
  gims :: "image list"
  gassets :: assets
  gnext :: oid
  gpending :: "(nat \<times> del_stage) list"
  greplies :: "(nat \<times> image response) list"

definition init_gconf :: gconf where
  "init_gconf = \<lparr>gims = [], gassets = {}, gnext = 0, gpending = [], greplies = []\<rparr>"

datatype gaction =
    GArrive string db_outcome
  | GDestroyed nat media_outcome
  | GDeleted nat db_outcome
  | GPost env jsval
  | GUpload string

definition drop_tag :: "nat \<Rightarrow> (nat \<times> del_stage) list \<Rightarrow> (nat \<times> del_stage) list" where
  "drop_tag t ps = filter (\<lambda>(t', _). t' \<noteq> t) ps"

text \<open>
  One action: a deletion arrives and \<^verbatim>\<open>findById\<close> reads; the \<^verbatim>\<open>destroy\<close>
  of a waiting deletion settles; its \<^verbatim>\<open>findByIdAndDelete\<close> settles; a
  registration runs (its only await is the insert); the frontend uploads an
  asset.  A request is tagged with the counter, which also supplies the
  ObjectIds of new records.
\<close>

fun gact :: "gaction \<Rightarrow> gconf \<Rightarrow> gconf" where
  "gact (GArrive p db) c =
     (let t = gnext c; c' = c\<lparr>gnext := Suc t\<rparr> in
      case delete_find db p (gims c) of
        Inl r \<Rightarrow> c'\<lparr>greplies := greplies c @ [(t, r)]\<rparr>
      | Inr (k, m) \<Rightarrow> c'\<lparr>gpending := gpending c @ [(t, AtDestroy k m)]\<rparr>)"
| "gact (GDestroyed t mo) c =
     (case map_of (gpending c) t of
        Some (AtDestroy k m) \<Rightarrow>
          (case destroy mo (publicId m) (gassets c) of
             (False, a') \<Rightarrow>
               c\<lparr>gassets := a', gpending := drop_tag t (gpending c),
                 greplies := greplies c @ [(t, Message 500 ''Delete failed'')]\<rparr>
           | (True, a') \<Rightarrow> c\<lparr>gassets := a', gpending := drop_tag t (gpending c) @ [(t, AtDelete k)]\<rparr>)
      | _ \<Rightarrow> c)"
| "gact (GDeleted t db) c =
     (case map_of (gpending c) t of
        Some (AtDelete k) \<Rightarrow>
          (let (r, ims') = delete_record db k (gims c)
           in c\<lparr>gims := ims', gpending := drop_tag t (gpending c), greplies := greplies c @ [(t, r)]\<rparr>)
      | _ \<Rightarrow> c)"
| "gact (GPost en body) c =
     (let t = gnext c; (r, ims') = post_image en t body (gims c)
      in c\<lparr>gims := ims', gnext := Suc t, greplies := greplies c @ [(t, r)]\<rparr>)"
| "gact (GUpload p) c = c\<lparr>gassets := insert p (gassets c)\<rparr>"

text \<open>
  A deletion of record \<open>k\<close> is in flight past its \<^verbatim>\<open>destroy\<close>.  The invariant
  of a configuration: the collection invariant, distinct \<open>publicId\<close>s, every
  record's asset hosted unless its deletion is in flight, and for each waiting
  deletion what it read is still the record of its id, or gone with its asset.
\<close>

definition inflight :: "gconf \<Rightarrow> oid \<Rightarrow> bool" where
  "inflight c k \<longleftrightarrow> list_ex (\<lambda>(t, st). st = AtDelete k) (gpending c)"

fun stage_ok :: "gconf \<Rightarrow> del_stage \<Rightarrow> bool" where
  "stage_ok c (AtDestroy k m) \<longleftrightarrow>
     img_id m = k \<and> k < gnext c \<and> (k \<in> img_id ` set (gims c) \<longrightarrow> m \<in> set (gims c)) \<and>
     (m \<notin> set (gims c) \<longrightarrow> publicId m \<notin> gassets c \<and> publicId m \<notin> publicId ` set (gims c))"
| "stage_ok c (AtDelete k) \<longleftrightarrow>
     k < gnext c \<and> (\<forall>r \<in> set (gims c). img_id r = k \<longrightarrow> publicId r \<notin> gassets c)"

definition gtags_ok :: "gconf \<Rightarrow> bool" where
  "gtags_ok c \<longleftrightarrow> distinct (map fst (gpending c)) \<and> (\<forall>(t, _) \<in> set (gpending c). t < gnext c)"

definition ginv :: "gconf \<Rightarrow> bool" where
  "ginv c \<longleftrightarrow> images_inv (gnext c) (gims c) \<and> distinct (map publicId (gims c)) \<and>
     (\<forall>m \<in> set (gims c). publicId m \<in> gassets c \<or> inflight c (img_id m)) \<and>
     (\<forall>(t, st) \<in> set (gpending c). stage_ok c st)"

text \<open>
  The conditions of the consistency claim on each action, checked in the
  state where it runs: the media host neither loses a reply nor the database
  rejects the final delete; a registered image names a hosted asset no record
  names; an upload brings a fresh \<open>publicId\<close>.
\<close>

definition pending_pids :: "gconf \<Rightarrow> string set" where
  "pending_pids c = {publicId m | t k m. (t, AtDestroy k m) \<in> set (gpending c)}"

fun clean_act :: "gconf \<Rightarrow> gaction \<Rightarrow> bool" where
  "clean_act c (GArrive p db) = True"
| "clean_act c (GDestroyed t mo) = (mo \<noteq> DestroyLost)"
| "clean_act c (GDeleted t db) = (db = DbOk)"
| "clean_act c (GPost en body) =
     (case fst (post_image en (gnext c) body (gims c)) of
        Json _ m \<Rightarrow> publicId m \<in> gassets c \<and> publicId m \<notin> publicId ` set (gims c)
      | Message _ _ \<Rightarrow> True)"
| "clean_act c (GUpload p) = (p \<notin> publicId ` set (gims c) \<and> p \<notin> pending_pids c)"

fun clean_run :: "gconf \<Rightarrow> gaction list \<Rightarrow> bool" where
  "clean_run c [] = True"
| "clean_run c (a # as) = (clean_act c a \<and> clean_run (gact a c) as)"

section \<open>Examples\<close>

abbreviation ex_img_body :: jsval where
  "ex_img_body \<equiv> JObj [(''src'', JStr ''https://x/y.jpg''), (''publicId'', JStr ''events/y'')]"

section \<open>Lemmas\<close>

lemma delete_find_DbOk:
  "delete_find DbOk p ims =
     (case cast_oid p of
        None \<Rightarrow> Inl (Message 500 ''Delete failed'')
      | Some k \<Rightarrow> (case find (\<lambda>m. img_id m = k) ims of None \<Rightarrow> Inl (Message 404 ''Image not found'') | Some m \<Rightarrow> Inr (k, m)))"
  by (simp add: delete_find_def find_one_def split: option.split)

lemma stage_ok_frame:
  "stage_ok c st \<Longrightarrow> gims c' = gims c \<Longrightarrow> gassets c' \<subseteq> gassets c \<Longrightarrow> gnext c \<le> gnext c' \<Longrightarrow> stage_ok c' st"
  by (cases st) auto

lemma ginv_frame:
  assumes inv: "ginv c" and "gims c' = gims c" and "gassets c' = gassets c" and "gnext c \<le> gnext c'"
    and "\<And>k. inflight c k \<Longrightarrow> inflight c' k"
    and "\<And>t st. (t, st) \<in> set (gpending c') \<Longrightarrow> (t, st) \<in> set (gpending c) \<or> stage_ok c' st"
  shows "ginv c'"
proof -
  from inv have st: "\<And>t st. (t, st) \<in> set (gpending c) \<Longrightarrow> stage_ok c st" by (auto simp: ginv_def)
  have p: "\<forall>(t, st) \<in> set (gpending c'). stage_ok c' st"
  proof (intro ballI, clarify)
    fix t st assume "(t, st) \<in> set (gpending c')"
    from assms(6)[OF this] show "stage_ok c' st"
    proof
      assume "(t, st) \<in> set (gpending c)"
      from st[OF this] assms(2) show ?thesis by (rule stage_ok_frame) (use assms(3,4) in simp_all)
    qed
  qed
  from inv assms(2-4) have i: "images_inv (gnext c') (gims c')"
    by (auto simp: ginv_def images_inv_def)
  from inv assms(2,3,5) have a: "\<forall>m \<in> set (gims c'). publicId m \<in> gassets c' \<or> inflight c' (img_id m)"
    by (auto simp: ginv_def)
  from inv assms(2) have "distinct (map publicId (gims c'))" by (simp add: ginv_def)
  with i a p show ?thesis by (simp add: ginv_def)
qed

lemma delete_find_Inr:
  "delete_find db p ims = Inr (k, m) \<Longrightarrow> m \<in> set ims \<and> img_id m = k"
  by (auto simp: delete_find_def find_one_def find_Some_iff split: option.splits db_outcome.splits)

lemma ginv_arrive_Inl:
  assumes inv: "ginv c" and r: "delete_find db p (gims c) = Inl r"
  shows "ginv (gact (GArrive p db) c)"
proof -
  define c' where "c' = c\<lparr>gnext := Suc (gnext c), greplies := greplies c @ [(gnext c, r)]\<rparr>"
  have g: "gact (GArrive p db) c = c'" using r by (simp add: Let_def c'_def)
  have pc: "gpending c' = gpending c" by (simp add: c'_def)
  have gc: "ginv c'"
  proof (rule ginv_frame[OF inv])
    fix t st
    assume "(t, st) \<in> set (gpending c')"
    with pc show "(t, st) \<in> set (gpending c) \<or> stage_ok c' st" by simp
  next
    fix j assume "inflight c j"
    with pc show "inflight c' j" by (simp add: inflight_def)
  qed (simp_all add: c'_def)
  with g show ?thesis by simp
qed

lemma ginv_arrive_Inr:
  assumes inv: "ginv c" and km: "delete_find db p (gims c) = Inr (k, m)"
  shows "ginv (gact (GArrive p db) c)"
proof -
  define c' where "c' = c\<lparr>gnext := Suc (gnext c), gpending := gpending c @ [(gnext c, AtDestroy k m)]\<rparr>"
  have g: "gact (GArrive p db) c = c'" using km by (simp add: Let_def c'_def)
  from km have m: "m \<in> set (gims c)" "img_id m = k" by (auto dest: delete_find_Inr)
  from inv m have d: "distinct (map img_id (gims c))" and lt: "k < gnext c"
    by (auto simp: ginv_def images_inv_def)
  have new: "stage_ok c' (AtDestroy k m)"
  proof -
    have "stage_ok c (AtDestroy k m)" unfolding stage_ok.simps
    proof (intro conjI)
      show "img_id m = k" by (fact m(2))
      show "k < gnext c" by (fact lt)
      show "k \<in> img_id ` set (gims c) \<longrightarrow> m \<in> set (gims c)" using m(1) by simp
      show "m \<notin> set (gims c) \<longrightarrow> publicId m \<notin> gassets c \<and> publicId m \<notin> publicId ` set (gims c)"
        using m(1) by simp
    qed
    then show ?thesis by (rule stage_ok_frame) (simp_all add: c'_def)
  qed
  have pc: "gpending c' = gpending c @ [(gnext c, AtDestroy k m)]" by (simp add: c'_def)
  have gc: "ginv c'"
  proof (rule ginv_frame[OF inv])
    fix t st
    assume "(t, st) \<in> set (gpending c')"
    with pc have "(t, st) \<in> set (gpending c) \<or> st = AtDestroy k m" by auto
    with new show "(t, st) \<in> set (gpending c) \<or> stage_ok c' st" by blast
  next
    fix j assume "inflight c j"
    with pc show "inflight c' j" by (auto simp: inflight_def)
  qed (simp_all add: c'_def)
  with g show ?thesis by simp
qed

lemma ginv_upload:
  assumes inv: "ginv c" and cl: "clean_act c (GUpload p)"
  shows "ginv (gact (GUpload p) c)"
proof -
  define c' where "c' = c\<lparr>gassets := insert p (gassets c)\<rparr>"
  from cl have p1: "p \<notin> publicId ` set (gims c)" and p2: "p \<notin> pending_pids c" by simp_all
  have "stage_ok c' st" if "(t, st) \<in> set (gpending c)" for t st
  proof (cases st)
    case (AtDestroy k m)
    with that p2 have "publicId m \<noteq> p" by (auto simp: pending_pids_def)
    moreover from inv that AtDestroy have "stage_ok c (AtDestroy k m)" by (auto simp: ginv_def)
    ultimately show ?thesis using AtDestroy by (simp add: c'_def)
  next
    case (AtDelete k)
    from inv that AtDelete have "stage_ok c (AtDelete k)" by (auto simp: ginv_def)
    with p1 AtDelete show ?thesis by (force simp: c'_def)
  qed
  moreover have "gpending c' = gpending c" "gims c' = gims c" "gnext c' = gnext c"
    "gassets c' = insert p (gassets c)" by (simp_all add: c'_def)
  moreover have "inflight c' j = inflight c j" for j by (simp add: inflight_def c'_def)
  ultimately have "ginv c'" using inv by (auto simp: ginv_def)
  then show ?thesis by (simp add: c'_def)
qed

lemma stage_ok_add:
  assumes "stage_ok c st" and "gims c' = gims c @ [m]" and "gassets c' = gassets c"
    and "gnext c' = Suc (gnext c)" and "img_id m = gnext c" and "publicId m \<in> gassets c"
  shows "stage_ok c' st"
  using assms by (cases st) auto

lemma ginv_post:
  assumes inv: "ginv c" and cl: "clean_act c (GPost en body)"
  shows "ginv (gact (GPost en body) c)"
proof -
  obtain r ims' where po: "post_image en (gnext c) body (gims c) = (r, ims')" by fastforce
  define c' where "c' = c\<lparr>gims := ims', gnext := Suc (gnext c), greplies := greplies c @ [(gnext c, r)]\<rparr>"
  have g: "gact (GPost en body) c = c'" using po by (simp add: Let_def c'_def)
  from inv po have ii: "images_inv (gnext c') (gims c')"
    by (auto simp: ginv_def c'_def intro: post_image_inv)
  have pc: "gpending c' = gpending c" and ac: "gassets c' = gassets c" by (simp_all add: c'_def)
  have inf: "inflight c' j = inflight c j" for j by (simp add: inflight_def pc)
  show ?thesis
  proof (cases r)
    case (Message n msg)
    with po have ims': "ims' = gims c" using post_image_Message by blast
    have "ginv c'"
    proof (rule ginv_frame[OF inv])
      fix t st assume "(t, st) \<in> set (gpending c')"
      with pc show "(t, st) \<in> set (gpending c) \<or> stage_ok c' st" by simp
    qed (simp_all add: c'_def ims' inflight_def)
    with g show ?thesis by simp
  next
    case (Json n m)
    with po have ims': "ims' = gims c @ [m]"
      and nm: "new_image (gnext c) (now en) (get_prop body ''src'') (get_prop body ''publicId'') (get_prop body ''alt'') = Inr m"
      using post_image_Json by blast+
    from nm have mid: "img_id m = gnext c" by (simp add: new_image_Inr)
    from cl po Json have pa: "publicId m \<in> gassets c" and pf: "publicId m \<notin> publicId ` set (gims c)"
      by simp_all
    have st: "stage_ok c' st" if "(t, st) \<in> set (gpending c')" for t st
    proof -
      from that pc inv have "stage_ok c st" by (auto simp: ginv_def)
      then show ?thesis by (rule stage_ok_add[where m = m]) (use mid pa in \<open>simp_all add: c'_def ims'\<close>)
    qed
    have gi: "gims c' = gims c @ [m]" by (simp add: c'_def ims')
    from inv pf have "distinct (map publicId (gims c'))" by (simp add: ginv_def gi)
    moreover from inv pa have "\<forall>x \<in> set (gims c'). publicId x \<in> gassets c' \<or> inflight c' (img_id x)"
      by (auto simp: ginv_def gi ac inf)
    ultimately have "ginv c'" using ii st by (auto simp: ginv_def)
    with g show ?thesis by simp
  qed
qed

lemma set_drop_tag: "set (drop_tag t ps) = {x \<in> set ps. fst x \<noteq> t}"
  by (auto simp: drop_tag_def)

lemma distinct_drop_tag: "distinct (map fst ps) \<Longrightarrow> distinct (map fst (drop_tag t ps))"
  by (induction ps) (auto simp: drop_tag_def)

lemma drop_tag_unique:
  "distinct (map fst ps) \<Longrightarrow> (t, x) \<in> set ps \<Longrightarrow> set (drop_tag t ps) = set ps - {(t, x)}"
  by (auto simp: set_drop_tag eq_key_imp_eq_value)

lemma gact_tags_ok: "gtags_ok c \<Longrightarrow> gtags_ok (gact a c)"
proof (cases a)
  case (GArrive p db)
  assume "gtags_ok c"
  with GArrive show ?thesis
    by (cases "delete_find db p (gims c)") (fastforce simp: gtags_ok_def Let_def)+
next
  case (GDestroyed t mo)
  assume "gtags_ok c"
  with GDestroyed show ?thesis
    by (auto simp: gtags_ok_def set_drop_tag distinct_drop_tag dest: map_of_SomeD
             split: option.splits del_stage.splits prod.splits bool.splits)
next
  case (GDeleted t db)
  assume "gtags_ok c"
  with GDeleted show ?thesis
    by (auto simp: gtags_ok_def set_drop_tag distinct_drop_tag Let_def split_def
             split: option.splits del_stage.splits)
next
  case (GPost en body)
  assume "gtags_ok c"
  with GPost show ?thesis by (auto simp: gtags_ok_def Let_def split_def)
qed (simp add: gtags_ok_def)

lemma ginv_destroy_rejects:
  assumes inv: "ginv c" and mem: "(t, AtDestroy k m) \<in> set (gpending c)"
    and dt: "distinct (map fst (gpending c))"
  shows "ginv (c\<lparr>gpending := drop_tag t (gpending c),
                   greplies := greplies c @ [(t, Message 500 ''Delete failed'')]\<rparr>)"
proof -
  define c' where "c' = c\<lparr>gpending := drop_tag t (gpending c),
                    greplies := greplies c @ [(t, Message 500 ''Delete failed'')]\<rparr>"
  have pc: "set (gpending c') = set (gpending c) - {(t, AtDestroy k m)}"
    using drop_tag_unique[OF dt mem] by (simp add: c'_def)
  have "ginv c'"
  proof (rule ginv_frame[OF inv])
    fix j assume "inflight c j"
    with pc show "inflight c' j" by (auto simp: inflight_def list_ex_iff)
  next
    fix t' st assume "(t', st) \<in> set (gpending c')"
    with pc show "(t', st) \<in> set (gpending c) \<or> stage_ok c' st" by blast
  qed (simp_all add: c'_def)
  then show ?thesis by (simp add: c'_def)
qed

text \<open>
  While a deletion waits for its media call, the record it read is the only
  one naming that asset, and the only one with that id.
\<close>

lemma stage_destroy_pid:
  assumes dp: "distinct (map publicId (gims c))" and sk: "stage_ok c (AtDestroy k m)"
    and x: "x \<in> set (gims c)" "publicId x = publicId m"
  shows "x = m"
proof (cases "m \<in> set (gims c)")
  case True
  with x dp show ?thesis by (auto simp: distinct_map dest: inj_onD)
next
  case False
  with sk have "publicId m \<notin> publicId ` set (gims c)" by simp
  with x show ?thesis by (metis image_eqI)
qed

lemma stage_destroy_id:
  assumes di: "distinct (map img_id (gims c))" and sk: "stage_ok c (AtDestroy k m)"
    and r: "r \<in> set (gims c)" "img_id r = k"
  shows "r = m"
proof -
  from r sk have "m \<in> set (gims c)" and "img_id m = k" by auto
  with r di show ?thesis by (auto simp: distinct_map dest: inj_onD)
qed

lemma ginv_destroy_resolves:
  assumes inv: "ginv c" and mem: "(t, AtDestroy k m) \<in> set (gpending c)"
    and dt: "distinct (map fst (gpending c))"
  shows "ginv (c\<lparr>gassets := gassets c - {publicId m},
                   gpending := drop_tag t (gpending c) @ [(t, AtDelete k)]\<rparr>)"
proof -
  have dset: "set (drop_tag t (gpending c)) = set (gpending c) - {(t, AtDestroy k m)}"
    using dt mem by (rule drop_tag_unique)
  from inv mem have sk: "stage_ok c (AtDestroy k m)" by (auto simp: ginv_def)
  then have mk: "img_id m = k" and kl: "k < gnext c" by simp_all
  define c' where "c' = c\<lparr>gassets := gassets c - {publicId m},
                    gpending := drop_tag t (gpending c) @ [(t, AtDelete k)]\<rparr>"
  have pc: "set (gpending c') = (set (gpending c) - {(t, AtDestroy k m)}) \<union> {(t, AtDelete k)}"
    by (auto simp: c'_def dset)
  have ic: "gims c' = gims c" and nc: "gnext c' = gnext c" and ac: "gassets c' = gassets c - {publicId m}"
    by (simp_all add: c'_def)
  have inf: "inflight c' j \<longleftrightarrow> inflight c j \<or> j = k" for j
    using pc by (auto simp: inflight_def list_ex_iff)
  from inv have dp: "distinct (map publicId (gims c))" and di: "distinct (map img_id (gims c))"
    by (auto simp: ginv_def images_inv_def)
  note only = stage_destroy_pid[OF dp sk]
  have cov: "\<forall>x \<in> set (gims c'). publicId x \<in> gassets c' \<or> inflight c' (img_id x)"
  proof
    fix x assume x: "x \<in> set (gims c')"
    show "publicId x \<in> gassets c' \<or> inflight c' (img_id x)"
    proof (cases "publicId x = publicId m")
      case True
      with x ic only have "x = m" by simp
      with mk inf show ?thesis by simp
    next
      case False
      with x ic inv ac inf show ?thesis by (auto simp: ginv_def)
    qed
  qed
  have "publicId r \<notin> gassets c'" if "r \<in> set (gims c)" "img_id r = k" for r
    using stage_destroy_id[OF di sk that] by (simp add: ac)
  with kl ic nc have newst: "stage_ok c' (AtDelete k)" by simp
  have sts: "stage_ok c' st" if "(t', st) \<in> set (gpending c')" for t' st
  proof (cases "(t', st) = (t, AtDelete k)")
    case True
    with newst show ?thesis by simp
  next
    case False
    with that pc have "(t', st) \<in> set (gpending c)" by auto
    with inv have "stage_ok c st" by (auto simp: ginv_def)
    then show ?thesis by (rule stage_ok_frame) (auto simp: ic nc ac)
  qed
  from inv have "images_inv (gnext c') (gims c')" "distinct (map publicId (gims c'))"
    by (simp_all add: ginv_def ic nc)
  with cov sts have "ginv c'" by (auto simp: ginv_def)
  then show ?thesis by (simp add: c'_def)
qed

lemma ginv_destroyed:
  assumes inv: "ginv c" and tg: "gtags_ok c" and cl: "clean_act c (GDestroyed t mo)"
  shows "ginv (gact (GDestroyed t mo) c)"
proof (cases "map_of (gpending c) t")
  case (Some st0)
  show ?thesis
  proof (cases st0)
    case (AtDestroy k m)
    with Some have mem: "(t, AtDestroy k m) \<in> set (gpending c)" by (auto dest: map_of_SomeD)
    from tg have dt: "distinct (map fst (gpending c))" by (simp add: gtags_ok_def)
    from cl have "mo = DestroyResolves \<or> mo = DestroyRejects" by (cases mo) simp_all
    then show ?thesis
    proof
      assume "mo = DestroyRejects"
      with Some AtDestroy ginv_destroy_rejects[OF inv mem dt] show ?thesis by simp
    next
      assume "mo = DestroyResolves"
      with Some AtDestroy ginv_destroy_resolves[OF inv mem dt] show ?thesis by simp
    qed
  next
    case (AtDelete k)
    with inv Some show ?thesis by simp
  qed
qed (use inv in simp)

lemma set_delete_by_id:
  assumes "distinct (map img_id ims)"
  shows "set (snd (find_one_and_delete (\<lambda>m. img_id m = k) ims)) = {x \<in> set ims. img_id x \<noteq> k}"
proof (cases "find (\<lambda>m. img_id m = k) ims")
  case None
  then have "snd (find_one_and_delete (\<lambda>m. img_id m = k) ims) = ims" by (simp add: snd_find_one_and_delete)
  with None show ?thesis by (auto simp: find_None_iff)
next
  case (Some r)
  then have r: "r \<in> set ims" "img_id r = k" by (auto simp: find_Some_iff)
  from Some have e: "snd (find_one_and_delete (\<lambda>m. img_id m = k) ims) = remove1 r ims"
    by (simp add: snd_find_one_and_delete)
  from assms have s1: "set (remove1 r ims) = set ims - {r}" by (simp add: distinct_map)
  have inj: "inj_on img_id (set ims)" using assms by (simp add: distinct_map)
  have "set ims - {r} = {x \<in> set ims. img_id x \<noteq> k}"
  proof (intro equalityI subsetI)
    fix x assume "x \<in> set ims - {r}"
    then have "x \<in> set ims" "x \<noteq> r" by simp_all
    with r inj have "img_id x \<noteq> img_id r" by (metis inj_onD)
    with \<open>x \<in> set ims\<close> r show "x \<in> {x \<in> set ims. img_id x \<noteq> k}" by simp
  next
    fix x assume "x \<in> {x \<in> set ims. img_id x \<noteq> k}"
    with r show "x \<in> set ims - {r}" by auto
  qed
  with e s1 show ?thesis by simp
qed

lemma distinct_delete_by_id:
  "distinct (map f ims) \<Longrightarrow> distinct (map f (snd (find_one_and_delete P ims)))"
  by (simp add: snd_find_one_and_delete distinct_map_remove1 split: option.split)

lemma stage_ok_delete_AtDelete:
  assumes old: "stage_ok c (AtDelete j)"
    and si: "set (gims c') = {x \<in> set (gims c). img_id x \<noteq> k}"
    and ac: "gassets c' = gassets c" and nc: "gnext c' = gnext c"
  shows "stage_ok c' (AtDelete j)"
  using old si by (simp add: nc ac)

lemma stage_ok_delete_AtDestroy:
  assumes old: "stage_ok c (AtDestroy k' m')" and sk: "stage_ok c (AtDelete k)"
    and si: "set (gims c') = {x \<in> set (gims c). img_id x \<noteq> k}"
    and dp: "distinct (map publicId (gims c))"
    and ac: "gassets c' = gassets c" and nc: "gnext c' = gnext c"
  shows "stage_ok c' (AtDestroy k' m')"
proof -
  from old have m1: "img_id m' = k'" and m2: "k' < gnext c"
    and m3: "k' \<in> img_id ` set (gims c) \<longrightarrow> m' \<in> set (gims c)"
    and m4: "m' \<notin> set (gims c) \<longrightarrow> publicId m' \<notin> gassets c \<and> publicId m' \<notin> publicId ` set (gims c)"
    by simp_all
  have c3: "k' \<in> img_id ` set (gims c') \<longrightarrow> m' \<in> set (gims c')"
  proof
    assume "k' \<in> img_id ` set (gims c')"
    then obtain x where x: "x \<in> set (gims c)" "img_id x \<noteq> k" "img_id x = k'" using si by auto
    then have "k' \<in> img_id ` set (gims c)" by (metis image_eqI)
    with m3 have "m' \<in> set (gims c)" by simp
    with m1 x(2,3) si show "m' \<in> set (gims c')" by simp
  qed
  have c4: "m' \<notin> set (gims c') \<longrightarrow> publicId m' \<notin> gassets c' \<and> publicId m' \<notin> publicId ` set (gims c')"
  proof
    assume n: "m' \<notin> set (gims c')"
    show "publicId m' \<notin> gassets c' \<and> publicId m' \<notin> publicId ` set (gims c')"
    proof (cases "m' \<in> set (gims c)")
      case True
      with n si have "img_id m' = k" by auto
      with True sk have na: "publicId m' \<notin> gassets c" by simp
      have sub: "set (gims c') \<subseteq> set (gims c)" using si by auto
      from dp sub True n have "publicId m' \<notin> publicId ` set (gims c')" by (rule distinct_map_notin_image)
      with na ac show ?thesis by simp
    next
      case False
      with m4 si ac show ?thesis by auto
    qed
  qed
  from m1 m2 c3 c4 nc show ?thesis by simp
qed

lemma stage_ok_delete:
  assumes "stage_ok c st" and "stage_ok c (AtDelete k)"
    and "set (gims c') = {x \<in> set (gims c). img_id x \<noteq> k}"
    and "distinct (map publicId (gims c))"
    and "gassets c' = gassets c" and "gnext c' = gnext c"
  shows "stage_ok c' st"
proof (cases st)
  case (AtDestroy k' m')
  from assms(1) AtDestroy have "stage_ok c (AtDestroy k' m')" by simp
  from stage_ok_delete_AtDestroy[OF this assms(2-6)] AtDestroy show ?thesis by simp
next
  case (AtDelete j)
  from assms(1) AtDelete have "stage_ok c (AtDelete j)" by simp
  from stage_ok_delete_AtDelete[OF this assms(3,5,6)] AtDelete show ?thesis by simp
qed

lemma ginv_deleted:
  assumes inv: "ginv c" and tg: "gtags_ok c" and cl: "clean_act c (GDeleted t db)"
  shows "ginv (gact (GDeleted t db) c)"
proof (cases "map_of (gpending c) t")
  case (Some st0)
  show ?thesis
  proof (cases st0)
    case (AtDelete k)
    with Some have mem: "(t, AtDelete k) \<in> set (gpending c)" by (auto dest: map_of_SomeD)
    from tg have dt: "distinct (map fst (gpending c))" by (simp add: gtags_ok_def)
    have dset: "set (drop_tag t (gpending c)) = set (gpending c) - {(t, AtDelete k)}"
      using dt mem by (rule drop_tag_unique)
    from inv mem have sk: "stage_ok c (AtDelete k)" by (auto simp: ginv_def)
    from cl have db: "db = DbOk" by simp
    define ims' where "ims' = snd (find_one_and_delete (\<lambda>m. img_id m = k) (gims c))"
    define c' where "c' = c\<lparr>gims := ims', gpending := drop_tag t (gpending c),
                      greplies := greplies c @ [(t, Message 200 ''Image deleted successfully'')]\<rparr>"
    have g: "gact (GDeleted t db) c = c'"
      using Some AtDelete db by (simp add: c'_def ims'_def delete_record_def)
    from inv have di: "distinct (map img_id (gims c))" and dp: "distinct (map publicId (gims c))"
      by (auto simp: ginv_def images_inv_def)
    have si: "set ims' = {x \<in> set (gims c). img_id x \<noteq> k}"
      unfolding ims'_def using di by (rule set_delete_by_id)
    have ic: "gims c' = ims'" and nc: "gnext c' = gnext c" and ac: "gassets c' = gassets c"
      and pc: "set (gpending c') = set (gpending c) - {(t, AtDelete k)}"
      by (simp_all add: c'_def dset)
    have inf: "inflight c' j" if "inflight c j" "j \<noteq> k" for j
      using that pc by (auto simp: inflight_def list_ex_iff)
    have dims: "distinct (map img_id ims')" unfolding ims'_def using di by (rule distinct_delete_by_id)
    from inv dims have "images_inv (gnext c) ims'"
      by (auto simp: ginv_def images_inv_def si)
    moreover have "distinct (map publicId ims')" unfolding ims'_def using dp by (rule distinct_delete_by_id)
    moreover have "\<forall>x \<in> set ims'. publicId x \<in> gassets c \<or> inflight c' (img_id x)"
    proof
      fix x assume "x \<in> set ims'"
      with si have x: "x \<in> set (gims c)" "img_id x \<noteq> k" by simp_all
      from inv x(1) have "publicId x \<in> gassets c \<or> inflight c (img_id x)" by (simp add: ginv_def)
      with inf x(2) show "publicId x \<in> gassets c \<or> inflight c' (img_id x)" by blast
    qed
    moreover have "stage_ok c' st" if "(t', st) \<in> set (gpending c')" for t' st
    proof -
      from that pc inv have old: "stage_ok c st" by (auto simp: ginv_def)
      have si': "set (gims c') = {x \<in> set (gims c). img_id x \<noteq> k}" by (simp add: ic si)
      from stage_ok_delete[OF old sk si' dp ac nc] show ?thesis .
    qed
    ultimately have "ginv c'" unfolding ginv_def ic nc ac by blast
    with g show ?thesis by simp
  qed (use inv Some in simp)
qed (use inv in simp)

lemma gact_ginv:
  assumes "ginv c" and "gtags_ok c" and "clean_act c a"
  shows "ginv (gact a c)"
proof (cases a)
  case (GArrive p db)
  show ?thesis
  proof (cases "delete_find db p (gims c)")
    case (Inl r)
    from ginv_arrive_Inl[OF assms(1) this] GArrive show ?thesis by (simp del: gact.simps)
  next
    case (Inr km)
    then obtain k m where "delete_find db p (gims c) = Inr (k, m)" by (cases km) simp
    from ginv_arrive_Inr[OF assms(1) this] GArrive show ?thesis by (simp del: gact.simps)
  qed
next
  case (GDestroyed t mo)
  with ginv_destroyed[of c t mo] assms show ?thesis by (simp del: gact.simps)
next
  case (GDeleted t db)
  with ginv_deleted[of c t db] assms show ?thesis by (simp del: gact.simps)
next
  case (GPost en body)
  with ginv_post[of c en body] assms show ?thesis by (simp del: gact.simps)
next
  case (GUpload p)
  with ginv_upload[of c p] assms show ?thesis by (simp del: gact.simps)
qed

lemma clean_run_ginv:
  "ginv c \<Longrightarrow> gtags_ok c \<Longrightarrow> clean_run c as \<Longrightarrow> ginv (fold gact as c) \<and> gtags_ok (fold gact as c)"
proof (induction as arbitrary: c)
  case (Cons a as)
  from Cons.prems have "ginv (gact a c)" "gtags_ok (gact a c)" "clean_run (gact a c) as"
    by (simp_all add: gact_ginv gact_tags_ok)
  then show ?case using Cons.IH by simp
qed simp

lemma ginv_init: "ginv init_gconf \<and> gtags_ok init_gconf"
  by (simp add: ginv_def gtags_ok_def init_gconf_def images_inv_def)

section \<open>Properties of the staged deletion\<close>

text \<open>
  C27: If the database rejects \<^verbatim>\<open>findByIdAndDelete\<close> after the media host
  deleted the asset, the request is answered 500 and the record stays, naming
  an asset that no longer exists, with no deletion left in flight.
\<close>

theorem delete_db_failure_orphans:
  assumes "gpending c = []" and "cast_oid p = Some k" and "find (\<lambda>m. img_id m = k) (gims c) = Some m"
  shows "fold gact [GArrive p DbOk, GDestroyed (gnext c) DestroyResolves, GDeleted (gnext c) DbRejects] c
         = c\<lparr>gassets := gassets c - {publicId m}, gnext := Suc (gnext c),
             greplies := greplies c @ [(gnext c, Message 500 ''Delete failed'')]\<rparr>
         \<and> m \<in> set (gims c)"
proof -
  from assms(3) have "m \<in> set (gims c)" by (metis find_Some_iff nth_mem)
  with assms show ?thesis by (simp add: delete_find_DbOk delete_record_def drop_tag_def Let_def)
qed

theorem delete_db_failure_orphans_witness:
  "fold gact [GArrive ex_img_key DbOk, GDestroyed 1 DestroyResolves, GDeleted 1 DbRejects]
     (init_gconf\<lparr>gims := [ex_img], gassets := {''events/y''}, gnext := 1\<rparr>)
   = init_gconf\<lparr>gims := [ex_img], gassets := {}, gnext := 2,
       greplies := [(1, Message 500 ''Delete failed'')]\<rparr>"
  using delete_db_failure_orphans[of "init_gconf\<lparr>gims := [ex_img], gassets := {''events/y''}, gnext := 1\<rparr>"
      ex_img_key 0 ex_img] cast_ex_img_key
  by (simp add: init_gconf_def)

text \<open>
  C9: The deletion protocol, interleaved, creates no record without its asset
  beyond those being deleted.  The code does not check what is registered, so
  the frontend's contract is a hypothesis (\<open>clean_act\<close>): every registered
  image names an asset it uploaded and that no stored record names, and an
  upload brings a fresh publicId (a registration reusing a stored publicId
  breaks it, theory \<open>Gallery\<close>); the media host does not lose a reply and the
  final delete does not fail (a lost reply breaks it, theory \<open>Gallery\<close>, and a
  failed final delete, above).  Under these conditions, for every schedule
  interleaving deletions (each cut at its three awaits) with registrations and
  uploads, every stored record's asset is hosted, except for records whose
  deletion is past its \<^verbatim>\<open>destroy\<close> and still in flight.
\<close>

theorem staged_consistency:
  assumes "clean_run init_gconf as"
  shows "list_all (\<lambda>m. publicId m \<in> gassets (fold gact as init_gconf) \<or> inflight (fold gact as init_gconf) (img_id m))
           (gims (fold gact as init_gconf))"
  using clean_run_ginv[OF ginv_init[THEN conjunct1] ginv_init[THEN conjunct2] assms]
  by (simp add: ginv_def list_all_iff)

theorem staged_consistency_witness:
  "clean_run init_gconf [GUpload ''events/y'', GPost ex_env ex_img_body, GArrive ex_img_key DbOk,
                         GDestroyed 1 DestroyResolves]
   \<and> list_all (\<lambda>m. publicId m \<in> gassets (fold gact [GUpload ''events/y'', GPost ex_env ex_img_body, GArrive ex_img_key DbOk,
                         GDestroyed 1 DestroyResolves] init_gconf)
        \<or> inflight (fold gact [GUpload ''events/y'', GPost ex_env ex_img_body, GArrive ex_img_key DbOk,
                         GDestroyed 1 DestroyResolves] init_gconf) (img_id m))
       (gims (fold gact [GUpload ''events/y'', GPost ex_env ex_img_body, GArrive ex_img_key DbOk,
                         GDestroyed 1 DestroyResolves] init_gconf))"
proof -
  have c: "clean_run init_gconf [GUpload ''events/y'', GPost ex_env ex_img_body, GArrive ex_img_key DbOk,
                         GDestroyed 1 DestroyResolves]"
    by (simp add: init_gconf_def pending_pids_def post_image_def new_image_def cast_required_def
                  cast_default_def insert_unique_def image_clash_def object_coercible_def Let_def
                  delete_find_def find_one_def cast_ex_img_key drop_tag_def)
  show ?thesis using c staged_consistency[OF c] by simp
qed

end
