(* ===== verification/Gallery_Loop.thy ===== *)
theory Gallery_Loop
  imports Gallery_Stages
begin

text \<open>
  The event loop driving the deletions of \<^verbatim>\<open>DELETE /api/gallery/:id\<close>
  that are suspended at an \<^verbatim>\<open>await\<close> (theory \<open>Gallery_Stages\<close>):
  \<open>gsettle\<close> resumes the first waiting request, with the outcome the media
  host and the database give that request, until none is waiting.  A resumed
  request may wait again (from \<^verbatim>\<open>destroy\<close> to \<^verbatim>\<open>findByIdAndDelete\<close>),
  so the waiting list need not shrink; the loop is a \<open>partial_function\<close> in
  the option monad and its termination is a theorem, by the measure
  \<open>pending_weight\<close> (two for a request before its media call, one after).
\<close>

text \<open>Awaits a waiting deletion still has to pass.\<close>

fun stage_weight :: "del_stage \<Rightarrow> nat" where
  "stage_weight (AtDestroy k m) = 2"
| "stage_weight (AtDelete k) = 1"

definition pending_weight :: "(nat \<times> del_stage) list \<Rightarrow> nat" where
  "pending_weight ps = sum_list (map (stage_weight \<circ> snd) ps)"

text \<open>
  The event loop: the outcomes \<open>mo\<close> and \<open>db\<close> are those of each request's
  media call and database call, chosen by the environment.
\<close>

partial_function (option) gsettle ::
  "(nat \<Rightarrow> media_outcome) \<Rightarrow> (nat \<Rightarrow> db_outcome) \<Rightarrow> gconf \<Rightarrow> gconf option" where
  "gsettle mo db c =
     (case gpending c of
        [] \<Rightarrow> Some c
      | (t, AtDestroy k m) # _ \<Rightarrow> gsettle mo db (gact (GDestroyed t (mo t)) c)
      | (t, AtDelete k) # _ \<Rightarrow> gsettle mo db (gact (GDeleted t (db t)) c))"

section \<open>Lemmas\<close>

lemma pending_weight_drop_tag: "pending_weight (drop_tag t ps) \<le> pending_weight ps"
  unfolding pending_weight_def drop_tag_def by (induction ps) auto

lemma gact_destroyed_head:
  assumes "gpending c = (t, AtDestroy k m) # ps"
  shows "pending_weight (gpending (gact (GDestroyed t o') c)) < pending_weight (gpending c)
         \<and> fst ` set (greplies (gact (GDestroyed t o') c)) \<union> fst ` set (gpending (gact (GDestroyed t o') c))
           = fst ` set (greplies c) \<union> fst ` set (gpending c)"
proof -
  have d: "drop_tag t (gpending c) = drop_tag t ps" using assms by (simp add: drop_tag_def)
  have w: "pending_weight (drop_tag t ps) \<le> pending_weight ps" by (rule pending_weight_drop_tag)
  have s: "fst ` set (drop_tag t ps) = fst ` set ps - {t}" by (force simp: set_drop_tag)
  show ?thesis
    using assms d w s
    by (cases "destroy o' (publicId m) (gassets c)")
       (auto simp: pending_weight_def split: bool.splits)
qed

lemma gact_deleted_head:
  assumes "gpending c = (t, AtDelete k) # ps"
  shows "pending_weight (gpending (gact (GDeleted t o') c)) < pending_weight (gpending c)
         \<and> fst ` set (greplies (gact (GDeleted t o') c)) \<union> fst ` set (gpending (gact (GDeleted t o') c))
           = fst ` set (greplies c) \<union> fst ` set (gpending c)"
proof -
  have d: "drop_tag t (gpending c) = drop_tag t ps" using assms by (simp add: drop_tag_def)
  have w: "pending_weight (drop_tag t ps) \<le> pending_weight ps" by (rule pending_weight_drop_tag)
  have s: "fst ` set (drop_tag t ps) = fst ` set ps - {t}" by (force simp: set_drop_tag)
  show ?thesis
    using assms d w s
    by (cases "delete_record o' k (gims c)") (auto simp: pending_weight_def)
qed

section \<open>Properties\<close>

text \<open>
  C21: Whatever the media host and the database answer, the event loop
  resuming the suspended gallery deletions returns: no deletion is left
  waiting, and every request that was waiting has been answered.
\<close>

theorem gsettle_terminates:
  "\<exists>c'. gsettle mo db c = Some c' \<and> gpending c' = []
     \<and> fst ` set (greplies c') = fst ` set (greplies c) \<union> fst ` set (gpending c)"
proof (induction c rule: measure_induct_rule[of "\<lambda>c. pending_weight (gpending c)"])
  case (less c)
  show ?case
  proof (cases "gpending c")
    case Nil
    then show ?thesis by (subst gsettle.simps) simp
  next
    case (Cons p ps)
    obtain t s where p: "p = (t, s)" by fastforce
    show ?thesis
    proof (cases s)
      case (AtDestroy k m)
      let ?c = "gact (GDestroyed t (mo t)) c"
      have h: "gpending c = (t, AtDestroy k m) # ps" using Cons p AtDestroy by simp
      have eq: "gsettle mo db c = gsettle mo db ?c"
        by (subst gsettle.simps) (simp add: h)
      from gact_destroyed_head[OF h] less[of ?c] show ?thesis
        unfolding eq by (metis h)
    next
      case (AtDelete k)
      let ?c = "gact (GDeleted t (db t)) c"
      have h: "gpending c = (t, AtDelete k) # ps" using Cons p AtDelete by simp
      have eq: "gsettle mo db c = gsettle mo db ?c"
        by (subst gsettle.simps) (simp add: h)
      from gact_deleted_head[OF h] less[of ?c] show ?thesis
        unfolding eq by (metis h)
    qed
  qed
qed

end
