(* ===== verification/Startup.thy ===== *)
theory Startup
  imports Prelude
begin

text \<open>
  Process start (lines 1--12, 24--30 and 222--225 of \<^verbatim>\<open>src/server.js\<close>).
  The script issues \<^verbatim>\<open>mongoose.connect\<close> and, without waiting for it,
  \<^verbatim>\<open>app.listen(PORT)\<close>; a failed connection ends the process with
  \<^verbatim>\<open>process.exit(1)\<close>.  Until the connection settles Mongoose buffers every
  database call of a handler; the buffered calls fail after Mongoose's buffer
  timeout if the process still runs.  The health route touches no database and
  is answered at once.  The process is a step relation over the connection
  state, whether the port is bound, and the requests buffered, answered and
  failed.
\<close>

text \<open>\<^verbatim>\<open>process.env.PORT || 5000\<close> (line 222): an unset or empty variable gives the number 5000.\<close>

datatype port_arg = PortString string | PortNumber nat

definition listen_port :: "string option \<Rightarrow> port_arg" where
  "listen_port v = (case v of None \<Rightarrow> PortNumber 5000 | Some s \<Rightarrow> if s = [] then PortNumber 5000 else PortString s)"

datatype conn_state = Connecting | Connected | Exited

record proc =
  conn :: conn_state
  listening :: bool
  buffered :: nat
  answered :: nat
  failed :: nat

definition init_proc :: proc where
  "init_proc = \<lparr>conn = Connecting, listening = False, buffered = 0, answered = 0, failed = 0\<rparr>"

text \<open>
  The events: the port is bound; the connection succeeds or fails; a request
  arrives, touching the database or not; Mongoose's buffer timeout fires.
\<close>

datatype proc_event = Bound | ConnectOk | ConnectFails | Arrive bool | BufferTimeout

inductive proc_step :: "proc \<Rightarrow> proc_event \<Rightarrow> proc \<Rightarrow> bool" where
  bound: "conn p \<noteq> Exited \<Longrightarrow> \<not> listening p \<Longrightarrow> proc_step p Bound (p\<lparr>listening := True\<rparr>)"
| connect_ok: "conn p = Connecting \<Longrightarrow>
    proc_step p ConnectOk (p\<lparr>conn := Connected, buffered := 0, answered := answered p + buffered p\<rparr>)"
| connect_fails: "conn p = Connecting \<Longrightarrow>
    proc_step p ConnectFails (p\<lparr>conn := Exited, listening := False\<rparr>)"
| arrive_now: "listening p \<Longrightarrow> conn p \<noteq> Exited \<Longrightarrow> (\<not> db \<or> conn p = Connected) \<Longrightarrow>
    proc_step p (Arrive db) (p\<lparr>answered := Suc (answered p)\<rparr>)"
| arrive_buffered: "listening p \<Longrightarrow> conn p = Connecting \<Longrightarrow>
    proc_step p (Arrive True) (p\<lparr>buffered := Suc (buffered p)\<rparr>)"
| buffer_timeout: "conn p = Connecting \<Longrightarrow>
    proc_step p BufferTimeout (p\<lparr>buffered := 0, failed := failed p + buffered p\<rparr>)"

inductive_cases proc_step_ConnectFailsE: "proc_step p ConnectFails p'"

inductive proc_steps :: "proc \<Rightarrow> proc_event list \<Rightarrow> proc \<Rightarrow> bool" where
  nil: "proc_steps p [] p"
| cons: "proc_step p e p' \<Longrightarrow> proc_steps p' es p'' \<Longrightarrow> proc_steps p (e # es) p''"

section \<open>Lemmas\<close>

lemma exited_terminal: "conn p = Exited \<Longrightarrow> \<not> proc_step p e p'"
  by (auto elim: proc_step.cases)

lemma exit_keeps_buffered:
  "proc_step p ConnectFails p' \<Longrightarrow> conn p' = Exited \<and> buffered p' = buffered p \<and> answered p' = answered p \<and> failed p' = failed p"
  by (auto elim: proc_step_ConnectFailsE)

section \<open>Properties of process start\<close>

text \<open>
  C34: The port is bound before the database connection is known to work, so
  the process has a run in which a request that needs the database is accepted
  and buffered while the connection is pending, the connection then fails and
  the process exits: the request is neither answered nor failed, and an exited
  process takes no further step.  The specification requires the service to
  refuse to start when the initial connection fails; had \<^verbatim>\<open>app.listen\<close> waited
  for the connection, no request could be accepted before the exit.
\<close>

theorem exit_loses_buffered:
  "\<exists>es p. proc_steps init_proc es p \<and> conn p = Exited \<and> buffered p = 1 \<and> answered p = 0 \<and> failed p = 0
      \<and> (\<forall>e p'. \<not> proc_step p e p')"
proof -
  let ?p1 = "init_proc\<lparr>listening := True\<rparr>"
  let ?p2 = "init_proc\<lparr>listening := True, buffered := 1\<rparr>"
  let ?p3 = "init_proc\<lparr>conn := Exited, buffered := 1\<rparr>"
  have s1: "proc_step init_proc Bound ?p1"
    by (rule proc_step.bound) (simp_all add: init_proc_def)
  have s2: "proc_step ?p1 (Arrive True) ?p2"
    using proc_step.arrive_buffered[of ?p1] by (simp add: init_proc_def)
  have s3: "proc_step ?p2 ConnectFails ?p3"
    using proc_step.connect_fails[of ?p2] by (simp add: init_proc_def)
  have r: "proc_steps init_proc [Bound, Arrive True, ConnectFails] ?p3"
    by (rule proc_steps.cons[OF s1 proc_steps.cons[OF s2 proc_steps.cons[OF s3 proc_steps.nil]]])
  have "conn ?p3 = Exited \<and> buffered ?p3 = 1 \<and> answered ?p3 = 0 \<and> failed ?p3 = 0"
    using exit_keeps_buffered[OF s3] by (simp add: init_proc_def)
  with r exited_terminal show ?thesis by blast
qed

end
