(* ===== verification/Spec2Isabelle.thy ===== *)
theory Spec2Isabelle
  imports Api Concurrency Gallery_Loop Startup
begin

text \<open>
  A verification development for the blog and gallery API of
  \<^verbatim>\<open>src/server.js\<close>, an Express application over two Mongoose models
  (\<^verbatim>\<open>Blog\<close>, \<^verbatim>\<open>GalleryImage\<close>) and the Cloudinary media host.  Lines 1--225
  are the live program; lines 229--365 are an older version, commented out.

  \<^bold>\<open>The program and its parts.\<close>  A request passes the \<^verbatim>\<open>cors\<close> middleware
  (lines 15--20) and \<^verbatim>\<open>express.json()\<close>, then the router picks one of nine
  route handlers (lines 66--219).  The Blog Manager (lines 104--219) lists,
  reads, creates and deletes posts keyed by slug; the Gallery Manager (lines
  73--101) lists, records and deletes images, deleting the image's asset on the
  media host before the record.  Every handler answers
  \<^verbatim>\<open>res.status(c).json(x)\<close> and turns a rejected promise into 500.

  \<^bold>\<open>Theories.\<close>
  \<^item> \<open>Prelude\<close>: the JavaScript values the handlers see (\<open>jsval\<close>), truthiness,
    destructuring (\<open>object_coercible\<close>, \<open>get_prop\<close>: the last duplicate key of
    a JSON object wins), \<^verbatim>\<open>String(v)\<close> (\<open>js_to_string\<close>), \<^verbatim>\<open>new Date(v)\<close>
    with TimeClip (\<open>js_new_date\<close>), the request environment \<open>env\<close> (clock and
    \<^verbatim>\<open>Date.parse\<close>), the error monad \<open>sbind\<close> and the \<open>response\<close> of a handler.
  \<^item> \<open>Mongo\<close>: the Mongoose casts of a schema path (\<open>cast_string\<close>,
    \<open>cast_number\<close>, \<open>cast_boolean\<close>, \<open>cast_required\<close>, \<open>cast_default\<close>), the
    cast of a query filter on a String path (\<open>cast_squery\<close>: an array becomes
    \<^verbatim>\<open>$in\<close>, an object of query operators is kept as operators), the
    collection operations \<open>find_one\<close>, \<open>find_one_and_delete\<close>,
    \<open>insert_unique\<close> (a unique index answering E11000), \<open>sort_desc\<close> for
    \<^verbatim>\<open>sort({ key: -1 })\<close>, and the ObjectId cast \<open>cast_oid\<close> of
    \<^verbatim>\<open>findById\<close> (24 hexadecimal digits, as bson 5 and later) with the
    printer \<open>oid_hex\<close> of the ids that replies carry (both library code, not
    mapped to the program's lines); \<open>db_outcome\<close>, a database call resolving
    or rejecting.
  \<^item> \<open>Blog\<close>: the schema as the record \<open>blog\<close>, the body's fields
    (\<open>blog_body\<close>), \<open>new_blog\<close> (\<^verbatim>\<open>new Blog(..)\<close> with its casts, defaults
    and validation) and the handlers \<open>get_blogs\<close>, \<open>get_blog\<close>,
    \<open>admin_blogs\<close>, \<open>create_blog\<close>, \<open>delete_blog\<close>; the invariant
    \<open>blogs_inv\<close> (unique slugs and ids, required fields non-empty, ids below
    the next ObjectId).
  \<^item> \<open>Media\<close>: \<^verbatim>\<open>cloudinary.uploader.destroy\<close> as \<open>destroy\<close> on the set of
    hosted assets, with its three outcomes: resolved, rejected, and deleted
    with the reply lost.
  \<^item> \<open>Gallery\<close>: the record \<open>image\<close>, \<open>new_image\<close>, and the handlers
    \<open>get_gallery\<close>, \<open>post_image\<close>, \<open>delete_image\<close>; the invariant
    \<open>images_inv\<close> and the consistency of records with hosted assets
    (\<open>consistent\<close>).
  \<^item> \<open>Router\<close>: the route table of registration order (\<open>route_table\<close>),
    path-to-regexp matching (case-insensitive, optional trailing slash, one
    non-empty segment per parameter, percent-decoding with 400 on failure)
    in Express 4's order: a layer's path and parameters first, then its
    method, \<^verbatim>\<open>HEAD\<close> served by \<^verbatim>\<open>GET\<close> routes, and the \<^verbatim>\<open>cors\<close> origin
    check \<open>cors_allow_origin\<close> against \<open>allowed_origins\<close>.
  \<^item> \<open>Server\<close>: the application as a state machine: the state \<open>server\<close> holds
    both collections, the hosted assets and the ObjectId supply; \<open>handle\<close>
    dispatches a route, \<open>handle_rejected\<close> is the same route when its
    database call rejects (the route's \<^verbatim>\<open>catch\<close>, \<open>catch_message\<close>, after
    the guards that run before the call), \<open>dispatch\<close> adds to any such
    handlers \<^verbatim>\<open>cors\<close> (204 for every \<^verbatim>\<open>OPTIONS\<close>), 404
    \<^verbatim>\<open>Cannot METHOD /path\<close> and 400, and \<open>serve\<close> is \<open>dispatch\<close> with
    the handlers for the request's \<open>db_outcome\<close>; \<open>step\<close> and \<open>run\<close> take requests and
    uploads one after the other; \<open>reachable\<close> is the inductive set of states
    reached from \<open>init_server\<close>.
  \<^item> \<open>Concurrency\<close>: \<^verbatim>\<open>POST /api/blogs\<close> cut at its two \<^verbatim>\<open>await\<close>s
    into \<open>create_blog_check\<close> and \<open>create_blog_save\<close>, and configurations in
    which any schedule (\<open>action\<close> list folded by \<open>act\<close>) interleaves
    concurrent creations; \<open>drain\<close> is the event loop resuming every request
    still waiting in \<^verbatim>\<open>save()\<close>.
  \<^item> \<open>Gallery_Stages\<close>: \<^verbatim>\<open>DELETE /api/gallery/:id\<close> cut at its three
    \<^verbatim>\<open>await\<close>s (\<open>delete_find\<close>, the \<open>destroy\<close> of theory \<open>Media\<close>,
    \<open>delete_record\<close>), each database call resolving or rejecting
    (\<open>db_outcome\<close>); configurations \<open>gconf\<close> in which any schedule
    (\<open>gaction\<close> list folded by \<open>gact\<close>) interleaves deletions with
    registrations and uploads.
  \<^item> \<open>Gallery_Loop\<close>: the event loop \<open>gsettle\<close> resuming the suspended
    gallery deletions with whatever outcome each service call has, a
    \<open>partial_function\<close> in the option monad.
  \<^item> \<open>Api\<close>: the specification's table of routes as a contract on replies
    (\<open>reply_typed\<close>, \<open>api_typed\<close>): it is the specification, not a model of
    code, and \<open>serve\<close> is shown to meet it.
  \<^item> \<open>Startup\<close>: \<^verbatim>\<open>mongoose.connect\<close> racing \<^verbatim>\<open>app.listen\<close> as the
    inductive step relation \<open>proc_step\<close> (connection state, bound port,
    requests buffered by Mongoose until the connection settles), and
    \<^verbatim>\<open>PORT || 5000\<close> as \<open>listen_port\<close>.

  \<^bold>\<open>What is proved.\<close>  For each handler its behaviour on every branch,
  errors included (400, 404, 409, 500 and their bodies); that every handler
  preserves its collection's invariant, and that every server state reachable
  by requests whose database calls resolve or reject satisfies both
  (\<open>Server.reachable_server_inv\<close>, by rule induction); that
  \<^verbatim>\<open>GET\<close>/\<^verbatim>\<open>HEAD\<close>/\<^verbatim>\<open>OPTIONS\<close> and requests whose database call
  rejects change nothing, and that a rejected call is answered by its route's
  \<^verbatim>\<open>catch\<close> (\<open>Server.serve_rejected_reply\<close>); that \<^verbatim>\<open>cors\<close>
  never changes what a request does; that routing is correct for the whole
  table and that a malformed parameter is 400 whatever the method; that the
  unique index keeps
  the collection well formed under every interleaving, that every creation
  request is answered exactly once when the event loop resumes the waiting
  ones (\<open>Concurrency.drain_answers_all\<close>), and the race in which a duplicate
  slug is answered 500 instead of 409; that every reply has the status and
  shape the specification's table gives its route (\<open>Api.serve_typed\<close>);
  that, under the frontend's contract on registrations and uploads (which the
  code does not check), under any interleaving every record keeps its asset
  unless its deletion is in flight past the media call
  (\<open>Gallery_Stages.staged_consistency\<close>, through an invariant \<open>ginv\<close>
  preserved by each action), and that the event loop resuming the suspended
  deletions returns with every waiting request answered, whatever the
  services answer (\<open>Gallery_Loop.gsettle_terminates\<close>).  The findings of the
  modelling: query-operator injection through the slug
  (\<open>Blog.create_blog_ne_injection\<close>), a slug query that is not the stored
  slug, invalid dates stored as 500, an invalid image id answered 500 instead
  of 404, a registration reusing a stored \<^verbatim>\<open>publicId\<close>, accepted by the code,
  after which deleting it leaves the older record without its asset
  (\<open>Gallery.delete_image_shared_public_id\<close>), a lost
  media reply leaving a record without its asset, the unreachable third
  allow-list entry \<^verbatim>\<open>"https://skybm.in/"\<close>, the creation race, a
  rejected \<^verbatim>\<open>findByIdAndDelete\<close> leaving a record whose asset is gone,
  and a run of the start-up in which a request is accepted before the
  database connection is up and lost when it fails
  (\<open>Startup.exit_loses_buffered\<close>).

  \<^bold>\<open>Bounds and fuel.\<close>  No loop of the program may run forever: every
  definition is structural recursion or a \<open>fun\<close> on lists, so no fuel is
  needed, except the event loop \<open>gsettle\<close>, where a resumed deletion may
  wait again; it is a \<open>partial_function (option)\<close>, and that it returns
  (\<open>Some\<close>) is proved by the measure \<open>pending_weight\<close>: each resumption
  lowers by one or two the number of awaits still to pass.  ObjectIds are
  natural numbers; a fresh id is the next of an unbounded counter, which
  stands for the driver's generator (timestamp, random value and a wrapping
  counter): the model relies only on fresh ids being distinct from stored
  ones, and no property states an order of ids.
  Timestamps are unbounded integers clipped as \<^verbatim>\<open>Date\<close> clips them
  (\<open>8.64e15\<close>).

  \<^bold>\<open>Not modelled.\<close>  Loading configuration (\<^verbatim>\<open>dotenv\<close>,
  \<^verbatim>\<open>cloudinary.config\<close>: lines 1--12) only reads values and has no
  behaviour; the environment's values appear as the initial state and the
  \<open>env\<close> of a request.  A rejected database call is one that has not
  reached the collection (connection down, buffering timed out); a write that
  is applied and whose reply is then lost is modelled only for the media call
  (\<open>DestroyLost\<close>).  A request's \<open>db_outcome\<close> is that of its first
  database call; in \<^verbatim>\<open>POST /api/blogs\<close> a rejected \<^verbatim>\<open>save()\<close> after a
  resolved \<^verbatim>\<open>findOne\<close> gives the same reply and state, and the later calls of
  the gallery deletion are those of theory \<open>Gallery_Stages\<close>.
  The body parser's own 400 for malformed JSON and its size limit are outside
  the handlers; \<^verbatim>\<open>console\<close> logging has no effect on replies; response
  headers other than the allow-origin header are not modelled; query operators
  other than comparison, \<^verbatim>\<open>$in\<close>, \<^verbatim>\<open>$nin\<close> and \<^verbatim>\<open>$exists\<close> are refused by
  the model's query cast; the interleaved models cover the two handlers with
  more than one \<^verbatim>\<open>await\<close>, each with the requests on its own collection; the
  commented-out legacy server of lines 229--365 is not code that runs.
  JavaScript numbers are integers in the model (no fractions, \<open>NaN\<close> or
  \<open>-0\<close>), and \<open>cast_number\<close> reads only optionally signed decimal digits: a
  \<^verbatim>\<open>readTime\<close> string such as \<^verbatim>\<open>"1.5"\<close>, \<^verbatim>\<open>" 12 "\<close> or \<^verbatim>\<open>"0x10"\<close>,
  which \<^verbatim>\<open>Number()\<close> accepts, is a cast error (500) in the model where the
  code stores the post; no property depends on it.  The ObjectId cast is that
  of bson 5 and later (24 hexadecimal digits); with bson 4 a 12-character
  string also casts.  No \<^verbatim>\<open>package.json\<close> fixes the versions.
\<close>

end
